(* ===== verification/Prelude.thy ===== *)
theory Prelude
  imports Main
begin

text \<open>
  Shared vocabulary of the development: JavaScript values as the core package uses them,
  results (\<open>throw\<close> against \<open>return\<close>), effects (state passing with a result), and the list
  lemmas the components share.

  A JavaScript string is modelled as a list of code units below 256 (the type \<^typ>\<open>string\<close>):
  every string the modelled code inspects character by character (names, permissions, UUIDs)
  is matched against ASCII classes only, and everything else is compared or concatenated.
  Timestamps and durations are integral milliseconds of type \<^typ>\<open>int\<close>.
\<close>

named_theorems eff_simps \<open>unfolding rules of the result and effect combinators\<close>
named_theorems js_simps \<open>facts about the JavaScript helpers\<close>

section \<open>JavaScript values\<close>

type_synonym js_string = string
type_synonym ms = int

text \<open>
  A JavaScript number as far as \<open>Number.isInteger\<close> looks at it: an integer, or anything else
  (a fraction, an infinity or NaN).
\<close>

datatype js_number = JsInt int | JsNonInt

primrec js_int :: "js_number \<Rightarrow> int" where
  "js_int (JsInt n) = n"
| "js_int JsNonInt = 0"

definition positive_integer :: "js_number \<Rightarrow> bool" where
  "positive_integer n = (case n of JsInt i \<Rightarrow> 0 < i | JsNonInt \<Rightarrow> False)"

lemma positive_integer_iff [js_simps]: "positive_integer n \<longleftrightarrow> (\<exists>i. n = JsInt i \<and> 0 < i)"
  by (cases n) (auto simp: positive_integer_def)

definition char_code :: "char \<Rightarrow> nat" where
  "char_code c = of_char c"

definition is_lower :: "char \<Rightarrow> bool" where
  "is_lower c = (97 \<le> char_code c \<and> char_code c \<le> 122)"

definition is_upper :: "char \<Rightarrow> bool" where
  "is_upper c = (65 \<le> char_code c \<and> char_code c \<le> 90)"

definition is_digit :: "char \<Rightarrow> bool" where
  "is_digit c = (48 \<le> char_code c \<and> char_code c \<le> 57)"

definition is_alnum :: "char \<Rightarrow> bool" where
  "is_alnum c = (is_lower c \<or> is_upper c \<or> is_digit c)"

definition is_hex_digit :: "char \<Rightarrow> bool" where
  "is_hex_digit c = (is_digit c \<or> (97 \<le> char_code c \<and> char_code c \<le> 102)
     \<or> (65 \<le> char_code c \<and> char_code c \<le> 70))"

text \<open>The white space and line terminators below 256 that \<open>String.prototype.trim\<close> removes.\<close>

definition is_js_space :: "char \<Rightarrow> bool" where
  "is_js_space c = (char_code c \<in> {9, 10, 11, 12, 13, 32, 160})"

definition js_trim :: "js_string \<Rightarrow> js_string" where
  "js_trim s = rev (dropWhile is_js_space (rev (dropWhile is_js_space s)))"

text \<open>\<open>String.prototype.split\<close> at a one-character separator.\<close>

fun split_on :: "char \<Rightarrow> js_string \<Rightarrow> js_string list" where
  "split_on c [] = [[]]"
| "split_on c (x # xs) =
     (if x = c then [] # split_on c xs
      else (case split_on c xs of [] \<Rightarrow> [[x]] | p # ps \<Rightarrow> (x # p) # ps))"

lemma split_on_not_Nil [simp]: "split_on c s \<noteq> []"
  by (cases s) (auto split: list.splits)

lemma hd_split_on [js_simps]: "hd (split_on c s) = takeWhile (\<lambda>x. x \<noteq> c) s"
  by (induction s) (auto split: list.splits)

lemma split_on_part: "p \<in> set (split_on c s) \<Longrightarrow> c \<notin> set p"
proof (induction s arbitrary: p)
  case Nil
  then show ?case by simp
next
  case (Cons x s)
  then show ?case by (cases "x = c"; cases "split_on c s") auto
qed

lemma split_on_join: "split_on c s = p # ps \<Longrightarrow> s = p @ concat (map (\<lambda>q. c # q) ps)"
proof (induction s arbitrary: p ps)
  case Nil
  then show ?case by simp
next
  case (Cons x s)
  obtain q qs where q: "split_on c s = q # qs" by (cases "split_on c s") auto
  show ?case using Cons.prems Cons.IH [OF q] q by (cases "x = c") auto
qed

lemma split_on_whole: "c \<notin> set s \<Longrightarrow> split_on c s = [s]"
  by (induction s) auto

lemma split_on_append: "c \<notin> set m \<Longrightarrow> split_on c (m @ c # v) = m # split_on c v"
  by (induction m) auto

lemma split_on_two:
  "split_on c s = [m, v] \<longleftrightarrow> s = m @ c # v \<and> c \<notin> set m \<and> c \<notin> set v"
proof
  assume "split_on c s = [m, v]"
  then show "s = m @ c # v \<and> c \<notin> set m \<and> c \<notin> set v"
    using split_on_join [of c s m "[v]"] split_on_part [of _ c s] by simp
next
  assume "s = m @ c # v \<and> c \<notin> set m \<and> c \<notin> set v"
  then show "split_on c s = [m, v]" by (simp add: split_on_append split_on_whole)
qed

text \<open>\<open>new Set(values).size !== values.length\<close>\<close>

definition has_duplicates :: "'a list \<Rightarrow> bool" where
  "has_duplicates values = (length (remdups values) \<noteq> length values)"

lemma has_duplicates_iff [js_simps]: "has_duplicates xs \<longleftrightarrow> \<not> distinct xs"
  by (simp add: has_duplicates_def)

text \<open>\<open>Set.prototype.add\<close> on a set kept in insertion order.\<close>

definition set_add :: "'a \<Rightarrow> 'a list \<Rightarrow> 'a list" where
  "set_add x xs = (if x \<in> set xs then xs else xs @ [x])"

lemma set_set_add [simp]: "set (set_add x xs) = insert x (set xs)"
  by (auto simp: set_add_def)

lemma distinct_set_add [simp]: "distinct (set_add x xs) = distinct xs"
  by (simp add: set_add_def)

text \<open>\<open>Math.ceil(ms / 1000)\<close> for integral \<open>ms\<close>.\<close>

definition ceil_div :: "int \<Rightarrow> int \<Rightarrow> int" where
  "ceil_div a b = - ((- a) div b)"

lemma ceil_div_ge: "0 < b \<Longrightarrow> a \<le> ceil_div a b * b"
proof -
  assume b: "0 < b"
  have "(- a) div b * b \<le> - a"
    using b by (metis add.commute add_increasing div_mult_mod_eq dual_order.refl pos_mod_sign)
  then show ?thesis by (simp add: ceil_div_def)
qed

lemma ceil_div_less: "0 < b \<Longrightarrow> ceil_div a b * b < a + b"
proof -
  assume b: "0 < b"
  have "(- a) mod b < b" using b by simp
  moreover have "- a = (- a) div b * b + (- a) mod b" by (rule div_mult_mod_eq [symmetric])
  ultimately have "- a - (- a) div b * b < b" by linarith
  then show ?thesis unfolding ceil_div_def by simp
qed

section \<open>Results and effects\<close>

text \<open>
  A computation that may throw returns a sum: \<open>Inl\<close> is the thrown error, \<open>Inr\<close> the value.
  An effect also reads and changes a state; an effect that throws keeps the changes it made
  before, as JavaScript does, and only a database transaction undoes them.
\<close>

type_synonym ('w, 'e, 'a) eff = "'w \<Rightarrow> ('e + 'a) \<times> 'w"

definition res_bind :: "'e + 'a \<Rightarrow> ('a \<Rightarrow> 'e + 'b) \<Rightarrow> 'e + 'b" where
  "res_bind r f = (case r of Inl e \<Rightarrow> Inl e | Inr x \<Rightarrow> f x)"

definition eff_return :: "'a \<Rightarrow> ('w, 'e, 'a) eff" where
  "eff_return x = (\<lambda>w. (Inr x, w))"

definition eff_throw :: "'e \<Rightarrow> ('w, 'e, 'a) eff" where
  "eff_throw e = (\<lambda>w. (Inl e, w))"

definition eff_of :: "'e + 'a \<Rightarrow> ('w, 'e, 'a) eff" where
  "eff_of r = (\<lambda>w. (r, w))"

definition eff_bind :: "('w, 'e, 'a) eff \<Rightarrow> ('a \<Rightarrow> ('w, 'e, 'b) eff) \<Rightarrow> ('w, 'e, 'b) eff" where
  "eff_bind m f = (\<lambda>w. case m w of (Inl e, w') \<Rightarrow> (Inl e, w') | (Inr x, w') \<Rightarrow> f x w')"

lemma res_bind_simps [simp]:
  "res_bind (Inl e) f = Inl e"
  "res_bind (Inr x) f = f x"
  by (simp_all add: res_bind_def)

lemma res_bind_Inr_iff [eff_simps]:
  "res_bind r f = Inr y \<longleftrightarrow> (\<exists>x. r = Inr x \<and> f x = Inr y)"
  by (cases r) auto

lemma res_bind_Inl_iff [eff_simps]:
  "res_bind r f = Inl e \<longleftrightarrow> r = Inl e \<or> (\<exists>x. r = Inr x \<and> f x = Inl e)"
  by (cases r) auto

lemma eff_return_apply [simp]: "eff_return x w = (Inr x, w)"
  by (simp add: eff_return_def)

lemma eff_throw_apply [simp]: "eff_throw e w = (Inl e, w)"
  by (simp add: eff_throw_def)

lemma eff_of_apply [simp]: "eff_of r w = (r, w)"
  by (simp add: eff_of_def)

lemma eff_bind_Inr_iff [eff_simps]:
  "eff_bind m f w = (Inr y, w'') \<longleftrightarrow> (\<exists>x w'. m w = (Inr x, w') \<and> f x w' = (Inr y, w''))"
  by (auto simp: eff_bind_def split: prod.splits sum.splits)

lemma eff_bind_Inl_iff [eff_simps]:
  "eff_bind m f w = (Inl e, w'') \<longleftrightarrow>
     m w = (Inl e, w'') \<or> (\<exists>x w'. m w = (Inr x, w') \<and> f x w' = (Inl e, w''))"
  by (auto simp: eff_bind_def split: prod.splits sum.splits)

section \<open>Lists\<close>

text \<open>A list of messages is empty when each conditional contribution is.\<close>

definition push_if :: "bool \<Rightarrow> 'a \<Rightarrow> 'a list" where
  "push_if b x = (if b then [x] else [])"

lemma push_if_Nil_iff [simp]: "push_if b x = [] \<longleftrightarrow> \<not> b"
  by (simp add: push_if_def)

lemma set_push_if [simp]: "set (push_if b x) = (if b then {x} else {})"
  by (cases b) (simp_all add: push_if_def)

lemma concat_map_Nil_iff: "concat (map f xs) = [] \<longleftrightarrow> (\<forall>x \<in> set xs. f x = [])"
  by auto

lemma card_Diff_insert_less:
  assumes "finite A" and "x \<in> A" and "x \<notin> B"
  shows "card (A - insert x B) < card (A - B)"
proof -
  have "A - insert x B \<subset> A - B" using assms(2,3) by blast
  then show ?thesis using assms(1) by (simp add: psubset_card_mono)
qed

text \<open>A JavaScript \<open>Set\<close> keeps the first occurrence of each value.\<close>

fun remdups_first :: "'a list \<Rightarrow> 'a list" where
  "remdups_first [] = []"
| "remdups_first (x # xs) = x # filter (\<lambda>y. y \<noteq> x) (remdups_first xs)"

lemma set_remdups_first [simp]: "set (remdups_first xs) = set xs"
  by (induction xs rule: remdups_first.induct) auto

lemma distinct_remdups_first [simp]: "distinct (remdups_first xs)"
  by (induction xs rule: remdups_first.induct) auto

lemma length_remdups_first: "length (remdups_first xs) \<le> length xs"
proof (induction xs rule: remdups_first.induct)
  case (2 x xs)
  have "length (filter (\<lambda>y. y \<noteq> x) (remdups_first xs)) \<le> length (remdups_first xs)" by simp
  then show ?case using 2 by (simp del: length_filter_le)
qed simp

end
