(* ===== verification/Core_Errors.thy ===== *)
theory Core_Errors
  imports Prelude
begin

text \<open>
  The error vocabulary of the core (\<open>packages/core/src/errors/index.ts\<close>). One constructor per
  class, carrying what reaches a client: the client message and the typed extras. The
  \<open>internalMessage\<close> and \<open>cause\<close> of an error go to logs only; in their place a
  \<open>CoreInvariantError\<close> carries a tag that names the violated invariant, so that a theorem can
  say which check fired.
\<close>

datatype core_error_code =
    VALIDATION
  | PERMISSION_DENIED
  | NOT_FOUND
  | CONFLICT
  | IDEMPOTENCY_CONFLICT
  | RETRY_IN_PROGRESS
  | CONFIRMATION_REQUIRED
  | RATE_LIMITED
  | TIMEOUT
  | INTERNAL

record action_preview_line =
  pl_label :: js_string
  pl_value :: js_string

record action_preview =
  pv_title :: js_string
  pv_lines :: "action_preview_line list"
  pv_notes :: "js_string list option"

record confirmation_challenge =
  ch_challengeId :: js_string
  ch_summary :: js_string
  ch_expiresAt :: ms
  ch_preview :: "action_preview option"

text \<open>One issue of a failed schema parse: the path and the message.\<close>

record zod_issue =
  iss_path :: "js_string list"
  iss_message :: js_string

text \<open>The invariants whose violation the modelled code reports, one tag per throw site, grouped by the
  part of the core that checks them.\<close>

datatype pipeline_invariant =
    ForeignThrow
  | OutputSchemaMismatch
  | StoredResponseMismatch
  | PrincipalModeMismatch
  | SystemScopeMismatch
  | MissingRateLimitHook
  | MissingIdempotencyHook
  | MissingAuditHook
  | MissingConfirmationHook
  | MissingJobPort
  | MissingAuthorization
  | MissingResolver
  | MissingAuditTarget
  | MissingConfirmationCard
  | MissingProjectionGrant
  | ConfirmationFlagNotApplicable
  | ConfirmationOnlyGranted
  | PreviewNonHumanPrincipal

datatype context_invariant =
    MissingClientIp
  | InheritedCompanyMismatch
  | UnknownRole
  | EmptyServiceName
  | MalformedTenantCompany
  | MissingTokenHash
  | NotJson
  | AuditTargetTwice
  | AuditTargetOutsideHandler
  | AnonymousAuditActor

datatype protocol_invariant =
    NonUserActor
  | UnprotectedMode
  | NoScopeKey
  | ForeignReservation
  | UnknownRowStatus
  | ConfirmationStoreUnavailable
  | EmptyIpSecret
  | NoUserForRateLimit
  | NoSessionForRateLimit
  | NoClientIpForRateLimit
  | NoTrustedCompany

datatype event_invariant =
    EmitAfterFlush
  | EmitFromRead
  | EmitUndeclared
  | EmitEmptyAggregateType
  | EmitMalformedAggregateId
  | EmitPayloadMismatch
  | AnonymousEventActor
  | TenantEventWithoutCompany
  | UuidTimestampRange
  | MissingDelivery
  | DeliveryMisrouted
  | IncompleteClaim
  | LostClaim
  | RetryAttemptRange
  | StoredValueRange
  | ForeignDeliveryThrow

datatype job_invariant =
    EnqueueAfterFlush
  | EnqueueFromRead
  | EnqueueUndeclared
  | EnqueuePayloadMismatch
  | EnqueueDuplicate
  | JobPortMissingAtFlush
  | AnonymousJobActor
  | TenantJobWithoutCompany
  | NestedEnqueue
  | JobRefused
  | JobFanOutRefused

datatype call_invariant =
    CallOutsideHandler
  | CallRulesViolated
  | CallCycle
  | CallDepthExceeded
  | PublicGlobalCaller
  | GlobalSystemCaller
  | AtomicCallTwice
  | NestedAtomicCall
  | CalleeOutputMismatch
  | CalleeForeignThrow
  | CalleeResolverMissing
  | CalleeAuditTargetMissing

datatype module_invariant =
    ZeroDenominator
  | IllegalMinorUnits
  | IllegalQuantityMilli
  | NotUah
  | NotWritable
  | CounterReturnedNoRow
  | InsertReturnedNoRow
  | AllocationFailed
  | IllegalPriceSource
  | IllegalStatus
  | PriceRowMismatch
  | PriceCountMismatch
  | NoPrices
  | LineCountMismatch
  | EmptyCustomerSnapshot
  | EmptyReference
  | UpdateReturnedNoRow
  | NoLineSnapshots
  | ProductFactMissing
  | VariantFactMissing

datatype invariant =
    In_Pipeline pipeline_invariant
  | In_Context context_invariant
  | In_Protocol protocol_invariant
  | In_Event event_invariant
  | In_Job job_invariant
  | In_Call call_invariant
  | In_Module module_invariant

datatype core_error =
    ValidationError "zod_issue list" js_string
  | PermissionDeniedError js_string
  | NotFoundError js_string
  | ConflictError js_string
  | IdempotencyConflictError js_string
  | ConcurrentRetryError int js_string
  | ConfirmationRequiredError confirmation_challenge js_string
  | RateLimitError int js_string
  | TimeoutError js_string
  | CoreInvariantError invariant

abbreviation pipeline_error :: "pipeline_invariant \<Rightarrow> core_error" where
  "pipeline_error i \<equiv> CoreInvariantError (In_Pipeline i)"

abbreviation context_error :: "context_invariant \<Rightarrow> core_error" where
  "context_error i \<equiv> CoreInvariantError (In_Context i)"

abbreviation protocol_error :: "protocol_invariant \<Rightarrow> core_error" where
  "protocol_error i \<equiv> CoreInvariantError (In_Protocol i)"

abbreviation event_error :: "event_invariant \<Rightarrow> core_error" where
  "event_error i \<equiv> CoreInvariantError (In_Event i)"

abbreviation job_error :: "job_invariant \<Rightarrow> core_error" where
  "job_error i \<equiv> CoreInvariantError (In_Job i)"

abbreviation call_error :: "call_invariant \<Rightarrow> core_error" where
  "call_error i \<equiv> CoreInvariantError (In_Call i)"

abbreviation module_error :: "module_invariant \<Rightarrow> core_error" where
  "module_error i \<equiv> CoreInvariantError (In_Module i)"

fun error_code :: "core_error \<Rightarrow> core_error_code" where
  "error_code (ValidationError _ _) = VALIDATION"
| "error_code (PermissionDeniedError _) = PERMISSION_DENIED"
| "error_code (NotFoundError _) = NOT_FOUND"
| "error_code (ConflictError _) = CONFLICT"
| "error_code (IdempotencyConflictError _) = IDEMPOTENCY_CONFLICT"
| "error_code (ConcurrentRetryError _ _) = RETRY_IN_PROGRESS"
| "error_code (ConfirmationRequiredError _ _) = CONFIRMATION_REQUIRED"
| "error_code (RateLimitError _ _) = RATE_LIMITED"
| "error_code (TimeoutError _) = TIMEOUT"
| "error_code (CoreInvariantError _) = INTERNAL"

text \<open>The only free text of an error that may reach a client.\<close>

fun client_message :: "core_error \<Rightarrow> js_string" where
  "client_message (ValidationError _ m) = m"
| "client_message (PermissionDeniedError m) = m"
| "client_message (NotFoundError m) = m"
| "client_message (ConflictError m) = m"
| "client_message (IdempotencyConflictError m) = m"
| "client_message (ConcurrentRetryError _ m) = m"
| "client_message (ConfirmationRequiredError _ m) = m"
| "client_message (RateLimitError _ m) = m"
| "client_message (TimeoutError m) = m"
| "client_message (CoreInvariantError _) = ''Internal error.''"

text \<open>The constructors with the default client messages of their classes.\<close>

definition validation_error :: "zod_issue list \<Rightarrow> core_error" where
  "validation_error issues = ValidationError issues ''Input validation failed.''"

definition permission_denied :: core_error where
  "permission_denied =
     PermissionDeniedError ''You do not have permission to perform this action.''"

definition not_found :: core_error where
  "not_found = NotFoundError ''The requested resource was not found.''"

definition idempotency_conflict :: core_error where
  "idempotency_conflict =
     IdempotencyConflictError ''This request was already submitted with different content.''"

definition concurrent_retry :: "int \<Rightarrow> core_error" where
  "concurrent_retry retryAfterSec = ConcurrentRetryError retryAfterSec
     ''A previous attempt of this request is still in progress. Retry shortly.''"

definition confirmation_required :: "confirmation_challenge \<Rightarrow> core_error" where
  "confirmation_required challenge =
     ConfirmationRequiredError challenge ''This action requires explicit confirmation.''"

definition rate_limited :: "int \<Rightarrow> core_error" where
  "rate_limited retryAfterSec =
     RateLimitError retryAfterSec ''Too many requests. Retry later.''"

definition timeout_error :: core_error where
  "timeout_error = TimeoutError ''The action did not complete in time.''"

lemmas default_error_defs =
  validation_error_def permission_denied_def not_found_def idempotency_conflict_def
  concurrent_retry_def confirmation_required_def rate_limited_def timeout_error_def

lemma error_code_defaults [simp]:
  "error_code (validation_error is) = VALIDATION"
  "error_code permission_denied = PERMISSION_DENIED"
  "error_code not_found = NOT_FOUND"
  "error_code idempotency_conflict = IDEMPOTENCY_CONFLICT"
  "error_code (concurrent_retry n) = RETRY_IN_PROGRESS"
  "error_code (confirmation_required c) = CONFIRMATION_REQUIRED"
  "error_code (rate_limited n) = RATE_LIMITED"
  "error_code timeout_error = TIMEOUT"
  by (simp_all add: default_error_defs)

text \<open>
  What a domain callback can throw: a typed core error, or anything else. Everything that
  leaves the pipeline is a core error: the rest becomes an invariant violation.
\<close>

datatype thrown = Typed core_error | Foreign

fun to_core_error :: "thrown \<Rightarrow> core_error" where
  "to_core_error (Typed e) = e"
| "to_core_error Foreign = pipeline_error ForeignThrow"

end
