(* ===== verification/Permissions.thy ===== *)
theory Permissions
  imports Core_Errors
begin

text \<open>
  Staff permission evaluation: \<open>runtime/context/permission-prerequisites.ts\<close> (the catalog, the
  prerequisites a permission brings along, the worklist that closes a set of permissions under
  them) and \<open>runtime/context/permissions.ts\<close> (roles, the effective set of a member, the checks).
\<close>

section \<open>Prerequisites\<close>

definition PERMISSION_CATALOG :: "js_string list" where
  "PERMISSION_CATALOG = [
     ''assistant:use'', ''chat:view'', ''companies:view'', ''customers:create'',
     ''customers:delete'', ''customers:edit'', ''customers:invite'', ''customers:view'',
     ''documents:create'', ''documents:edit'', ''documents:view'', ''files:upload'',
     ''files:view'', ''orders:create'', ''orders:edit'', ''orders:view'', ''pricing:manage'',
     ''pricing:view'', ''products:create'', ''products:delete'', ''products:edit'',
     ''products:view'', ''settings:payments'']"

definition PERMISSION_CALL_PREREQUISITES :: "(js_string \<times> js_string list) list" where
  "PERMISSION_CALL_PREREQUISITES = [
     (''customers:create'', [''pricing:view'']),
     (''customers:edit'', [''pricing:view'']),
     (''customers:invite'', [''customers:view'', ''pricing:view'']),
     (''documents:create'',
        [''companies:view'', ''customers:view'', ''documents:view'', ''orders:view'']),
     (''documents:edit'', [''companies:view'', ''documents:view'', ''files:view'']),
     (''documents:view'', [''companies:view'']),
     (''orders:create'',
        [''companies:view'', ''customers:view'', ''pricing:view'', ''products:view'']),
     (''orders:edit'', [''companies:view'']),
     (''orders:view'', [''companies:view'', ''customers:view'']),
     (''pricing:manage'', [''products:view'']),
     (''pricing:view'', [''customers:view'', ''products:view'']),
     (''products:edit'', [''files:view''])]"

definition sameResourceViewPermission :: "js_string \<Rightarrow> js_string option" where
  "sameResourceViewPermission permission =
     (case split_on CHR '':'' permission of
        resource # verb # _ \<Rightarrow>
          (if verb = ''view'' then None
           else let view = resource @ '':view'' in
             if view \<in> set PERMISSION_CATALOG then Some view else None)
      | _ \<Rightarrow> None)"

definition permissionPrerequisites :: "js_string \<Rightarrow> js_string list" where
  "permissionPrerequisites permission =
     (let fromCallEdges =
            (case map_of PERMISSION_CALL_PREREQUISITES permission of None \<Rightarrow> [] | Some ps \<Rightarrow> ps)
      in case sameResourceViewPermission permission of
           None \<Rightarrow> fromCallEdges
         | Some view \<Rightarrow>
             (if view \<in> set fromCallEdges then fromCallEdges else view # fromCallEdges))"

lemma call_prerequisites_in_catalog:
  "(p, ps) \<in> set PERMISSION_CALL_PREREQUISITES \<Longrightarrow>
     p \<in> set PERMISSION_CATALOG \<and> set ps \<subseteq> set PERMISSION_CATALOG"
  by (auto simp: PERMISSION_CALL_PREREQUISITES_def PERMISSION_CATALOG_def)

lemma view_in_catalog:
  "sameResourceViewPermission p = Some v \<Longrightarrow> v \<in> set PERMISSION_CATALOG"
  by (auto simp: sameResourceViewPermission_def Let_def split: list.splits if_splits)

lemma prerequisites_in_catalog:
  "set (permissionPrerequisites p) \<subseteq> set PERMISSION_CATALOG"
proof -
  have "set (case map_of PERMISSION_CALL_PREREQUISITES p of None \<Rightarrow> [] | Some ps \<Rightarrow> ps)
      \<subseteq> set PERMISSION_CATALOG"
  proof (cases "map_of PERMISSION_CALL_PREREQUISITES p")
    case None
    then show ?thesis by simp
  next
    case (Some ps)
    then show ?thesis using call_prerequisites_in_catalog [OF map_of_SomeD] by simp
  qed
  then show ?thesis
    using view_in_catalog by (auto simp: permissionPrerequisites_def Let_def split: option.splits)
qed

definition outside_catalog :: "js_string list \<Rightarrow> nat" where
  "outside_catalog ps = length (filter (\<lambda>p. p \<notin> set PERMISSION_CATALOG) ps)"

lemma outside_catalog_append_prerequisites:
  "outside_catalog (ps @ permissionPrerequisites p) = outside_catalog ps"
proof -
  have "filter (\<lambda>q. q \<notin> set PERMISSION_CATALOG) (permissionPrerequisites p) = []"
    using prerequisites_in_catalog [of p] by (auto simp: filter_empty_conv)
  then show ?thesis by (simp add: outside_catalog_def)
qed

definition expand_measure :: "js_string list \<times> js_string list \<Rightarrow> nat \<times> nat \<times> nat" where
  "expand_measure = (\<lambda>(expanded, pending).
     (outside_catalog pending, card (set PERMISSION_CATALOG - set expanded), length pending))"

text \<open>
  The worklist of \<open>expandPermissionPrerequisites\<close>: \<open>expanded\<close> is the set in insertion order,
  \<open>pending\<close> the part of the array from \<open>index\<close> on, to which the body appends. A permission
  outside the catalog has prerequisites in the catalog only, so the loop ends.
\<close>

function expand_loop :: "js_string list \<Rightarrow> js_string list \<Rightarrow> js_string list" where
  "expand_loop expanded [] = expanded"
| "expand_loop expanded (permission # pending) =
     (if permission \<in> set expanded then expand_loop expanded pending
      else expand_loop (set_add permission expanded)
             (pending @ permissionPrerequisites permission))"
  by pat_completeness auto

termination
proof (relation "inv_image (less_than <*lex*> less_than <*lex*> less_than) expand_measure")
  show "wf (inv_image (less_than <*lex*> less_than <*lex*> less_than) expand_measure)"
    by auto
next
  fix expanded pending and permission :: js_string
  show "((expanded, pending), expanded, permission # pending)
      \<in> inv_image (less_than <*lex*> less_than <*lex*> less_than) expand_measure"
    by (auto simp: expand_measure_def outside_catalog_def)
next
  fix expanded pending and permission :: js_string
  assume new: "permission \<notin> set expanded"
  show "((set_add permission expanded, pending @ permissionPrerequisites permission),
      expanded, permission # pending)
      \<in> inv_image (less_than <*lex*> less_than <*lex*> less_than) expand_measure"
  proof (cases "permission \<in> set PERMISSION_CATALOG")
    case True
    have "card (set PERMISSION_CATALOG - insert permission (set expanded))
        < card (set PERMISSION_CATALOG - set expanded)"
      using True new by (intro card_Diff_insert_less) auto
    moreover have "outside_catalog (permission # pending) = outside_catalog pending"
      using True by (simp add: outside_catalog_def)
    ultimately show ?thesis
      by (simp add: expand_measure_def outside_catalog_append_prerequisites)
  next
    case False
    then have "outside_catalog (permission # pending) = Suc (outside_catalog pending)"
      by (simp add: outside_catalog_def)
    then show ?thesis
      by (simp add: expand_measure_def outside_catalog_append_prerequisites)
  qed
qed

definition expandPermissionPrerequisites :: "js_string list \<Rightarrow> js_string list" where
  "expandPermissionPrerequisites permissions = expand_loop [] permissions"

definition permissionRequiresDenied :: "js_string \<Rightarrow> js_string list \<Rightarrow> bool" where
  "permissionRequiresDenied permission denied =
     list_ex (\<lambda>required. required \<in> set denied) (expandPermissionPrerequisites [permission])"

text \<open>The specification of the worklist: the reflexive-transitive closure of the prerequisites.\<close>

definition requires :: "js_string \<Rightarrow> js_string \<Rightarrow> bool" where
  "requires = (\<lambda>p q. q \<in> set (permissionPrerequisites p))\<^sup>*\<^sup>*"

lemma requires_refl [simp, intro]: "requires p p"
  by (simp add: requires_def)

lemma requires_step: "q \<in> set (permissionPrerequisites p) \<Longrightarrow> requires q r \<Longrightarrow> requires p r"
  unfolding requires_def by (rule converse_rtranclp_into_rtranclp)

lemma requires_trans: "requires p q \<Longrightarrow> requires q r \<Longrightarrow> requires p r"
  unfolding requires_def by (rule rtranclp_trans)

lemma expand_loop_sound:
  "q \<in> set (expand_loop expanded pending) \<Longrightarrow>
     q \<in> set expanded \<or> (\<exists>p \<in> set pending. requires p q)"
proof (induction expanded pending rule: expand_loop.induct)
  case (1 expanded)
  then show ?case by simp
next
  case (2 expanded permission pending)
  show ?case
  proof (cases "permission \<in> set expanded")
    case True
    with 2 show ?thesis by auto
  next
    case False
    with 2 show ?thesis by (auto intro: requires_step)
  qed
qed

lemma expand_loop_extends:
  "set expanded \<union> set pending \<subseteq> set (expand_loop expanded pending)"
  by (induction expanded pending rule: expand_loop.induct) auto

lemma expand_loop_closed:
  assumes "\<And>p q. p \<in> set expanded \<Longrightarrow> q \<in> set (permissionPrerequisites p) \<Longrightarrow>
             q \<in> set expanded \<union> set pending"
    and "p \<in> set (expand_loop expanded pending)" and "q \<in> set (permissionPrerequisites p)"
  shows "q \<in> set (expand_loop expanded pending)"
  using assms
proof (induction expanded pending rule: expand_loop.induct)
  case (1 expanded)
  then show ?case by auto
next
  case (2 expanded permission pending)
  show ?case
  proof (cases "permission \<in> set expanded")
    case True
    have "q \<in> set (expand_loop expanded pending)"
      using True "2.prems" by (intro "2.IH"(1)) auto
    then show ?thesis using True by simp
  next
    case False
    have "q \<in> set (expand_loop (set_add permission expanded)
        (pending @ permissionPrerequisites permission))"
      using False "2.prems" by (intro "2.IH"(2)) auto
    then show ?thesis using False by simp
  qed
qed

lemma expand_loop_distinct: "distinct expanded \<Longrightarrow> distinct (expand_loop expanded pending)"
  by (induction expanded pending rule: expand_loop.induct) auto

lemma expand_closed:
  "p \<in> set (expandPermissionPrerequisites ps) \<Longrightarrow> q \<in> set (permissionPrerequisites p) \<Longrightarrow>
     q \<in> set (expandPermissionPrerequisites ps)"
  unfolding expandPermissionPrerequisites_def by (rule expand_loop_closed) auto

lemma expand_requires_closed:
  assumes "p \<in> set (expandPermissionPrerequisites ps)" and "requires p q"
  shows "q \<in> set (expandPermissionPrerequisites ps)"
  using assms(2,1) unfolding requires_def
  by (induction rule: rtranclp_induct) (auto intro: expand_closed)

lemma set_expand:
  "set (expandPermissionPrerequisites ps) = {q. \<exists>p \<in> set ps. requires p q}"
proof (intro equalityI subsetI)
  fix q assume "q \<in> set (expandPermissionPrerequisites ps)"
  then show "q \<in> {q. \<exists>p \<in> set ps. requires p q}"
    using expand_loop_sound [of q "[]" ps] by (simp add: expandPermissionPrerequisites_def)
next
  fix q assume "q \<in> {q. \<exists>p \<in> set ps. requires p q}"
  then obtain p where p: "p \<in> set ps" "requires p q" by blast
  then have "p \<in> set (expandPermissionPrerequisites ps)"
    using expand_loop_extends [of "[]" ps] by (auto simp: expandPermissionPrerequisites_def)
  then show "q \<in> set (expandPermissionPrerequisites ps)"
    using p(2) by (rule expand_requires_closed)
qed

lemma distinct_expand: "distinct (expandPermissionPrerequisites ps)"
  by (simp add: expandPermissionPrerequisites_def expand_loop_distinct)

lemma permissionRequiresDenied_iff:
  "permissionRequiresDenied p denied \<longleftrightarrow> (\<exists>q \<in> set denied. requires p q)"
  by (auto simp: permissionRequiresDenied_def list_ex_iff set_expand)

section \<open>Roles and the effective set\<close>

datatype company_role = Owner | Admin | Manager | Employee

definition COMPANY_ROLES :: "(js_string \<times> company_role) list" where
  "COMPANY_ROLES =
     [(''owner'', Owner), (''admin'', Admin), (''manager'', Manager), (''employee'', Employee)]"

definition isCompanyRole :: "js_string \<Rightarrow> bool" where
  "isCompanyRole value = (value \<in> set (map fst COMPANY_ROLES))"

text \<open>The narrowing of a stored role that \<open>isCompanyRole\<close> guards.\<close>

definition company_role_of :: "js_string \<Rightarrow> company_role option" where
  "company_role_of value = map_of COMPANY_ROLES value"

lemma isCompanyRole_iff: "isCompanyRole v \<longleftrightarrow> (\<exists>r. company_role_of v = Some r)"
  by (auto simp: isCompanyRole_def company_role_of_def COMPANY_ROLES_def)

record member_permissions =
  granted :: "js_string list"
  denied :: "js_string list"

record staff_membership =
  mb_role :: company_role
  mb_permissions :: "js_string list"

definition resolveEffectivePermissions ::
  "member_permissions \<Rightarrow> js_string list \<Rightarrow> js_string list" where
  "resolveEffectivePermissions overrides roleDefaults =
     expandPermissionPrerequisites
       (filter (\<lambda>permission. \<not> permissionRequiresDenied permission (denied overrides))
          (roleDefaults @ granted overrides))"

definition staffHasPermission :: "staff_membership \<Rightarrow> js_string \<Rightarrow> bool" where
  "staffHasPermission membership permission =
     (if mb_role membership = Owner then True
      else permission \<in> set (mb_permissions membership))"

fun assertDeclaredPermissions :: "staff_membership \<Rightarrow> js_string list \<Rightarrow> core_error + unit" where
  "assertDeclaredPermissions membership [] = Inr ()"
| "assertDeclaredPermissions membership (permission # permissions) =
     (if \<not> staffHasPermission membership permission then Inl permission_denied
      else assertDeclaredPermissions membership permissions)"

lemma assertDeclaredPermissions_ok_iff:
  "assertDeclaredPermissions m ps = Inr () \<longleftrightarrow> (\<forall>p \<in> set ps. staffHasPermission m p)"
  by (induction ps) (auto simp: permission_denied_def)

lemma assertDeclaredPermissions_cases:
  "assertDeclaredPermissions m ps =
     (if \<forall>p \<in> set ps. staffHasPermission m p then Inr () else Inl permission_denied)"
  by (induction ps) auto

lemma set_resolveEffectivePermissions:
  "set (resolveEffectivePermissions overrides defaults) =
     {q. \<exists>p \<in> set defaults \<union> set (granted overrides).
           requires p q \<and> (\<forall>d \<in> set (denied overrides). \<not> requires p d)}"
  by (auto simp: resolveEffectivePermissions_def set_expand permissionRequiresDenied_iff)

text \<open>
  C31: the worklist computes exactly the reflexive-transitive closure of the prerequisite
  relation, without repetitions, for any list of permissions (known to the catalog or not).
\<close>

theorem expand_is_prerequisite_closure:
  "set (expandPermissionPrerequisites permissions) = {q. \<exists>p \<in> set permissions. requires p q}
   \<and> distinct (expandPermissionPrerequisites permissions)"
  by (simp add: set_expand distinct_expand)

text \<open>
  C30: an explicit deny always wins. The effective permissions of a member hold no denied
  permission, whatever the role defaults and the grants are, they are closed under
  prerequisites, and every default or granted permission none of whose prerequisites is denied
  is among them.
\<close>

theorem deny_wins:
  "set (resolveEffectivePermissions overrides roleDefaults) \<inter> set (denied overrides) = {}
   \<and> (\<forall>p q. p \<in> set (resolveEffectivePermissions overrides roleDefaults) \<and> requires p q
        \<longrightarrow> q \<in> set (resolveEffectivePermissions overrides roleDefaults))
   \<and> (\<forall>p. p \<in> set roleDefaults \<union> set (granted overrides) \<and>
        \<not> permissionRequiresDenied p (denied overrides)
        \<longrightarrow> p \<in> set (resolveEffectivePermissions overrides roleDefaults))"
  unfolding set_resolveEffectivePermissions permissionRequiresDenied_iff
  by (blast intro: requires_trans)

theorem deny_wins_witness:
  "''orders:view'' \<notin> set (resolveEffectivePermissions
       \<lparr>granted = [''documents:create''], denied = [''orders:view'']\<rparr> [''orders:create''])"
  using deny_wins [of "\<lparr>granted = [''documents:create''], denied = [''orders:view'']\<rparr>"
      "[''orders:create'']"] by auto

end
