(* ===== verification/Contract.thy ===== *)
theory Contract
  imports Core_Errors
begin

text \<open>
  The client-safe half of an action (\<open>packages/core/src/contract\<close>): the descriptor
  (\<open>types.ts\<close>), the tables of declarable error codes and confirmable risks, and the
  define-time validation \<open>defineActionContract\<close>, which collects every violated rule before it
  rejects. A problem is a constructor per \<open>problems.push\<close> of the code, with the strings the
  message interpolates.
\<close>

section \<open>The descriptor\<close>

datatype principal = Staff | Customer | Public | System | Consumer | Account | Share

datatype transport = Client | Internal

datatype ai_exposure = Exposed | NotExposed

datatype risk = RiskRead | RiskDraft | RiskWrite | RiskHigh

datatype public_scope = Target | GlobalProjection

datatype system_scope = Tenant | GlobalScope

datatype rate_limit_scope = PerUser | PerIpHmac | PerCompany | PerGlobal

record action_rate_limit =
  rl_limit :: js_number
  rl_windowSec :: js_number
  rl_scope :: rate_limit_scope

text \<open>
  What the code looks at in a Zod schema. A schema object is known by a key; what it accepts is
  a parameter of the definitions that parse (Zod is a package). \<open>NotZod\<close> is a value that is no
  schema at all.
\<close>

datatype zod_type =
    ZString
  | ZObject "(js_string \<times> zod_type) list"
  | ZNullable zod_type
  | ZOptional zod_type
  | ZOther
  | NotZod

record zod_schema =
  zs_key :: js_string
  zs_type :: zod_type

record action_contract =
  ac_name :: js_string
  ac_description :: js_string
  ac_principal :: principal
  ac_transport :: transport
  ac_input :: zod_schema
  ac_output :: zod_schema
  ac_permissions :: "js_string list"
  ac_publicScope :: "public_scope option"
  ac_projectionGrant :: "js_string option"
  ac_systemScope :: "system_scope option"
  ac_aiExposure :: ai_exposure
  ac_risk :: risk
  ac_requiresConfirmation :: bool
  ac_idempotent :: bool
  ac_emits :: "js_string list"
  ac_errors :: "js_string list"
  ac_atomicCalls :: "js_string list"
  ac_atomicCallers :: "js_string list"
  ac_audit :: bool
  ac_timeout :: js_number
  ac_rateLimit :: "action_rate_limit option"
  ac_consistencySnapshot :: bool
  ac_enqueues :: "js_string list option"
  ac_writtenRecordIdField :: "js_string option"

datatype channel = Ui | Ai | SystemChannel | Webhook | ShoAi

definition ACTION_CHANNELS :: "(js_string \<times> channel) list" where
  "ACTION_CHANNELS = [(''ui'', Ui), (''ai'', Ai), (''system'', SystemChannel),
     (''webhook'', Webhook), (''sho-ai'', ShoAi)]"

section \<open>Names\<close>

definition moduleOf :: "js_string \<Rightarrow> js_string" where
  "moduleOf qualifiedName = hd (split_on CHR ''.'' qualifiedName)"

text \<open>\<open>[a-z][a-zA-Z0-9]*\<close>, and two such segments around a separator.\<close>

definition camel_segment :: "js_string \<Rightarrow> bool" where
  "camel_segment s = (case s of [] \<Rightarrow> False | c # cs \<Rightarrow> is_lower c \<and> list_all is_alnum cs)"

definition camel_pair :: "char \<Rightarrow> js_string \<Rightarrow> bool" where
  "camel_pair sep s =
     (case split_on sep s of [m, v] \<Rightarrow> camel_segment m \<and> camel_segment v | _ \<Rightarrow> False)"

definition ACTION_NAME_PATTERN :: "js_string \<Rightarrow> bool" where
  "ACTION_NAME_PATTERN s = camel_pair CHR ''.'' s"

definition EVENT_NAME_PATTERN :: "js_string \<Rightarrow> bool" where
  "EVENT_NAME_PATTERN s = ACTION_NAME_PATTERN s"

definition PERMISSION_PATTERN :: "js_string \<Rightarrow> bool" where
  "PERMISSION_PATTERN s = camel_pair CHR '':'' s"

lemmas name_eval_simps =
  ACTION_NAME_PATTERN_def EVENT_NAME_PATTERN_def PERMISSION_PATTERN_def camel_pair_def
  camel_segment_def moduleOf_def is_alnum_def is_lower_def is_upper_def is_digit_def char_code_def

lemma moduleOf_takeWhile: "moduleOf s = takeWhile (\<lambda>c. c \<noteq> CHR ''.'') s"
  by (simp add: moduleOf_def hd_split_on)

lemma camel_segment_alnum: "camel_segment s \<Longrightarrow> c \<in> set s \<Longrightarrow> is_alnum c"
  by (auto simp: camel_segment_def is_alnum_def list_all_iff split: list.splits)

lemma dot_not_alnum [simp]: "\<not> is_alnum CHR ''.''" "\<not> is_alnum CHR '':''"
  by (simp_all add: is_alnum_def is_lower_def is_upper_def is_digit_def char_code_def)

lemma camel_pair_iff:
  assumes "\<not> is_alnum sep"
  shows "camel_pair sep s \<longleftrightarrow> (\<exists>m v. s = m @ sep # v \<and> camel_segment m \<and> camel_segment v)"
proof -
  have "camel_pair sep s \<longleftrightarrow> (\<exists>m v. split_on sep s = [m, v] \<and> camel_segment m \<and> camel_segment v)"
    by (auto simp: camel_pair_def split: list.splits)
  then show ?thesis
    using assms camel_segment_alnum by (metis split_on_two)
qed

lemma moduleOf_pair:
  assumes "camel_segment m"
  shows "moduleOf (m @ CHR ''.'' # v) = m"
proof -
  have "\<forall>c \<in> set m. c \<noteq> CHR ''.''"
    using camel_segment_alnum [OF assms] dot_not_alnum(1) by metis
  then show ?thesis unfolding moduleOf_takeWhile by (subst takeWhile_append2) auto
qed

lemma action_name_iff:
  "ACTION_NAME_PATTERN s \<longleftrightarrow>
     (\<exists>v. s = moduleOf s @ CHR ''.'' # v \<and> camel_segment (moduleOf s) \<and> camel_segment v)"
  using moduleOf_pair by (auto simp: ACTION_NAME_PATTERN_def camel_pair_iff)

section \<open>Tables\<close>

definition DECLARED_ERROR_CODES :: "js_string list" where
  "DECLARED_ERROR_CODES = [''VALIDATION'', ''NOT_FOUND'', ''CONFLICT'']"

definition isDeclaredErrorCode :: "js_string \<Rightarrow> bool" where
  "isDeclaredErrorCode code = (code \<in> set DECLARED_ERROR_CODES)"

datatype undeclarable_reason = BugSignal | PipelineLevel

definition UNDECLARABLE_ERROR_REASONS :: "(js_string \<times> undeclarable_reason) list" where
  "UNDECLARABLE_ERROR_REASONS = [
     (''INTERNAL'', BugSignal),
     (''PERMISSION_DENIED'', PipelineLevel),
     (''IDEMPOTENCY_CONFLICT'', PipelineLevel),
     (''RETRY_IN_PROGRESS'', PipelineLevel),
     (''CONFIRMATION_REQUIRED'', PipelineLevel),
     (''RATE_LIMITED'', PipelineLevel),
     (''TIMEOUT'', PipelineLevel)]"

definition undeclarableErrorReason :: "js_string \<Rightarrow> undeclarable_reason option" where
  "undeclarableErrorReason code = map_of UNDECLARABLE_ERROR_REASONS code"

text \<open>The wire spelling of the codes of \<^typ>\<open>core_error_code\<close>.\<close>

fun wire_code :: "core_error_code \<Rightarrow> js_string" where
  "wire_code VALIDATION = ''VALIDATION''"
| "wire_code PERMISSION_DENIED = ''PERMISSION_DENIED''"
| "wire_code NOT_FOUND = ''NOT_FOUND''"
| "wire_code CONFLICT = ''CONFLICT''"
| "wire_code IDEMPOTENCY_CONFLICT = ''IDEMPOTENCY_CONFLICT''"
| "wire_code RETRY_IN_PROGRESS = ''RETRY_IN_PROGRESS''"
| "wire_code CONFIRMATION_REQUIRED = ''CONFIRMATION_REQUIRED''"
| "wire_code RATE_LIMITED = ''RATE_LIMITED''"
| "wire_code TIMEOUT = ''TIMEOUT''"
| "wire_code INTERNAL = ''INTERNAL''"

text \<open>The two tables split the wire codes: a code is declarable or has a reason why not.\<close>

lemma wire_code_split:
  "isDeclaredErrorCode (wire_code c) \<longleftrightarrow> undeclarableErrorReason (wire_code c) = None"
  by (cases c) (simp_all add: isDeclaredErrorCode_def DECLARED_ERROR_CODES_def
      undeclarableErrorReason_def UNDECLARABLE_ERROR_REASONS_def)

definition HUMAN_PRINCIPALS :: "principal list" where
  "HUMAN_PRINCIPALS = [Staff, Customer, Account]"

definition CONFIRMABLE_RISKS :: "risk list" where
  "CONFIRMABLE_RISKS = [RiskWrite, RiskHigh]"

definition isConfirmableRisk :: "risk \<Rightarrow> bool" where
  "isConfirmableRisk r = (r \<in> set CONFIRMABLE_RISKS)"

definition isHumanPrincipal :: "principal \<Rightarrow> bool" where
  "isHumanPrincipal p = (p \<in> set HUMAN_PRINCIPALS)"

lemma isHumanPrincipal_iff: "isHumanPrincipal p \<longleftrightarrow> p = Staff \<or> p = Customer \<or> p = Account"
  by (simp add: isHumanPrincipal_def HUMAN_PRINCIPALS_def)

lemma isConfirmableRisk_iff: "isConfirmableRisk r \<longleftrightarrow> r = RiskWrite \<or> r = RiskHigh"
  by (simp add: isConfirmableRisk_def CONFIRMABLE_RISKS_def)

datatype precondition_problem =
    RiskNotAllowed "risk list" risk
  | NotHumanPrincipal
  | NotIdempotent

definition confirmationPreconditionProblems ::
  "principal \<Rightarrow> bool \<Rightarrow> risk \<Rightarrow> risk list option \<Rightarrow> precondition_problem list" where
  "confirmationPreconditionProblems p idempotent r allowedRisks =
     (case allowedRisks of
        None \<Rightarrow> []
      | Some allowed \<Rightarrow> push_if (r \<notin> set allowed) (RiskNotAllowed allowed r))
     @ push_if (\<not> isHumanPrincipal p) NotHumanPrincipal
     @ push_if (\<not> idempotent) NotIdempotent"

lemma confirmationPrecondition_ok_iff:
  "confirmationPreconditionProblems p i r allowed = [] \<longleftrightarrow>
     (\<forall>rs. allowed = Some rs \<longrightarrow> r \<in> set rs) \<and> isHumanPrincipal p \<and> i"
  by (auto simp: confirmationPreconditionProblems_def split: option.splits)

definition deriveAiToolSources :: "action_contract list \<Rightarrow> action_contract list" where
  "deriveAiToolSources contracts =
     filter (\<lambda>c. ac_transport c = Client \<and> ac_aiExposure c = Exposed) contracts"

definition aiToolSourcesForPrincipal ::
  "action_contract list \<Rightarrow> principal \<Rightarrow> action_contract list" where
  "aiToolSourcesForPrincipal contracts p =
     filter (\<lambda>c. ac_principal c = p) (deriveAiToolSources contracts)"

end
