(* ===== verification/Define_Contract.thy ===== *)
theory Define_Contract
  imports Contract
begin

text \<open>
  \<open>defineActionContract\<close> (\<open>contract/define-action-contract.ts\<close>): the rules that one descriptor
  can be checked against alone. The validators run in the order of \<open>collectDefinitionProblems\<close>
  and each keeps the order of its pushes.
\<close>

section \<open>Problems\<close>

datatype shape_problem =
    BadName js_string
  | EmptyDescription
  | InputNotZod
  | OutputNotZod
  | ExposedNotClient
  | SnapshotNotRead
  | WriteNotAudited
  | BadTimeout
  | BadRateLimit
  | BadRateWindow

datatype permission_problem =
    BadPermission js_string
  | DuplicatePermissions
  | StaffWithoutPermission
  | PermissionsForbidden principal

datatype transport_problem = SystemNotInternal | MustBeClient principal

datatype scope_problem =
    PublicScopeMissing
  | PublicScopeForbidden
  | ProjectionGrantMissing
  | ProjectionGrantForbidden
  | SystemScopeMissing
  | SystemScopeForbidden

datatype read_only_problem = NotRead | Audited | Idempotent | Confirmed | Emits

datatype share_problem = ShareExposed | ShareConfirmed | ShareRisk | ShareWriteNotIdempotent

datatype confirmation_problem =
    Precondition precondition_problem
  | ConfirmationNotHigh
  | HighNotConfirmed

datatype emit_problem =
    BadEventName js_string
  | ForeignEvent js_string js_string
  | DuplicateEmits

datatype enqueue_problem =
    BadJobName js_string
  | ForeignJob js_string js_string
  | DuplicateEnqueues
  | EnqueuesFromRead

datatype record_field_problem =
    FieldOnRead
  | OutputNotObject
  | FieldNotInOutput js_string
  | FieldNotString js_string

datatype error_code_problem =
    DuplicateErrors
  | UndeclarableCode js_string undeclarable_reason
  | UnknownCode js_string

datatype edge_field = AtomicCalls | AtomicCallers

datatype atomic_problem =
    BadEdgeName edge_field js_string
  | SelfEdge edge_field
  | DuplicateEdges edge_field
  | RootAndCallee
  | RootNotWritable
  | RootNotIdempotent
  | CalleeNotInternal
  | CalleeNotWrite
  | CalleeConfirmed

datatype contract_problem =
    P_Shape shape_problem
  | P_Permission permission_problem
  | P_Transport transport_problem
  | P_Scope scope_problem
  | P_ReadOnly principal read_only_problem
  | P_Share share_problem
  | P_Confirmation confirmation_problem
  | P_Emit emit_problem
  | P_Enqueue enqueue_problem
  | P_RecordField record_field_problem
  | P_Error error_code_problem
  | P_Atomic atomic_problem

section \<open>Validators\<close>

definition hasDuplicates :: "js_string list \<Rightarrow> bool" where
  "hasDuplicates values = has_duplicates values"

definition READ_ONLY_PRINCIPALS :: "principal list" where
  "READ_ONLY_PRINCIPALS = [Public, Consumer]"

definition validatePermissions :: "action_contract \<Rightarrow> permission_problem list" where
  "validatePermissions c =
     concat (map (\<lambda>p. push_if (\<not> PERMISSION_PATTERN p) (BadPermission p)) (ac_permissions c))
     @ push_if (hasDuplicates (ac_permissions c)) DuplicatePermissions
     @ (if ac_principal c = Staff then
          push_if (length (ac_permissions c) = 0) StaffWithoutPermission
        else push_if (length (ac_permissions c) > 0) (PermissionsForbidden (ac_principal c)))"

definition validateTransport :: "action_contract \<Rightarrow> transport_problem list" where
  "validateTransport c =
     push_if (ac_principal c = System \<and> ac_transport c \<noteq> Internal) SystemNotInternal
     @ push_if ((ac_principal c = Public \<or> ac_principal c = Consumer \<or> ac_principal c = Account
           \<or> ac_principal c = Share) \<and> ac_transport c \<noteq> Client) (MustBeClient (ac_principal c))"

definition validateConditionalScopes :: "action_contract \<Rightarrow> scope_problem list" where
  "validateConditionalScopes c =
     (if ac_principal c = Public then push_if (ac_publicScope c = None) PublicScopeMissing
      else push_if (ac_publicScope c \<noteq> None) PublicScopeForbidden)
     @ (if ac_publicScope c = Some GlobalProjection then
          push_if (case ac_projectionGrant c of None \<Rightarrow> True | Some g \<Rightarrow> js_trim g = [])
            ProjectionGrantMissing
        else push_if (ac_projectionGrant c \<noteq> None) ProjectionGrantForbidden)
     @ (if ac_principal c = System then push_if (ac_systemScope c = None) SystemScopeMissing
        else push_if (ac_systemScope c \<noteq> None) SystemScopeForbidden)"

definition validateReadOnlySubset :: "action_contract \<Rightarrow> read_only_problem list" where
  "validateReadOnlySubset c =
     push_if (ac_risk c \<noteq> RiskRead) NotRead
     @ push_if (ac_audit c) Audited
     @ push_if (ac_idempotent c) Idempotent
     @ push_if (ac_requiresConfirmation c) Confirmed
     @ push_if (length (ac_emits c) > 0) Emits"

definition validateShareSubset :: "action_contract \<Rightarrow> share_problem list" where
  "validateShareSubset c =
     push_if (ac_aiExposure c \<noteq> NotExposed) ShareExposed
     @ push_if (ac_requiresConfirmation c) ShareConfirmed
     @ push_if (ac_risk c \<noteq> RiskRead \<and> ac_risk c \<noteq> RiskWrite) ShareRisk
     @ push_if (ac_risk c = RiskWrite \<and> \<not> ac_idempotent c) ShareWriteNotIdempotent"

definition validateConfirmation :: "action_contract \<Rightarrow> confirmation_problem list" where
  "validateConfirmation c =
     (if ac_requiresConfirmation c then
        map Precondition
          (confirmationPreconditionProblems (ac_principal c) (ac_idempotent c) (ac_risk c) None)
        @ push_if (ac_risk c \<noteq> RiskHigh) ConfirmationNotHigh
      else push_if (ac_risk c = RiskHigh \<and> isHumanPrincipal (ac_principal c)) HighNotConfirmed)"

definition validateEmits :: "action_contract \<Rightarrow> emit_problem list" where
  "validateEmits c =
     (let m = moduleOf (ac_name c) in
      concat (map (\<lambda>event.
          if \<not> EVENT_NAME_PATTERN event then [BadEventName event]
          else if moduleOf event \<noteq> m then [ForeignEvent event m]
          else []) (ac_emits c))
      @ push_if (hasDuplicates (ac_emits c)) DuplicateEmits)"

definition validateEnqueues :: "action_contract \<Rightarrow> enqueue_problem list" where
  "validateEnqueues c =
     (case ac_enqueues c of
        None \<Rightarrow> []
      | Some enqueues \<Rightarrow>
          (let m = moduleOf (ac_name c) in
           concat (map (\<lambda>job.
               if \<not> ACTION_NAME_PATTERN job then [BadJobName job]
               else if moduleOf job \<noteq> m then [ForeignJob job m]
               else []) enqueues)
           @ push_if (hasDuplicates enqueues) DuplicateEnqueues
           @ push_if (ac_risk c = RiskRead) EnqueuesFromRead))"

fun objectOutput :: "zod_type \<Rightarrow> (js_string \<times> zod_type) list option" where
  "objectOutput (ZObject shape) = Some shape"
| "objectOutput (ZNullable t) = objectOutput t"
| "objectOutput (ZOptional t) = objectOutput t"
| "objectOutput ZString = None"
| "objectOutput ZOther = None"
| "objectOutput NotZod = None"

fun isStringField :: "zod_type \<Rightarrow> bool" where
  "isStringField (ZNullable t) = isStringField t"
| "isStringField (ZOptional t) = isStringField t"
| "isStringField ZString = True"
| "isStringField (ZObject _) = False"
| "isStringField ZOther = False"
| "isStringField NotZod = False"

definition validateWrittenRecordIdField :: "action_contract \<Rightarrow> record_field_problem list" where
  "validateWrittenRecordIdField c =
     (case ac_writtenRecordIdField c of
        None \<Rightarrow> []
      | Some field \<Rightarrow>
          push_if (ac_risk c = RiskRead) FieldOnRead
          @ (case objectOutput (zs_type (ac_output c)) of
               None \<Rightarrow> [OutputNotObject]
             | Some shape \<Rightarrow>
                 (case map_of shape field of
                    None \<Rightarrow> [FieldNotInOutput field]
                  | Some t \<Rightarrow> push_if (\<not> isStringField t) (FieldNotString field))))"

definition validateErrors :: "action_contract \<Rightarrow> error_code_problem list" where
  "validateErrors c =
     push_if (hasDuplicates (ac_errors c)) DuplicateErrors
     @ concat (map (\<lambda>code.
         case undeclarableErrorReason code of
           Some reason \<Rightarrow> [UndeclarableCode code reason]
         | None \<Rightarrow> push_if (\<not> isDeclaredErrorCode code) (UnknownCode code)) (ac_errors c))"

definition validateEdgeField ::
  "js_string \<Rightarrow> edge_field \<times> js_string list \<Rightarrow> atomic_problem list" where
  "validateEdgeField self = (\<lambda>(field, entries).
     concat (map (\<lambda>target.
         if \<not> ACTION_NAME_PATTERN target then [BadEdgeName field target]
         else if target = self then [SelfEdge field]
         else []) entries)
     @ push_if (hasDuplicates entries) (DuplicateEdges field))"

definition validateAtomicEdges :: "action_contract \<Rightarrow> atomic_problem list" where
  "validateAtomicEdges c =
     (let isRoot = length (ac_atomicCalls c) > 0; isCallee = length (ac_atomicCallers c) > 0 in
      concat (map (validateEdgeField (ac_name c))
        [(AtomicCalls, ac_atomicCalls c), (AtomicCallers, ac_atomicCallers c)])
      @ push_if (isRoot \<and> isCallee) RootAndCallee
      @ (if isRoot then
           push_if (ac_risk c = RiskRead) RootNotWritable
           @ push_if (\<not> ac_idempotent c) RootNotIdempotent
         else [])
      @ (if isCallee then
           push_if (ac_transport c \<noteq> Internal) CalleeNotInternal
           @ push_if (ac_risk c \<noteq> RiskWrite) CalleeNotWrite
           @ push_if (ac_requiresConfirmation c) CalleeConfirmed
         else []))"

definition collectDefinitionProblems :: "action_contract \<Rightarrow> contract_problem list" where
  "collectDefinitionProblems c =
     push_if (\<not> ACTION_NAME_PATTERN (ac_name c)) (P_Shape (BadName (ac_name c)))
     @ push_if (js_trim (ac_description c) = []) (P_Shape EmptyDescription)
     @ push_if (zs_type (ac_input c) = NotZod) (P_Shape InputNotZod)
     @ push_if (zs_type (ac_output c) = NotZod) (P_Shape OutputNotZod)
     @ map P_Permission (validatePermissions c)
     @ map P_Transport (validateTransport c)
     @ map P_Scope (validateConditionalScopes c)
     @ push_if (ac_aiExposure c = Exposed \<and> ac_transport c \<noteq> Client) (P_Shape ExposedNotClient)
     @ (if ac_principal c \<in> set READ_ONLY_PRINCIPALS then
          map (P_ReadOnly (ac_principal c)) (validateReadOnlySubset c) else [])
     @ (if ac_principal c = Share then map P_Share (validateShareSubset c) else [])
     @ map P_Confirmation (validateConfirmation c)
     @ push_if (ac_consistencySnapshot c \<and> ac_risk c \<noteq> RiskRead) (P_Shape SnapshotNotRead)
     @ push_if ((ac_risk c = RiskWrite \<or> ac_risk c = RiskHigh) \<and> \<not> ac_audit c)
         (P_Shape WriteNotAudited)
     @ map P_Emit (validateEmits c)
     @ map P_Enqueue (validateEnqueues c)
     @ map P_RecordField (validateWrittenRecordIdField c)
     @ map P_Error (validateErrors c)
     @ map P_Atomic (validateAtomicEdges c)
     @ push_if (\<not> positive_integer (ac_timeout c)) (P_Shape BadTimeout)
     @ (case ac_rateLimit c of
          None \<Rightarrow> []
        | Some rl \<Rightarrow>
            push_if (\<not> positive_integer (rl_limit rl)) (P_Shape BadRateLimit)
            @ push_if (\<not> positive_integer (rl_windowSec rl)) (P_Shape BadRateWindow))"

definition defineActionContract ::
  "action_contract \<Rightarrow> contract_problem list + action_contract" where
  "defineActionContract definition' =
     (let problems = collectDefinitionProblems definition' in
      if length problems > 0 then Inl problems else Inr definition')"

section \<open>What the validation accepts\<close>

lemma concat_map_two_Nil:
  "concat (map (\<lambda>x. if P x then [a x] else if Q x then [b x] else []) xs) = [] \<longleftrightarrow>
     (\<forall>x \<in> set xs. \<not> P x \<and> \<not> Q x)"
  by (induction xs) auto

lemma validatePermissions_ok:
  "validatePermissions c = [] \<longleftrightarrow> list_all PERMISSION_PATTERN (ac_permissions c)
     \<and> distinct (ac_permissions c) \<and> (ac_principal c = Staff \<longleftrightarrow> ac_permissions c \<noteq> [])"
  by (auto simp: validatePermissions_def hasDuplicates_def has_duplicates_iff list_all_iff)

lemma validateTransport_ok:
  "validateTransport c = [] \<longleftrightarrow>
     (case ac_principal c of Staff \<Rightarrow> True | Customer \<Rightarrow> True | System \<Rightarrow> ac_transport c = Internal
        | _ \<Rightarrow> ac_transport c = Client)"
  by (cases "ac_principal c") (auto simp: validateTransport_def)

lemma validateConditionalScopes_ok:
  "validateConditionalScopes c = [] \<longleftrightarrow>
     (ac_principal c = Public \<longleftrightarrow> ac_publicScope c \<noteq> None)
     \<and> (ac_principal c = System \<longleftrightarrow> ac_systemScope c \<noteq> None)
     \<and> (case ac_projectionGrant c of
           None \<Rightarrow> ac_publicScope c \<noteq> Some GlobalProjection
         | Some g \<Rightarrow> ac_publicScope c = Some GlobalProjection \<and> js_trim g \<noteq> [])"
  by (auto simp: validateConditionalScopes_def split: option.splits)

lemma validateReadOnlySubset_ok:
  "validateReadOnlySubset c = [] \<longleftrightarrow> ac_risk c = RiskRead \<and> \<not> ac_audit c \<and> \<not> ac_idempotent c
     \<and> \<not> ac_requiresConfirmation c \<and> ac_emits c = []"
  by (simp add: validateReadOnlySubset_def)

lemma validateShareSubset_ok:
  "validateShareSubset c = [] \<longleftrightarrow> ac_aiExposure c = NotExposed \<and> \<not> ac_requiresConfirmation c
     \<and> (ac_risk c = RiskRead \<or> ac_risk c = RiskWrite \<and> ac_idempotent c)"
  by (auto simp: validateShareSubset_def)

lemma validateConfirmation_ok:
  "validateConfirmation c = [] \<longleftrightarrow>
     (if ac_requiresConfirmation c
      then isHumanPrincipal (ac_principal c) \<and> ac_idempotent c \<and> ac_risk c = RiskHigh
      else \<not> (ac_risk c = RiskHigh \<and> isHumanPrincipal (ac_principal c)))"
  by (auto simp: validateConfirmation_def confirmationPrecondition_ok_iff)

definition own_names :: "js_string \<Rightarrow> js_string list \<Rightarrow> bool" where
  "own_names m names \<longleftrightarrow> distinct names \<and>
     (\<forall>n \<in> set names. \<exists>v. n = m @ CHR ''.'' # v \<and> camel_segment m \<and> camel_segment v)"

lemma own_name_iff:
  "(ACTION_NAME_PATTERN n \<and> moduleOf n = m) \<longleftrightarrow>
     (\<exists>v. n = m @ CHR ''.'' # v \<and> camel_segment m \<and> camel_segment v)"
  using action_name_iff [of n] moduleOf_pair [of m] by auto

lemma own_names_iff:
  "own_names m ns \<longleftrightarrow>
     distinct ns \<and> (\<forall>n \<in> set ns. ACTION_NAME_PATTERN n \<and> moduleOf n = m)"
  by (simp only: own_names_def own_name_iff)

lemma validateEmits_ok:
  "validateEmits c = [] \<longleftrightarrow> own_names (moduleOf (ac_name c)) (ac_emits c)"
  unfolding validateEmits_def Let_def append_is_Nil_conv concat_map_two_Nil own_names_iff
  by (auto simp: EVENT_NAME_PATTERN_def hasDuplicates_def has_duplicates_iff)

lemma validateEnqueues_ok:
  "validateEnqueues c = [] \<longleftrightarrow>
     (\<forall>jobs. ac_enqueues c = Some jobs \<longrightarrow>
        own_names (moduleOf (ac_name c)) jobs \<and> ac_risk c \<noteq> RiskRead)"
  unfolding validateEnqueues_def Let_def own_names_iff
  by (cases "ac_enqueues c")
    (auto simp: hasDuplicates_def has_duplicates_iff concat_map_two_Nil simp del: concat_eq_Nil_conv)

definition names_string_field :: "zod_type \<Rightarrow> js_string \<Rightarrow> bool" where
  "names_string_field t field \<longleftrightarrow>
     (\<exists>shape ft. objectOutput t = Some shape \<and> map_of shape field = Some ft \<and> isStringField ft)"

lemma validateWrittenRecordIdField_ok:
  "validateWrittenRecordIdField c = [] \<longleftrightarrow>
     (\<forall>field. ac_writtenRecordIdField c = Some field \<longrightarrow>
        ac_risk c \<noteq> RiskRead \<and> names_string_field (zs_type (ac_output c)) field)"
  by (auto simp: validateWrittenRecordIdField_def names_string_field_def split: option.splits)

lemma validateErrors_ok:
  "validateErrors c = [] \<longleftrightarrow>
     distinct (ac_errors c) \<and> set (ac_errors c) \<subseteq> {''VALIDATION'', ''NOT_FOUND'', ''CONFLICT''}"
proof -
  have "(case undeclarableErrorReason code of
          Some reason \<Rightarrow> [UndeclarableCode code reason]
        | None \<Rightarrow> push_if (\<not> isDeclaredErrorCode code) (UnknownCode code)) = []
      \<longleftrightarrow> code \<in> {''VALIDATION'', ''NOT_FOUND'', ''CONFLICT''}" for code
    by (auto simp: undeclarableErrorReason_def UNDECLARABLE_ERROR_REASONS_def
        isDeclaredErrorCode_def DECLARED_ERROR_CODES_def split: option.splits if_splits)
  then show ?thesis
    unfolding validateErrors_def append_is_Nil_conv concat_map_Nil_iff
    by (simp add: hasDuplicates_def has_duplicates_iff subset_iff Ball_def)
qed

lemma validateEdgeField_ok:
  "validateEdgeField self (field, es) = [] \<longleftrightarrow>
     distinct es \<and> self \<notin> set es \<and> list_all ACTION_NAME_PATTERN es"
  unfolding validateEdgeField_def prod.case append_is_Nil_conv concat_map_two_Nil
  by (auto simp: hasDuplicates_def has_duplicates_iff list_all_iff)

lemma validateAtomicEdges_ok:
  "validateAtomicEdges c = [] \<longleftrightarrow>
     validateEdgeField (ac_name c) (AtomicCalls, ac_atomicCalls c) = []
     \<and> validateEdgeField (ac_name c) (AtomicCallers, ac_atomicCallers c) = []
     \<and> (ac_atomicCalls c = [] \<or> ac_atomicCallers c = [])
     \<and> (ac_atomicCalls c \<noteq> [] \<longrightarrow> ac_risk c \<noteq> RiskRead \<and> ac_idempotent c)
     \<and> (ac_atomicCallers c \<noteq> [] \<longrightarrow> ac_transport c = Internal \<and> ac_risk c = RiskWrite
           \<and> \<not> ac_requiresConfirmation c)"
  by (auto simp: validateAtomicEdges_def Let_def)

lemmas validators_ok =
  validatePermissions_ok validateTransport_ok validateConditionalScopes_ok
  validateReadOnlySubset_ok validateShareSubset_ok validateConfirmation_ok validateEmits_ok
  validateEnqueues_ok validateWrittenRecordIdField_ok validateErrors_ok validateEdgeField_ok
  validateAtomicEdges_ok

section \<open>The rule matrix\<close>

text \<open>
  The rules by principal mode. Three properties cross the validators: an action needs a
  confirmation exactly when a human runs a high-risk action, everything that writes is audited,
  and the atomic edges make an action a root or a callee but never both.
\<close>

fun mode_rules :: "principal \<Rightarrow> action_contract \<Rightarrow> bool" where
  "mode_rules Staff c = (ac_permissions c \<noteq> [])"
| "mode_rules Customer c = (ac_permissions c = [])"
| "mode_rules Public c = (ac_permissions c = [] \<and> ac_transport c = Client \<and> ac_risk c = RiskRead
     \<and> \<not> ac_audit c \<and> \<not> ac_idempotent c \<and> ac_emits c = [])"
| "mode_rules System c = (ac_permissions c = [] \<and> ac_transport c = Internal)"
| "mode_rules Consumer c = (ac_permissions c = [] \<and> ac_transport c = Client \<and> ac_risk c = RiskRead
     \<and> \<not> ac_audit c \<and> \<not> ac_idempotent c \<and> ac_emits c = [])"
| "mode_rules Account c = (ac_permissions c = [] \<and> ac_transport c = Client)"
| "mode_rules Share c = (ac_permissions c = [] \<and> ac_transport c = Client
     \<and> ac_aiExposure c = NotExposed
     \<and> (ac_risk c = RiskRead \<or> ac_risk c = RiskWrite \<and> ac_idempotent c))"

definition scope_rules :: "action_contract \<Rightarrow> bool" where
  "scope_rules c \<longleftrightarrow>
     (ac_principal c = Public \<longleftrightarrow> ac_publicScope c \<noteq> None)
     \<and> (ac_principal c = System \<longleftrightarrow> ac_systemScope c \<noteq> None)
     \<and> (ac_publicScope c = Some GlobalProjection \<longleftrightarrow> ac_projectionGrant c \<noteq> None)
     \<and> (\<forall>g. ac_projectionGrant c = Some g \<longrightarrow> js_trim g \<noteq> [])"

definition text_rules :: "action_contract \<Rightarrow> bool" where
  "text_rules c \<longleftrightarrow>
     ACTION_NAME_PATTERN (ac_name c) \<and> js_trim (ac_description c) \<noteq> []
     \<and> zs_type (ac_input c) \<noteq> NotZod \<and> zs_type (ac_output c) \<noteq> NotZod
     \<and> distinct (ac_permissions c) \<and> list_all PERMISSION_PATTERN (ac_permissions c)
     \<and> distinct (ac_errors c) \<and> set (ac_errors c) \<subseteq> {''VALIDATION'', ''NOT_FOUND'', ''CONFLICT''}
     \<and> own_names (moduleOf (ac_name c)) (ac_emits c)
     \<and> positive_integer (ac_timeout c)
     \<and> (\<forall>rl. ac_rateLimit c = Some rl \<longrightarrow>
           positive_integer (rl_limit rl) \<and> positive_integer (rl_windowSec rl))"

definition write_rules :: "action_contract \<Rightarrow> bool" where
  "write_rules c \<longleftrightarrow>
     (ac_requiresConfirmation c \<longleftrightarrow> ac_risk c = RiskHigh \<and> isHumanPrincipal (ac_principal c))
     \<and> (ac_requiresConfirmation c \<longrightarrow> ac_idempotent c)
     \<and> (isConfirmableRisk (ac_risk c) \<longrightarrow> ac_audit c)
     \<and> (ac_aiExposure c = Exposed \<longrightarrow> ac_transport c = Client)
     \<and> (ac_risk c = RiskRead \<longrightarrow> ac_enqueues c = None \<and> ac_writtenRecordIdField c = None)
     \<and> (ac_consistencySnapshot c \<longrightarrow> ac_risk c = RiskRead)
     \<and> (\<forall>jobs. ac_enqueues c = Some jobs \<longrightarrow> own_names (moduleOf (ac_name c)) jobs)
     \<and> (\<forall>field. ac_writtenRecordIdField c = Some field \<longrightarrow>
           names_string_field (zs_type (ac_output c)) field)"

definition edge_rules :: "action_contract \<Rightarrow> bool" where
  "edge_rules c \<longleftrightarrow>
     (\<forall>es \<in> {ac_atomicCalls c, ac_atomicCallers c}.
        distinct es \<and> ac_name c \<notin> set es \<and> list_all ACTION_NAME_PATTERN es)
     \<and> (ac_atomicCalls c = [] \<or> ac_atomicCallers c = [])
     \<and> (ac_atomicCalls c \<noteq> [] \<longrightarrow> ac_risk c \<noteq> RiskRead \<and> ac_idempotent c)
     \<and> (ac_atomicCallers c \<noteq> [] \<longrightarrow> ac_transport c = Internal \<and> ac_risk c = RiskWrite)"

definition well_formed_contract :: "action_contract \<Rightarrow> bool" where
  "well_formed_contract c \<longleftrightarrow> text_rules c \<and> mode_rules (ac_principal c) c \<and> scope_rules c
     \<and> write_rules c \<and> edge_rules c"

lemmas contract_rule_defs = well_formed_contract_def text_rules_def scope_rules_def write_rules_def
  edge_rules_def

lemma collectDefinitionProblems_Nil:
  "collectDefinitionProblems c = [] \<longleftrightarrow>
     ACTION_NAME_PATTERN (ac_name c) \<and> js_trim (ac_description c) \<noteq> []
     \<and> zs_type (ac_input c) \<noteq> NotZod \<and> zs_type (ac_output c) \<noteq> NotZod
     \<and> validatePermissions c = [] \<and> validateTransport c = [] \<and> validateConditionalScopes c = []
     \<and> (ac_aiExposure c = Exposed \<longrightarrow> ac_transport c = Client)
     \<and> (ac_principal c = Public \<or> ac_principal c = Consumer \<longrightarrow> validateReadOnlySubset c = [])
     \<and> (ac_principal c = Share \<longrightarrow> validateShareSubset c = [])
     \<and> validateConfirmation c = [] \<and> (ac_consistencySnapshot c \<longrightarrow> ac_risk c = RiskRead)
     \<and> (isConfirmableRisk (ac_risk c) \<longrightarrow> ac_audit c)
     \<and> validateEmits c = [] \<and> validateEnqueues c = [] \<and> validateWrittenRecordIdField c = []
     \<and> validateErrors c = [] \<and> validateAtomicEdges c = [] \<and> positive_integer (ac_timeout c)
     \<and> (\<forall>rl. ac_rateLimit c = Some rl \<longrightarrow>
           positive_integer (rl_limit rl) \<and> positive_integer (rl_windowSec rl))"
  by (auto simp: collectDefinitionProblems_def READ_ONLY_PRINCIPALS_def isConfirmableRisk_iff
      split: option.split)

lemma defineActionContract_iff:
  "defineActionContract c = Inr c' \<longleftrightarrow> c' = c \<and> collectDefinitionProblems c = []"
  by (auto simp: defineActionContract_def Let_def)

lemma collect_text_rules:
  assumes "collectDefinitionProblems c = []"
  shows "text_rules c"
proof -
  have "validatePermissions c = []" "validateErrors c = []" "validateEmits c = []"
    using assms by (simp_all add: collectDefinitionProblems_Nil)
  then show ?thesis
    using assms unfolding text_rules_def
    by (simp add: collectDefinitionProblems_Nil validatePermissions_ok validateErrors_ok
        validateEmits_ok)
qed

lemma collect_mode_rules:
  "collectDefinitionProblems c = [] \<Longrightarrow> mode_rules (ac_principal c) c"
  unfolding collectDefinitionProblems_Nil validatePermissions_ok validateTransport_ok
    validateReadOnlySubset_ok validateShareSubset_ok
  by (cases "ac_principal c") simp_all

lemma collect_scope_rules:
  "collectDefinitionProblems c = [] \<Longrightarrow> scope_rules c"
  unfolding collectDefinitionProblems_Nil validateConditionalScopes_ok scope_rules_def
  by (cases "ac_projectionGrant c") simp_all

lemma collect_write_rules:
  assumes "collectDefinitionProblems c = []"
  shows "write_rules c"
proof -
  have "validateConfirmation c = []" "validateEnqueues c = []"
    "validateWrittenRecordIdField c = []" "ac_aiExposure c = Exposed \<longrightarrow> ac_transport c = Client"
    "ac_consistencySnapshot c \<longrightarrow> ac_risk c = RiskRead"
    "isConfirmableRisk (ac_risk c) \<longrightarrow> ac_audit c"
    using assms by (simp_all add: collectDefinitionProblems_Nil)
  then show ?thesis
    unfolding validateConfirmation_ok validateEnqueues_ok validateWrittenRecordIdField_ok
      write_rules_def
    by (cases "ac_enqueues c"; cases "ac_writtenRecordIdField c") (simp_all split: if_splits)
qed

lemma collect_edge_rules:
  "collectDefinitionProblems c = [] \<Longrightarrow> edge_rules c"
  unfolding collectDefinitionProblems_Nil validateAtomicEdges_ok validateEdgeField_ok edge_rules_def
  by simp

lemma collect_imp_well_formed:
  "collectDefinitionProblems c = [] \<Longrightarrow> well_formed_contract c"
  by (simp add: well_formed_contract_def collect_text_rules collect_mode_rules
      collect_scope_rules collect_write_rules collect_edge_rules)

lemma mode_rules_imp_validators:
  assumes "mode_rules (ac_principal c) c" "text_rules c" "write_rules c"
  shows "validatePermissions c = []" and "validateTransport c = []"
    and "ac_principal c = Public \<or> ac_principal c = Consumer \<longrightarrow> validateReadOnlySubset c = []"
    and "ac_principal c = Share \<longrightarrow> validateShareSubset c = []"
proof -
  have confirm: "ac_requiresConfirmation c \<longleftrightarrow> ac_risk c = RiskHigh \<and> isHumanPrincipal (ac_principal c)"
    using assms(3) by (simp add: write_rules_def)
  show "validatePermissions c = []" using assms(1,2)
    unfolding validatePermissions_ok text_rules_def by (cases "ac_principal c") simp_all
  show "validateTransport c = []" using assms(1)
    unfolding validateTransport_ok by (cases "ac_principal c") simp_all
  show "ac_principal c = Public \<or> ac_principal c = Consumer \<longrightarrow> validateReadOnlySubset c = []"
    using assms(1) confirm unfolding validateReadOnlySubset_ok by (cases "ac_principal c") simp_all
  show "ac_principal c = Share \<longrightarrow> validateShareSubset c = []"
    using assms(1) confirm unfolding validateShareSubset_ok
    by (cases "ac_principal c") (auto simp: isHumanPrincipal_iff)
qed

lemma write_rules_imp_validators:
  assumes "write_rules c"
  shows "validateConfirmation c = []" and "validateEnqueues c = []"
    and "validateWrittenRecordIdField c = []"
proof -
  show "validateConfirmation c = []"
    using assms unfolding validateConfirmation_ok write_rules_def by (simp split: if_split)
  show "validateEnqueues c = []"
    using assms unfolding validateEnqueues_ok write_rules_def by (cases "ac_enqueues c") simp_all
  show "validateWrittenRecordIdField c = []"
    using assms unfolding validateWrittenRecordIdField_ok write_rules_def
    by (cases "ac_writtenRecordIdField c") simp_all
qed

lemma well_formed_imp_collect:
  assumes "well_formed_contract c"
  shows "collectDefinitionProblems c = []"
proof -
  have r: "text_rules c" "mode_rules (ac_principal c) c" "scope_rules c" "write_rules c"
    "edge_rules c"
    using assms by (simp_all add: well_formed_contract_def)
  have t: "ACTION_NAME_PATTERN (ac_name c)" "js_trim (ac_description c) \<noteq> []"
    "zs_type (ac_input c) \<noteq> NotZod" "zs_type (ac_output c) \<noteq> NotZod" "validateEmits c = []"
    "validateErrors c = []" "positive_integer (ac_timeout c)"
    "\<forall>rl. ac_rateLimit c = Some rl \<longrightarrow>
       positive_integer (rl_limit rl) \<and> positive_integer (rl_windowSec rl)"
    using r(1) by (simp_all add: text_rules_def validateEmits_ok validateErrors_ok)
  have w: "ac_aiExposure c = Exposed \<longrightarrow> ac_transport c = Client"
    "ac_consistencySnapshot c \<longrightarrow> ac_risk c = RiskRead"
    "isConfirmableRisk (ac_risk c) \<longrightarrow> ac_audit c"
    using r(4) by (simp_all add: write_rules_def)
  have s: "validateConditionalScopes c = []"
    using r(3) unfolding validateConditionalScopes_ok scope_rules_def
    by (cases "ac_projectionGrant c") auto
  have e: "validateAtomicEdges c = []"
    using r(4,5) unfolding validateAtomicEdges_ok validateEdgeField_ok edge_rules_def write_rules_def
    by auto
  show ?thesis
    unfolding collectDefinitionProblems_Nil
    using t w s e mode_rules_imp_validators [OF r(2,1,4)] write_rules_imp_validators [OF r(4)]
    by blast
qed

text \<open>
  C25: the define-time validation accepts a descriptor, unchanged, exactly when it satisfies the
  rule matrix: the rules of its principal mode, of its scopes, of what it writes and of its
  atomic edges. In particular an accepted action needs a confirmation if and only if a human
  runs it at high risk, and everything it emits or enqueues is named in its own module.
\<close>

theorem define_accepts_rule_matrix:
  "defineActionContract c = Inr c' \<longleftrightarrow> c' = c \<and> well_formed_contract c"
  using collect_imp_well_formed well_formed_imp_collect
  by (auto simp: defineActionContract_iff)


text \<open>A descriptor like \<open>orders.confirm\<close>, for the witnesses.\<close>

definition sample_contract :: action_contract where
  "sample_contract = \<lparr>
     ac_name = ''orders.confirm'', ac_description = ''Confirm an order.'', ac_principal = Staff,
     ac_transport = Client, ac_input = \<lparr>zs_key = ''in'', zs_type = ZObject [(''orderId'', ZString)]\<rparr>,
     ac_output = \<lparr>zs_key = ''out'', zs_type = ZObject [(''orderId'', ZString)]\<rparr>,
     ac_permissions = [''orders:edit''], ac_publicScope = None, ac_projectionGrant = None,
     ac_systemScope = None, ac_aiExposure = Exposed, ac_risk = RiskHigh,
     ac_requiresConfirmation = True, ac_idempotent = True, ac_emits = [''orders.confirmed''],
     ac_errors = [''NOT_FOUND''], ac_atomicCalls = [''inventory.reserve''], ac_atomicCallers = [],
     ac_audit = True, ac_timeout = JsInt 10000, ac_rateLimit = None,
     ac_consistencySnapshot = False, ac_enqueues = None,
     ac_writtenRecordIdField = Some ''orderId''\<rparr>"

lemma sample_contract_accepted: "defineActionContract sample_contract = Inr sample_contract"
proof -
  have names: "ACTION_NAME_PATTERN ''orders.confirm''" "moduleOf ''orders.confirm'' = ''orders''"
    "ACTION_NAME_PATTERN ''orders.confirmed''" "moduleOf ''orders.confirmed'' = ''orders''"
    "ACTION_NAME_PATTERN ''inventory.reserve''" "PERMISSION_PATTERN ''orders:edit''"
    by (simp_all add: name_eval_simps)
  have "js_trim ''Confirm an order.'' \<noteq> []"
    by (simp add: js_trim_def is_js_space_def char_code_def)
  then have "well_formed_contract sample_contract"
    unfolding contract_rule_defs own_names_iff sample_contract_def
    by (simp add: names isHumanPrincipal_iff isConfirmableRisk_iff names_string_field_def
        positive_integer_iff)
  then show ?thesis by (simp add: defineActionContract_iff well_formed_imp_collect)
qed


end
