(* ===== verification/Call_Rules.thy ===== *)
theory Call_Rules
  imports Define_Contract
begin

text \<open>
  The rules between a caller and a callee (\<open>contract-check/call-rules.ts\<close>): one list for a
  cross-module read (\<open>ctx.call\<close>), one for an atomic write (\<open>ctx.callAtomic\<close>). Both the contract
  check of the registry and the runtime asserts of the pipeline use them.
\<close>

datatype call_problem =
    SameModule
  | CalleeNotRead
  | SnapshotCallee
  | PublicGlobalCallerRule
  | PublicGlobalCallee
  | PrincipalMismatch principal principal

datatype atomic_call_problem =
    AtomicSameModule
  | AtomicCallerReads
  | AtomicCallerNotIdempotent
  | UndeclaredEdge js_string js_string
  | EdgeNotMutual js_string js_string
  | AtomicCalleeNotInternal
  | AtomicCalleeNotWrite
  | AtomicCalleeConfirmed
  | AtomicPrincipalMismatch principal principal

definition callPrincipalCompatible :: "action_contract \<Rightarrow> action_contract \<Rightarrow> bool" where
  "callPrincipalCompatible caller callee =
     (if ac_principal caller = ac_principal callee then
        (if ac_principal caller = System then
           ac_systemScope caller = Some Tenant \<or> ac_systemScope callee = Some GlobalScope
         else True)
      else ac_principal caller = Account \<and> ac_principal callee = Consumer)"

definition callTargetProblems :: "action_contract \<Rightarrow> action_contract \<Rightarrow> call_problem list" where
  "callTargetProblems caller callee =
     push_if (moduleOf (ac_name caller) = moduleOf (ac_name callee)) SameModule
     @ push_if (ac_risk callee \<noteq> RiskRead) CalleeNotRead
     @ push_if (ac_consistencySnapshot callee \<and> \<not> ac_consistencySnapshot caller) SnapshotCallee
     @ (if ac_publicScope caller = Some GlobalProjection then [PublicGlobalCallerRule]
        else if ac_publicScope callee = Some GlobalProjection then [PublicGlobalCallee]
        else push_if (\<not> callPrincipalCompatible caller callee)
               (PrincipalMismatch (ac_principal callee) (ac_principal caller)))"

definition atomicPrincipalCompatible :: "action_contract \<Rightarrow> action_contract \<Rightarrow> bool" where
  "atomicPrincipalCompatible caller callee =
     (if ac_principal caller \<noteq> ac_principal callee then False
      else if ac_principal caller = System then ac_systemScope caller = ac_systemScope callee
      else True)"

definition atomicCallTargetProblems ::
  "action_contract \<Rightarrow> action_contract \<Rightarrow> atomic_call_problem list" where
  "atomicCallTargetProblems caller callee =
     push_if (moduleOf (ac_name caller) = moduleOf (ac_name callee)) AtomicSameModule
     @ push_if (ac_risk caller = RiskRead) AtomicCallerReads
     @ push_if (\<not> ac_idempotent caller) AtomicCallerNotIdempotent
     @ push_if (ac_name callee \<notin> set (ac_atomicCalls caller))
         (UndeclaredEdge (ac_name caller) (ac_name callee))
     @ push_if (ac_name caller \<notin> set (ac_atomicCallers callee))
         (EdgeNotMutual (ac_name callee) (ac_name caller))
     @ push_if (ac_transport callee \<noteq> Internal) AtomicCalleeNotInternal
     @ push_if (ac_risk callee \<noteq> RiskWrite) AtomicCalleeNotWrite
     @ push_if (ac_requiresConfirmation callee) AtomicCalleeConfirmed
     @ push_if (\<not> atomicPrincipalCompatible caller callee)
         (AtomicPrincipalMismatch (ac_principal caller) (ac_principal callee))"

lemma callTarget_ok:
  "callTargetProblems caller callee = [] \<longleftrightarrow>
     moduleOf (ac_name caller) \<noteq> moduleOf (ac_name callee) \<and> ac_risk callee = RiskRead
     \<and> (ac_consistencySnapshot callee \<longrightarrow> ac_consistencySnapshot caller)
     \<and> ac_publicScope caller \<noteq> Some GlobalProjection
     \<and> ac_publicScope callee \<noteq> Some GlobalProjection \<and> callPrincipalCompatible caller callee"
  by (auto simp: callTargetProblems_def)

lemma atomicCallTarget_ok:
  "atomicCallTargetProblems caller callee = [] \<longleftrightarrow>
     moduleOf (ac_name caller) \<noteq> moduleOf (ac_name callee) \<and> ac_risk caller \<noteq> RiskRead
     \<and> ac_idempotent caller \<and> ac_name callee \<in> set (ac_atomicCalls caller)
     \<and> ac_name caller \<in> set (ac_atomicCallers callee) \<and> ac_transport callee = Internal
     \<and> ac_risk callee = RiskWrite \<and> \<not> ac_requiresConfirmation callee
     \<and> atomicPrincipalCompatible caller callee"
  by (auto simp: atomicCallTargetProblems_def)

lemma callPrincipalCompatible_cases:
  assumes "callPrincipalCompatible caller callee"
  shows "ac_principal callee = ac_principal caller \<or>
    (ac_principal caller = Account \<and> ac_principal callee = Consumer)"
  using assms by (auto simp: callPrincipalCompatible_def split: if_splits)

lemma validated_rules:
  assumes "defineActionContract c = Inr c"
  shows "mode_rules (ac_principal c) c" and "scope_rules c" and "write_rules c"
    and "edge_rules c" and "text_rules c"
  using assms by (simp_all add: defineActionContract_iff collect_mode_rules collect_scope_rules
      collect_write_rules collect_edge_rules collect_text_rules)


text \<open>
  A read call never widens authority. Between two validated contracts the callee runs in the
  caller's principal mode, or a consumer read runs below an account action; it can neither
  enqueue a job, ask for a confirmation nor be an end of an atomic edge; no global projection
  takes part in it; and a global system action never reaches a tenant-scoped one.
\<close>

theorem read_calls_never_widen_authority:
  assumes "callTargetProblems caller callee = []"
    and "defineActionContract caller = Inr caller" and "defineActionContract callee = Inr callee"
  shows "(ac_principal callee = ac_principal caller \<or>
       ac_principal caller = Account \<and> ac_principal callee = Consumer)
    \<and> ac_enqueues callee = None \<and> \<not> ac_requiresConfirmation callee
    \<and> ac_atomicCalls callee = [] \<and> ac_atomicCallers callee = []
    \<and> ac_projectionGrant caller = None \<and> ac_projectionGrant callee = None
    \<and> \<not> (ac_systemScope caller = Some GlobalScope \<and> ac_systemScope callee = Some Tenant)
    \<and> (isHumanPrincipal (ac_principal callee) \<longrightarrow> isHumanPrincipal (ac_principal caller))"
proof -
  have ok: "ac_risk callee = RiskRead" "ac_publicScope caller \<noteq> Some GlobalProjection"
    "ac_publicScope callee \<noteq> Some GlobalProjection" "callPrincipalCompatible caller callee"
    using assms(1) by (simp_all add: callTarget_ok)
  have w: "ac_enqueues callee = None" "\<not> ac_requiresConfirmation callee"
    using validated_rules(3) [OF assms(3)] ok(1) by (simp_all add: write_rules_def)
  have e: "ac_atomicCalls callee = []" "ac_atomicCallers callee = []"
    using validated_rules(4) [OF assms(3)] ok(1) by (auto simp: edge_rules_def)
  have p: "ac_projectionGrant caller = None" "ac_projectionGrant callee = None"
    using validated_rules(2) [OF assms(2)] validated_rules(2) [OF assms(3)] ok(2,3)
    by (simp_all add: scope_rules_def)
  have s: "\<not> (ac_systemScope caller = Some GlobalScope \<and> ac_systemScope callee = Some Tenant)"
    using validated_rules(2) [OF assms(2)] validated_rules(2) [OF assms(3)] ok(4)
    by (auto simp: callPrincipalCompatible_def scope_rules_def split: if_splits)
  show ?thesis
    using w e p s callPrincipalCompatible_cases [OF ok(4)] by (auto simp: isHumanPrincipal_iff)
qed

text \<open>An atomic callee and a read callee for \<^const>\<open>sample_contract\<close>.\<close>

definition sample_atomic_callee :: action_contract where
  "sample_atomic_callee = sample_contract\<lparr>
     ac_name := ''inventory.reserve'', ac_transport := Internal, ac_aiExposure := NotExposed,
     ac_risk := RiskWrite, ac_requiresConfirmation := False, ac_emits := [],
     ac_atomicCalls := [], ac_atomicCallers := [''orders.confirm'']\<rparr>"

definition sample_read_callee :: action_contract where
  "sample_read_callee = sample_contract\<lparr>
     ac_name := ''customers.get'', ac_permissions := [''customers:view''],
     ac_risk := RiskRead, ac_requiresConfirmation := False, ac_idempotent := False,
     ac_emits := [], ac_atomicCalls := [], ac_audit := False, ac_writtenRecordIdField := None\<rparr>"

lemma sample_callee_names:
  "ACTION_NAME_PATTERN ''inventory.reserve''" "moduleOf ''inventory.reserve'' = ''inventory''"
  "ACTION_NAME_PATTERN ''customers.get''" "moduleOf ''customers.get'' = ''customers''"
  "ACTION_NAME_PATTERN ''orders.confirm''" "moduleOf ''orders.confirm'' = ''orders''"
  "PERMISSION_PATTERN ''orders:edit''" "PERMISSION_PATTERN ''customers:view''"
  "js_trim ''Confirm an order.'' \<noteq> []"
  by (simp_all add: name_eval_simps js_trim_def is_js_space_def)

lemma sample_callees_accepted:
  "defineActionContract sample_atomic_callee = Inr sample_atomic_callee"
  "defineActionContract sample_read_callee = Inr sample_read_callee"
proof -
  have "well_formed_contract sample_atomic_callee" "well_formed_contract sample_read_callee"
    unfolding contract_rule_defs own_names_iff sample_contract_def sample_atomic_callee_def
      sample_read_callee_def
    by (simp_all add: sample_callee_names isHumanPrincipal_iff isConfirmableRisk_iff
        names_string_field_def positive_integer_iff)
  then show "defineActionContract sample_atomic_callee = Inr sample_atomic_callee"
    "defineActionContract sample_read_callee = Inr sample_read_callee"
    by (simp_all add: defineActionContract_iff well_formed_imp_collect)
qed


theorem read_calls_never_widen_authority_witness:
  "\<not> ac_requiresConfirmation sample_read_callee
   \<and> ac_principal sample_read_callee = ac_principal sample_contract"
proof -
  have "callTargetProblems sample_contract sample_read_callee = []"
    by (simp add: callTarget_ok sample_contract_def sample_read_callee_def sample_callee_names
        callPrincipalCompatible_def)
  from read_calls_never_widen_authority [OF this sample_contract_accepted
      sample_callees_accepted(2)]
  show ?thesis by (simp add: sample_contract_def)
qed

end
