(* ===== verification/Implementation.thy ===== *)
theory Implementation
  imports Call_Rules
begin

text \<open>
  The server half of an action and the registry: \<open>implementAction\<close>
  (\<open>runtime/implement-action.ts\<close>), which checks that the callbacks the contract implies are
  bound, and \<open>ActionRegistry\<close> (\<open>runtime/action-registry.ts\<close>). Of the callbacks the checks look
  at their presence only. A contract object has an identity beside its content, since the
  registry compares descriptors by reference.
\<close>

section \<open>Binding callbacks\<close>

record callbacks =
  cb_resolveTarget :: bool
  cb_confirmationSummary :: bool
  cb_preview :: bool
  cb_auditTarget :: bool
  cb_auditSnapshot :: bool

datatype binding_problem =
    ResolverMissing principal
  | ResolverForbidden
  | ConfirmationCardMissing
  | SummaryForbidden
  | PreviewPrecondition precondition_problem
  | TwoCards
  | AuditTargetMissing
  | AuditTargetForbidden
  | AuditSnapshotForbidden
  | ShareSnapshotMissing

definition requiresResolver :: "action_contract \<Rightarrow> bool" where
  "requiresResolver c =
     (ac_principal c = Customer \<or> ac_principal c = Share
      \<or> (ac_principal c = Public \<and> ac_publicScope c = Some Target))"

definition collectBindingProblems :: "action_contract \<Rightarrow> callbacks \<Rightarrow> binding_problem list" where
  "collectBindingProblems c cb =
     push_if (requiresResolver c \<and> \<not> cb_resolveTarget cb) (ResolverMissing (ac_principal c))
     @ push_if (\<not> requiresResolver c \<and> cb_resolveTarget cb) ResolverForbidden
     @ push_if (ac_requiresConfirmation c \<and> \<not> cb_confirmationSummary cb \<and> \<not> cb_preview cb)
         ConfirmationCardMissing
     @ push_if (\<not> ac_requiresConfirmation c \<and> cb_confirmationSummary cb) SummaryForbidden
     @ (if cb_preview cb then
          map PreviewPrecondition
            (confirmationPreconditionProblems (ac_principal c) (ac_idempotent c) (ac_risk c)
               (Some CONFIRMABLE_RISKS))
        else [])
     @ push_if (cb_preview cb \<and> cb_confirmationSummary cb) TwoCards
     @ push_if (ac_audit c \<and> \<not> cb_auditTarget cb) AuditTargetMissing
     @ push_if (\<not> ac_audit c \<and> cb_auditTarget cb) AuditTargetForbidden
     @ push_if (\<not> ac_audit c \<and> cb_auditSnapshot cb) AuditSnapshotForbidden
     @ push_if (ac_principal c = Share \<and> ac_risk c = RiskWrite \<and> \<not> cb_auditSnapshot cb)
         ShareSnapshotMissing"

record contract_object =
  co_id :: nat
  co_contract :: action_contract

record implemented_action =
  ia_contract :: contract_object
  ia_callbacks :: callbacks

definition implementAction ::
  "contract_object \<Rightarrow> callbacks \<Rightarrow> binding_problem list + implemented_action" where
  "implementAction contract callbacks' =
     (let problems = collectBindingProblems (co_contract contract) callbacks' in
      if length problems > 0 then Inl problems
      else Inr \<lparr>ia_contract = contract, ia_callbacks = callbacks'\<rparr>)"

lemma binding_ok_iff:
  "collectBindingProblems c cb = [] \<longleftrightarrow>
     cb_resolveTarget cb = requiresResolver c
     \<and> (ac_requiresConfirmation c \<longrightarrow> cb_confirmationSummary cb \<noteq> cb_preview cb)
     \<and> (\<not> ac_requiresConfirmation c \<longrightarrow> \<not> cb_confirmationSummary cb)
     \<and> (cb_preview cb \<longrightarrow> isConfirmableRisk (ac_risk c) \<and> isHumanPrincipal (ac_principal c)
          \<and> ac_idempotent c)
     \<and> cb_auditTarget cb = ac_audit c \<and> (cb_auditSnapshot cb \<longrightarrow> ac_audit c)
     \<and> (ac_principal c = Share \<and> ac_risk c = RiskWrite \<longrightarrow> cb_auditSnapshot cb)"
  by (auto simp: collectBindingProblems_def confirmationPrecondition_ok_iff isConfirmableRisk_def)

section \<open>The registry\<close>

text \<open>
  The two maps of the registry keep insertion order, so they are association lists; an entry is
  never replaced.
\<close>

record registry =
  rg_contracts :: "(js_string \<times> contract_object) list"
  rg_implementations :: "(js_string \<times> implemented_action) list"

datatype registry_problem =
    DuplicateContract js_string
  | DuplicateImplementation js_string
  | OrphanDescriptor js_string
  | ForeignDescriptor js_string
  | OrphanImplementation js_string

definition empty_registry :: registry where
  "empty_registry = \<lparr>rg_contracts = [], rg_implementations = []\<rparr>"

definition registerContract ::
  "contract_object \<Rightarrow> registry \<Rightarrow> registry_problem list + registry" where
  "registerContract contract rg =
     (let n = ac_name (co_contract contract) in
      if map_of (rg_contracts rg) n \<noteq> None then Inl [DuplicateContract n]
      else Inr (rg\<lparr>rg_contracts := rg_contracts rg @ [(n, contract)]\<rparr>))"

definition registerImplementation ::
  "implemented_action \<Rightarrow> registry \<Rightarrow> registry_problem list + registry" where
  "registerImplementation implementation rg =
     (let n = ac_name (co_contract (ia_contract implementation)) in
      if map_of (rg_implementations rg) n \<noteq> None then Inl [DuplicateImplementation n]
      else Inr (rg\<lparr>rg_implementations := rg_implementations rg @ [(n, implementation)]\<rparr>))"

definition getContract :: "registry \<Rightarrow> js_string \<Rightarrow> contract_object option" where
  "getContract rg n = map_of (rg_contracts rg) n"

definition getImplementation :: "registry \<Rightarrow> js_string \<Rightarrow> implemented_action option" where
  "getImplementation rg n = map_of (rg_implementations rg) n"

definition contracts :: "registry \<Rightarrow> contract_object list" where
  "contracts rg = map snd (rg_contracts rg)"

definition pairingProblems :: "registry \<Rightarrow> registry_problem list" where
  "pairingProblems rg =
     concat (map (\<lambda>(n, contract).
         case getImplementation rg n of
           None \<Rightarrow> [OrphanDescriptor n]
         | Some implementation \<Rightarrow>
             push_if (co_id (ia_contract implementation) \<noteq> co_id contract) (ForeignDescriptor n))
       (rg_contracts rg))
     @ concat (map (\<lambda>(n, _). push_if (getContract rg n = None) (OrphanImplementation n))
         (rg_implementations rg))"

definition assertPaired :: "registry \<Rightarrow> registry_problem list + unit" where
  "assertPaired rg =
     (let problems = pairingProblems rg in
      if length problems > 0 then Inl problems else Inr ())"

section \<open>The invariant of the registry\<close>

definition registry_inv :: "registry \<Rightarrow> bool" where
  "registry_inv rg \<longleftrightarrow>
     distinct (map fst (rg_contracts rg)) \<and> distinct (map fst (rg_implementations rg))
     \<and> (\<forall>(n, c) \<in> set (rg_contracts rg). n = ac_name (co_contract c))
     \<and> (\<forall>(n, i) \<in> set (rg_implementations rg). n = ac_name (co_contract (ia_contract i)))"

datatype registration = Contract contract_object | Implementation implemented_action

fun register :: "registration \<Rightarrow> registry \<Rightarrow> registry_problem list + registry" where
  "register (Contract c) rg = registerContract c rg"
| "register (Implementation i) rg = registerImplementation i rg"

fun boot :: "registration list \<Rightarrow> registry \<Rightarrow> registry_problem list + registry" where
  "boot [] rg = (case assertPaired rg of Inl ps \<Rightarrow> Inl ps | Inr _ \<Rightarrow> Inr rg)"
| "boot (r # rs) rg = (case register r rg of Inl ps \<Rightarrow> Inl ps | Inr rg' \<Rightarrow> boot rs rg')"

lemma map_of_None_iff: "map_of xs k = None \<longleftrightarrow> k \<notin> fst ` set xs"
  by (rule map_of_eq_None_iff)

lemma register_inv:
  "registry_inv rg \<Longrightarrow> register r rg = Inr rg' \<Longrightarrow> registry_inv rg'"
  by (cases r) (auto simp: registerContract_def registerImplementation_def Let_def
      registry_inv_def map_of_None_iff split: if_splits)

lemma boot_inv: "registry_inv rg \<Longrightarrow> boot rs rg = Inr rg' \<Longrightarrow> registry_inv rg' \<and> assertPaired rg' = Inr ()"
  by (induction rs arbitrary: rg) (auto split: sum.splits dest: register_inv)

lemma empty_registry_inv: "registry_inv empty_registry"
  by (simp add: registry_inv_def empty_registry_def)

lemma assertPaired_ok:
  assumes "assertPaired rg = Inr ()"
  shows "(n, c) \<in> set (rg_contracts rg) \<Longrightarrow>
      \<exists>i. getImplementation rg n = Some i \<and> co_id (ia_contract i) = co_id c"
    and "(n, i) \<in> set (rg_implementations rg) \<Longrightarrow> \<exists>c. getContract rg n = Some c"
proof -
  have ok: "pairingProblems rg = []"
    using assms by (simp add: assertPaired_def Let_def split: if_splits)
  show "\<exists>i. getImplementation rg n = Some i \<and> co_id (ia_contract i) = co_id c"
    if "(n, c) \<in> set (rg_contracts rg)"
    using ok that by (fastforce simp: pairingProblems_def split: option.splits)
  show "\<exists>c. getContract rg n = Some c" if "(n, i) \<in> set (rg_implementations rg)"
    using ok that by (fastforce simp: pairingProblems_def split: option.splits)
qed

text \<open>
  A registry that boots is a perfect pairing. Whatever the modules register and in whatever
  order, when boot succeeds every registered contract name has exactly one implementation, that
  implementation is bound to the very same descriptor object, every implementation has its
  contract, and each is found under its own action name.
\<close>

theorem boot_pairs_contracts_with_implementations:
  assumes "boot registrations empty_registry = Inr rg"
  shows "(getContract rg n = None \<longleftrightarrow> getImplementation rg n = None)
    \<and> (\<forall>c i. getContract rg n = Some c \<and> getImplementation rg n = Some i \<longrightarrow>
          co_id (ia_contract i) = co_id c \<and> ac_name (co_contract c) = n
          \<and> ac_name (co_contract (ia_contract i)) = n)
    \<and> length (rg_contracts rg) = length (rg_implementations rg)"
proof -
  have inv: "registry_inv rg" and paired: "assertPaired rg = Inr ()"
    using boot_inv [OF empty_registry_inv assms] by simp_all
  have same: "fst ` set (rg_contracts rg) = fst ` set (rg_implementations rg)"
    using assertPaired_ok [OF paired]
    by (force simp: getImplementation_def getContract_def dest: map_of_SomeD)
  then have len: "length (rg_contracts rg) = length (rg_implementations rg)"
    using inv distinct_card [of "map fst (rg_contracts rg)"]
      distinct_card [of "map fst (rg_implementations rg)"]
    by (simp add: registry_inv_def)
  have names: "co_id (ia_contract i) = co_id c \<and> ac_name (co_contract c) = n
      \<and> ac_name (co_contract (ia_contract i)) = n"
    if "getContract rg n = Some c" "getImplementation rg n = Some i" for c i
  proof -
    have "(n, c) \<in> set (rg_contracts rg)" "(n, i) \<in> set (rg_implementations rg)"
      using that by (auto simp: getContract_def getImplementation_def dest: map_of_SomeD)
    then show ?thesis
      using inv assertPaired_ok(1) [OF paired] that(2) by (fastforce simp: registry_inv_def)
  qed
  show ?thesis
    using same len names by (auto simp: getContract_def getImplementation_def map_of_None_iff)
qed

definition sample_object :: contract_object where
  "sample_object = \<lparr>co_id = 1, co_contract = sample_contract\<rparr>"

definition sample_implementation :: implemented_action where
  "sample_implementation = \<lparr>ia_contract = sample_object, ia_callbacks = \<lparr>cb_resolveTarget = False,
     cb_confirmationSummary = False, cb_preview = True, cb_auditTarget = True,
     cb_auditSnapshot = False\<rparr>\<rparr>"

theorem boot_pairs_contracts_with_implementations_witness:
  "\<exists>rg. boot [Contract sample_object, Implementation sample_implementation] empty_registry = Inr rg
     \<and> length (rg_contracts rg) = length (rg_implementations rg)"
proof -
  let ?rg = "\<lparr>rg_contracts = [(''orders.confirm'', sample_object)],
    rg_implementations = [(''orders.confirm'', sample_implementation)]\<rparr>"
  have "boot [Contract sample_object, Implementation sample_implementation] empty_registry = Inr ?rg"
    by (simp add: empty_registry_def registerContract_def registerImplementation_def Let_def
        sample_object_def sample_implementation_def sample_contract_def assertPaired_def
        pairingProblems_def getImplementation_def getContract_def)
  with boot_pairs_contracts_with_implementations [OF this] show ?thesis by blast
qed

text \<open>
  The binding rules leave exactly one source for the confirmation card. When a validated
  contract is implemented, an action that requires a confirmation binds a summary or a preview
  but not both, any other binds no summary, a card is only bound by an idempotent action of a
  human principal that writes, the target resolver is bound exactly by customer, share and
  public-target actions, and audit callbacks exactly by audited ones.
\<close>

theorem implementation_binds_one_card:
  assumes "implementAction obj cb = Inr impl"
    and "defineActionContract (co_contract obj) = Inr (co_contract obj)"
  shows "(ac_requiresConfirmation (co_contract obj) \<longleftrightarrow>
        ac_risk (co_contract obj) = RiskHigh \<and> (cb_confirmationSummary cb \<noteq> cb_preview cb)
        \<and> isHumanPrincipal (ac_principal (co_contract obj)))
    \<and> (cb_confirmationSummary cb \<or> cb_preview cb \<longrightarrow>
        isHumanPrincipal (ac_principal (co_contract obj)) \<and> ac_idempotent (co_contract obj)
        \<and> isConfirmableRisk (ac_risk (co_contract obj)) \<and> ac_audit (co_contract obj))
    \<and> cb_resolveTarget cb = requiresResolver (co_contract obj)
    \<and> cb_auditTarget cb = ac_audit (co_contract obj)"
proof -
  have "collectBindingProblems (co_contract obj) cb = []"
    using assms(1) by (simp add: implementAction_def Let_def split: if_splits)
  then show ?thesis
    using validated_rules(3) [OF assms(2)]
    by (auto simp: binding_ok_iff write_rules_def isConfirmableRisk_iff)
qed

theorem implementation_binds_one_card_witness:
  "cb_auditTarget (ia_callbacks sample_implementation) = ac_audit sample_contract"
proof -
  have "implementAction sample_object (ia_callbacks sample_implementation) = Inr sample_implementation"
    by (simp add: implementAction_def Let_def binding_ok_iff sample_object_def
        sample_implementation_def sample_contract_def requiresResolver_def
        isConfirmableRisk_iff isHumanPrincipal_iff)
  from implementation_binds_one_card [OF this] show ?thesis
    by (simp add: sample_object_def sample_contract_accepted)
qed

end
