(* ===== verification/Json.thy ===== *)
theory Json
  imports Core_Errors "HOL-Library.Char_ord" "HOL-Library.List_Lexorder"
begin

text \<open>
  JSON values and their canonical text (\<open>runtime/audit/canonical-json.ts\<close>), which the audit
  hook hashes into \<open>inputHash\<close> and the idempotency hook into \<open>requestHash\<close>. An object is its
  list of members in insertion order; \<open>JUndefined\<close> is a member set to \<open>undefined\<close>. Numbers are
  the safe integers (below \<open>10 ^ 21\<close> in size, where \<open>String\<close> writes plain digits) and the
  non-finite ones; fractions, whose shortest digits the ECMAScript runtime computes, are left
  out.
\<close>

datatype json =
    JUndefined
  | JNull
  | JBool bool
  | JNumber int
  | JNonFinite
  | JString js_string
  | JArray "json list"
  | JObject "(js_string \<times> json) list"

section \<open>Text\<close>

fun res_all :: "('e + 'a) list \<Rightarrow> 'e + 'a list" where
  "res_all [] = Inr []"
| "res_all (r # rs) =
     (case r of Inl e \<Rightarrow> Inl e
      | Inr x \<Rightarrow> (case res_all rs of Inl e \<Rightarrow> Inl e | Inr xs \<Rightarrow> Inr (x # xs)))"

lemma res_all_Inr: "res_all rs = Inr xs \<longleftrightarrow> rs = map Inr xs"
proof (induction rs arbitrary: xs)
  case Nil
  then show ?case by auto
next
  case (Cons r rs)
  show ?case
  proof (cases "res_all rs")
    case (Inl e)
    then have "rs \<noteq> map Inr zs" for zs using Cons.IH by (metis Inl_Inr_False)
    with Inl show ?thesis by (cases r; cases xs) auto
  next
    case (Inr zs)
    with Cons.IH have "rs = map Inr zs" by blast
    with Inr show ?thesis by (cases r; cases xs) (auto simp: inj_map_eq_map)
  qed
qed

fun join :: "js_string list \<Rightarrow> js_string" where
  "join [] = []"
| "join [s] = s"
| "join (s # t # ss) = s @ CHR '','' # join (t # ss)"

definition digit :: "nat \<Rightarrow> char" where
  "digit d = char_of (48 + d)"

fun show_nat :: "nat \<Rightarrow> js_string" where
  "show_nat n = (if n < 10 then [digit n] else show_nat (n div 10) @ [digit (n mod 10)])"

declare show_nat.simps [simp del]

definition show_int :: "int \<Rightarrow> js_string" where
  "show_int n = (if n < 0 then CHR ''-'' # show_nat (nat (- n)) else show_nat (nat n))"

definition hex_digit :: "nat \<Rightarrow> char" where
  "hex_digit d = (if d < 10 then char_of (48 + d) else char_of (87 + d))"

text \<open>\<open>QuoteJSONString\<close>: the short escapes, \<open>\uXXXX\<close> for other control characters.\<close>

definition quote_char :: "char \<Rightarrow> js_string" where
  "quote_char c =
     (let n = char_code c in
      if n = 8 then [CHR 0x5C, CHR ''b'']
      else if n = 9 then [CHR 0x5C, CHR ''t'']
      else if n = 10 then [CHR 0x5C, CHR ''n'']
      else if n = 12 then [CHR 0x5C, CHR ''f'']
      else if n = 13 then [CHR 0x5C, CHR ''r'']
      else if n = 34 then [CHR 0x5C, CHR 0x22]
      else if n = 92 then [CHR 0x5C, CHR 0x5C]
      else if n < 32 then [CHR 0x5C, CHR ''u'', CHR ''0'', CHR ''0'',
             hex_digit (n div 16), hex_digit (n mod 16)]
      else [c])"

definition json_stringify :: "js_string \<Rightarrow> js_string" where
  "json_stringify s = CHR 0x22 # concat (map quote_char s) @ [CHR 0x22]"

text \<open>\<open>Object.keys(obj).sort()\<close>: by code units.\<close>

definition sorted_members :: "(js_string \<times> json) list \<Rightarrow> (js_string \<times> json) list" where
  "sorted_members ms = sort_key fst ms"

lemma set_sorted_members [simp]: "set (sorted_members ms) = set ms"
  by (simp add: sorted_members_def)

function serialize :: "json \<Rightarrow> core_error + js_string" where
  "serialize JNull = Inr ''null''"
| "serialize (JBool b) = Inr (if b then ''true'' else ''false'')"
| "serialize (JNumber n) = Inr (show_int n)"
| "serialize JNonFinite = Inl (context_error NotJson)"
| "serialize (JString s) = Inr (json_stringify s)"
| "serialize (JArray vs) =
     res_bind (res_all (map serialize vs)) (\<lambda>ts. Inr (CHR ''['' # join ts @ '']''))"
| "serialize (JObject ms) =
     res_bind (res_all (map (\<lambda>(key, val).
           if val = JUndefined then Inl (context_error NotJson)
           else res_bind (serialize val) (\<lambda>t. Inr (json_stringify key @ CHR '':'' # t)))
         (sorted_members ms)))
       (\<lambda>ts. Inr (CHR ''{'' # join ts @ ''}''))"
| "serialize JUndefined = Inl (context_error NotJson)"
  by pat_completeness auto
termination
proof (relation "measure size")
  fix vs and v :: json assume "v \<in> set vs"
  then show "(v, JArray vs) \<in> measure size" by (simp add: less_Suc_eq_le size_list_estimation')
next
  fix ms :: "(js_string \<times> json) list" and m key val
  assume "m \<in> set (sorted_members ms)" "(key, val) = m" "val \<noteq> JUndefined"
  then show "(val, JObject ms) \<in> measure size"
    by (auto simp: less_Suc_eq_le intro: size_list_estimation' [of m] )
qed simp_all

definition canonicalJson :: "json \<Rightarrow> core_error + js_string" where
  "canonicalJson v = serialize v"

text \<open>SHA-256 (\<open>node:crypto\<close>) is the parameter \<open>sha256\<close>.\<close>

definition canonicalJsonSha256 :: "(js_string \<Rightarrow> js_string) \<Rightarrow> json \<Rightarrow> core_error + js_string" where
  "canonicalJsonSha256 sha256 v = res_bind (canonicalJson v) (\<lambda>canonical. Inr (sha256 canonical))"

definition canonicalJsonSha256OfUnknown ::
  "(js_string \<Rightarrow> js_string) \<Rightarrow> json \<Rightarrow> core_error + js_string" where
  "canonicalJsonSha256OfUnknown sha256 v = canonicalJsonSha256 sha256 v"

end
