(* ===== verification/Json_Unique.thy ===== *)
theory Json_Unique
  imports Json
begin

text \<open>
  The canonical text determines the value: unique readability of the serializer of \<open>Json\<close>,
  constructor by constructor, up to the order of object members.
\<close>

section \<open>Numbers\<close>

definition stops :: "js_string \<Rightarrow> bool" where
  "stops r \<longleftrightarrow> (case r of [] \<Rightarrow> True | c # _ \<Rightarrow> \<not> is_digit c)"

lemma digit_code: "d < 10 \<Longrightarrow> char_code (digit d) = 48 + d"
  by (simp add: char_code_def digit_def)

lemma digit_is_digit: "d < 10 \<Longrightarrow> is_digit (digit d)"
  by (simp add: is_digit_def digit_code)

lemma show_nat_digits: "list_all is_digit (show_nat n)"
  by (induction n rule: show_nat.induct) (subst show_nat.simps, auto simp: digit_is_digit)

lemma show_nat_not_Nil [simp]: "show_nat n \<noteq> []"
  by (subst show_nat.simps) simp

definition read_nat :: "js_string \<Rightarrow> nat" where
  "read_nat s = foldl (\<lambda>n c. 10 * n + (char_code c - 48)) 0 s"

lemma read_show_nat: "read_nat (show_nat n) = n"
proof (induction n rule: show_nat.induct)
  case (1 n)
  show ?case
  proof (cases "n < 10")
    case True
    then show ?thesis by (subst show_nat.simps) (simp add: read_nat_def digit_code)
  next
    case False
    then have "read_nat (show_nat n) = 10 * read_nat (show_nat (n div 10)) + n mod 10"
      by (subst show_nat.simps) (simp add: read_nat_def digit_code)
    then show ?thesis using 1 False by simp
  qed
qed

lemma takeWhile_digits:
  "list_all is_digit s \<Longrightarrow> stops r \<Longrightarrow> takeWhile is_digit (s @ r) = s"
  by (induction s) (auto simp: stops_def split: list.splits)

lemma show_nat_unique:
  assumes "show_nat n @ r = show_nat m @ r'" and "stops r" and "stops r'"
  shows "n = m \<and> r = r'"
proof -
  have "show_nat n = show_nat m"
    using assms takeWhile_digits [OF show_nat_digits] by metis
  then show ?thesis using assms(1) read_show_nat by (metis append_same_eq same_append_eq)
qed

lemma minus_not_digit: "\<not> is_digit CHR ''-''"
  by (simp add: is_digit_def char_code_def)

lemma hd_show_nat: "is_digit (hd (show_nat n))"
  using show_nat_digits [of n] by (cases "show_nat n") (auto simp: list_all_iff)

lemma show_nat_not_minus: "show_nat n @ r \<noteq> CHR ''-'' # s"
  using hd_show_nat [of n] minus_not_digit by (cases "show_nat n") auto

lemma minus_not_show_nat: "CHR ''-'' # s \<noteq> show_nat n @ r"
  using show_nat_not_minus by metis

lemma show_int_unique:
  assumes "show_int n @ r = show_int m @ r'" and "stops r" and "stops r'"
  shows "n = m \<and> r = r'"
proof -
  have neg: "show_int k = CHR ''-'' # show_nat (nat (- k))" if "k < 0" for k
    using that by (simp add: show_int_def)
  have pos: "show_int k = show_nat (nat k)" if "\<not> k < 0" for k
    using that by (simp add: show_int_def)
  consider "n < 0" "m < 0" | "\<not> n < 0" "\<not> m < 0" | "n < 0" "\<not> m < 0" | "\<not> n < 0" "m < 0"
    by blast
  then show ?thesis
  proof cases
    case 1
    then have "show_nat (nat (- n)) @ r = show_nat (nat (- m)) @ r'"
      using assms(1) neg by simp
    from show_nat_unique [OF this assms(2,3)] show ?thesis using 1 by linarith
  next
    case 2
    then have "show_nat (nat n) @ r = show_nat (nat m) @ r'"
      using assms(1) pos by simp
    from show_nat_unique [OF this assms(2,3)] show ?thesis using 2 by linarith
  next
    case 3
    then show ?thesis using assms(1) neg pos minus_not_show_nat by (metis append_Cons)
  next
    case 4
    then show ?thesis using assms(1) neg pos show_nat_not_minus by (metis append_Cons)
  qed
qed

section \<open>Strings\<close>

definition hex_value :: "char \<Rightarrow> nat" where
  "hex_value c = (if char_code c < 58 then char_code c - 48 else char_code c - 87)"

lemma hex_value_digit: "d < 16 \<Longrightarrow> hex_value (hex_digit d) = d"
  by (simp add: hex_value_def hex_digit_def char_code_def)

text \<open>Reads one quoted character back.\<close>

definition unquote :: "js_string \<Rightarrow> char \<times> js_string" where
  "unquote s =
     (if hd s \<noteq> CHR 0x5C then (hd s, tl s)
      else let k = char_code (s ! 1) in
        if k = 98 then (char_of (8 :: nat), drop 2 s)
        else if k = 116 then (char_of (9 :: nat), drop 2 s)
        else if k = 110 then (char_of (10 :: nat), drop 2 s)
        else if k = 102 then (char_of (12 :: nat), drop 2 s)
        else if k = 114 then (char_of (13 :: nat), drop 2 s)
        else if k = 117 then (char_of (16 * hex_value (s ! 4) + hex_value (s ! 5)), drop 6 s)
        else (s ! 1, drop 2 s))"

lemma char_code_eqI: "char_code c = n \<Longrightarrow> c = char_of n"
  by (auto simp: char_code_def)

lemma char_code_inj: "char_code c = char_code d \<Longrightarrow> c = d"
  by (simp add: char_code_def)

lemma unquote_quote: "unquote (quote_char c @ r) = (c, r)"
proof -
  have codes: "char_code CHR ''b'' = 98" "char_code CHR ''t'' = 116" "char_code CHR ''n'' = 110"
    "char_code CHR ''f'' = 102" "char_code CHR ''r'' = 114" "char_code CHR ''u'' = 117"
    "char_code CHR 0x22 = 34" "char_code CHR 0x5C = 92"
    by (simp_all add: char_code_def)
  have control: "char_of (16 * hex_value (hex_digit (char_code c div 16))
      + hex_value (hex_digit (char_code c mod 16))) = c" if "char_code c < 32"
    using that char_code_eqI [of c "char_code c"] by (simp add: hex_value_digit)
  have quote: "c = CHR 0x22" if "char_code c = 34"
    using that codes(7) char_code_inj by metis
  have backslash: "c = CHR 0x5C \<longleftrightarrow> char_code c = 92"
    using codes(8) char_code_inj by metis
  show ?thesis
  proof (cases "char_code c \<in> {8, 9, 10, 12, 13, 34, 92}")
    case True
    then have "c \<in> {char_of (8 :: nat), char_of (9 :: nat), char_of (10 :: nat), char_of (12 :: nat),
        char_of (13 :: nat), CHR 0x22, CHR 0x5C}"
      using quote backslash char_code_eqI [of c] by blast
    then show ?thesis
      by (elim insertE emptyE) (simp_all add: quote_char_def Let_def unquote_def char_code_def)
  next
    case False
    then show ?thesis
      using control backslash by (simp add: quote_char_def Let_def unquote_def codes)
  qed
qed

lemma quote_char_not_Nil [simp]: "quote_char c \<noteq> []"
  by (simp add: quote_char_def Let_def)

lemma hd_quote_char: "hd (quote_char c) \<noteq> CHR 0x22"
proof -
  have "char_code CHR 0x22 = 34" by (simp add: char_code_def)
  then show ?thesis by (auto simp: quote_char_def Let_def)
qed

lemma quote_not_end: "quote_char c @ r \<noteq> CHR 0x22 # s"
  using hd_quote_char [of c] by (cases "quote_char c") auto

lemma quoted_unique:
  "concat (map quote_char s) @ CHR 0x22 # r = concat (map quote_char t) @ CHR 0x22 # r' \<Longrightarrow>
     s = t \<and> r = r'"
proof (induction s arbitrary: t)
  case Nil
  then show ?case using quote_not_end [symmetric] by (cases t) auto
next
  case (Cons c s)
  show ?case
  proof (cases t)
    case Nil
    then show ?thesis using Cons.prems quote_not_end by auto
  next
    case (Cons d t')
    with Cons.prems have eq: "quote_char c @ concat (map quote_char s) @ CHR 0x22 # r
        = quote_char d @ concat (map quote_char t') @ CHR 0x22 # r'" by simp
    then have "c = d" "concat (map quote_char s) @ CHR 0x22 # r
        = concat (map quote_char t') @ CHR 0x22 # r'"
      using unquote_quote by (metis prod.inject)+
    then show ?thesis using Cons.IH Cons by blast
  qed
qed

lemma json_stringify_unique:
  "json_stringify s @ r = json_stringify t @ r' \<Longrightarrow> s = t \<and> r = r'"
  using quoted_unique [of s r t r'] by (simp add: json_stringify_def)

section \<open>Lists\<close>

lemma res_all_map_Inr [simp]: "res_all (map Inr xs) = Inr xs"
  by (induction xs) auto

lemma res_all_Inr_iff: "res_all rs = Inr xs \<longleftrightarrow> rs = map Inr xs"
proof
  show "res_all rs = Inr xs \<Longrightarrow> rs = map Inr xs"
    by (induction rs arbitrary: xs) (auto split: sum.splits)
qed simp

lemma join_Cons: "join (t # ts) = t @ concat (map (\<lambda>s. CHR '','' # s) ts)"
  by (induction ts arbitrary: t) auto

definition closes :: "char \<Rightarrow> bool" where
  "closes c \<longleftrightarrow> c = CHR '']'' \<or> c = CHR ''}''"

lemma closes_stops: "closes c \<Longrightarrow> stops (c # r)"
  by (auto simp: closes_def stops_def is_digit_def char_code_def)

lemma comma_stops: "stops (CHR '','' # r)"
  by (simp add: stops_def is_digit_def char_code_def)

definition readable :: "('a \<Rightarrow> js_string \<Rightarrow> bool) \<Rightarrow> ('a \<Rightarrow> 'b) \<Rightarrow> 'a \<Rightarrow> bool" where
  "readable R f x \<longleftrightarrow> (\<forall>y t t' r r'. R x t \<longrightarrow> R y t' \<longrightarrow> t @ r = t' @ r' \<longrightarrow> stops r \<longrightarrow> stops r' \<longrightarrow>
     f x = f y \<and> r = r')"

lemma readableD:
  "readable R f x \<Longrightarrow> R x t \<Longrightarrow> R y u \<Longrightarrow> t @ r = u @ r' \<Longrightarrow> stops r \<Longrightarrow> stops r' \<Longrightarrow>
     f x = f y \<and> r = r'"
  unfolding readable_def by blast

lemma tails_stop:
  "closes c \<Longrightarrow> stops (concat (map (\<lambda>s. CHR '','' # s) ts) @ c # r)"
  by (cases ts) (simp_all add: closes_stops comma_stops)

lemma tails_unique:
  assumes "closes c" and "\<forall>x \<in> set xs. readable R f x"
    and "list_all2 R xs ts" and "list_all2 R ys us"
    and "concat (map (\<lambda>s. CHR '','' # s) ts) @ c # r = concat (map (\<lambda>s. CHR '','' # s) us) @ c # r'"
  shows "map f xs = map f ys \<and> r = r'"
  using assms(2-)
proof (induction xs arbitrary: ts ys us)
  case Nil
  then show ?case using assms(1) by (cases us) (auto simp: closes_def)
next
  case (Cons x xs)
  then obtain t ts' where ts: "ts = t # ts'" "R x t" "list_all2 R xs ts'"
    by (auto simp: list_all2_Cons1)
  show ?case
  proof (cases us)
    case Nil
    then show ?thesis using Cons.prems(4) ts(1) assms(1) by (auto simp: closes_def)
  next
    case (Cons u us')
    then obtain y ys' where ys: "ys = y # ys'" "R y u" "list_all2 R ys' us'"
      using Cons.prems(3) by (auto simp: list_all2_Cons2)
    have "f x = f y \<and> concat (map (\<lambda>s. CHR '','' # s) ts') @ c # r
        = concat (map (\<lambda>s. CHR '','' # s) us') @ c # r'"
    proof (rule readableD [where R = R, OF _ ts(2) ys(2)])
      show "readable R f x" using Cons.prems(1) by simp
    qed (use Cons.prems(4) ts(1) Cons tails_stop [OF assms(1)] in simp_all)
    then show ?thesis using Cons.IH [OF _ ts(3) ys(3)] Cons.prems(1) ys(1) by simp
  qed
qed

lemma join_unique:
  assumes "closes c" and "\<forall>x \<in> set xs. readable R f x"
    and "list_all2 R xs ts" and "list_all2 R ys us"
    and "\<And>x t. R x t \<Longrightarrow> t \<noteq> [] \<and> \<not> closes (hd t)"
    and "join ts @ c # r = join us @ c # r'"
  shows "map f xs = map f ys \<and> r = r'"
proof (cases ts)
  case Nil
  then show ?thesis
  proof (cases us)
    case Nil
    then show ?thesis using \<open>ts = []\<close> assms(3,4,6) by simp
  next
    case (Cons u us')
    then obtain y where "R y u" using assms(4) by (auto simp: list_all2_Cons2)
    then have "u \<noteq> []" "\<not> closes (hd u)" using assms(5) by auto
    then show ?thesis using Nil Cons assms(1,6) by (cases u) (auto simp: join_Cons)
  qed
next
  case (Cons t ts')
  then obtain x xs' where xs: "xs = x # xs'" "R x t" "list_all2 R xs' ts'"
    using assms(3) by (auto simp: list_all2_Cons2)
  have t: "t \<noteq> []" "\<not> closes (hd t)" using assms(5) [OF xs(2)] by auto
  show ?thesis
  proof (cases us)
    case Nil
    then show ?thesis using t Cons assms(1,6) by (cases t) (auto simp: join_Cons)
  next
    case (Cons u us')
    then obtain y ys' where ys: "ys = y # ys'" "R y u" "list_all2 R ys' us'"
      using assms(4) by (auto simp: list_all2_Cons2)
    have "f x = f y \<and> concat (map (\<lambda>s. CHR '','' # s) ts') @ c # r
        = concat (map (\<lambda>s. CHR '','' # s) us') @ c # r'"
    proof (rule readableD [where R = R, OF _ xs(2) ys(2)])
      show "readable R f x" using assms(2) xs(1) by simp
    qed (use assms(6) \<open>ts = t # ts'\<close> Cons tails_stop [OF assms(1)] in \<open>simp_all add: join_Cons\<close>)
    then show ?thesis
      using tails_unique [OF assms(1) _ xs(3) ys(3), of f r r'] assms(2) xs(1) ys(1) by simp
  qed
qed

section \<open>Values\<close>

text \<open>The value with the members of every object in canonical order.\<close>

function normal :: "json \<Rightarrow> json" where
  "normal (JArray vs) = JArray (map normal vs)"
| "normal (JObject ms) = JObject (map (\<lambda>(key, val). (key, normal val)) (sorted_members ms))"
| "normal JUndefined = JUndefined"
| "normal JNull = JNull"
| "normal (JBool b) = JBool b"
| "normal (JNumber n) = JNumber n"
| "normal JNonFinite = JNonFinite"
| "normal (JString s) = JString s"
  by pat_completeness auto
termination
proof (relation "measure size")
  fix vs and v :: json assume "v \<in> set vs"
  then show "(v, JArray vs) \<in> measure size" by (simp add: less_Suc_eq_le size_list_estimation')
next
  fix ms :: "(js_string \<times> json) list" and m key val
  assume "m \<in> set (sorted_members ms)" "(key, val) = m"
  then show "(val, JObject ms) \<in> measure size"
    by (auto simp: less_Suc_eq_le intro: size_list_estimation' [of m])
qed simp_all

definition has_text :: "json \<Rightarrow> js_string \<Rightarrow> bool" where
  "has_text v t \<longleftrightarrow> serialize v = Inr t"

definition member_text :: "js_string \<times> json \<Rightarrow> js_string \<Rightarrow> bool" where
  "member_text m t \<longleftrightarrow> snd m \<noteq> JUndefined \<and>
     (\<exists>u. has_text (snd m) u \<and> t = json_stringify (fst m) @ CHR '':'' # u)"

lemma map_Inr_list_all2: "map f xs = map Inr ts \<longleftrightarrow> list_all2 (\<lambda>x t. f x = Inr t) xs ts"
  by (induction xs arbitrary: ts) (auto simp: list_all2_Cons1 Cons_eq_map_conv)

lemma has_text_fun: "has_text = (\<lambda>v t. serialize v = Inr t)"
  by (intro ext) (simp add: has_text_def)

lemma array_text:
  "has_text (JArray vs) t \<longleftrightarrow> (\<exists>ts. list_all2 has_text vs ts \<and> t = CHR ''['' # join ts @ '']'')"
  by (auto simp: has_text_fun res_bind_Inr_iff res_all_Inr_iff map_Inr_list_all2)

lemma member_serialize:
  "(case m of (key, val) \<Rightarrow>
      if val = JUndefined then Inl (context_error NotJson)
      else res_bind (serialize val) (\<lambda>t. Inr (json_stringify key @ CHR '':'' # t))) = Inr t
   \<longleftrightarrow> member_text m t"
  by (auto simp: member_text_def has_text_def res_bind_Inr_iff split: prod.splits)

lemma object_text:
  "has_text (JObject ms) t \<longleftrightarrow>
     (\<exists>ts. list_all2 member_text (sorted_members ms) ts \<and> t = CHR ''{'' # join ts @ ''}'')"
  unfolding has_text_def serialize.simps res_bind_Inr_iff res_all_Inr_iff map_Inr_list_all2
    member_serialize
  by auto

lemma atom_text:
  "\<not> has_text JUndefined t" "\<not> has_text JNonFinite t"
  "has_text JNull t \<longleftrightarrow> t = ''null''"
  "has_text (JBool b) t \<longleftrightarrow> t = (if b then ''true'' else ''false'')"
  "has_text (JNumber n) t \<longleftrightarrow> t = show_int n"
  "has_text (JString s) t \<longleftrightarrow> t = json_stringify s"
  by (auto simp: has_text_def)

text \<open>The first character tells the kind of the value.\<close>

definition lead :: "json \<Rightarrow> char \<Rightarrow> bool" where
  "lead v c = (case v of JNull \<Rightarrow> c = CHR ''n'' | JBool b \<Rightarrow> c = (if b then CHR ''t'' else CHR ''f'')
     | JNumber _ \<Rightarrow> is_digit c \<or> c = CHR ''-'' | JString _ \<Rightarrow> c = CHR 0x22
     | JArray _ \<Rightarrow> c = CHR ''['' | JObject _ \<Rightarrow> c = CHR ''{'' | _ \<Rightarrow> False)"

lemma text_lead: "has_text v t \<Longrightarrow> t \<noteq> [] \<and> lead v (hd t)"
  by (cases v) (auto simp: atom_text array_text object_text lead_def show_int_def hd_show_nat
      json_stringify_def)

lemma same_lead:
  assumes "has_text v t" "has_text v' t'" "t @ r = t' @ r'"
  shows "lead v (hd t) \<and> lead v' (hd t)"
  using text_lead [OF assms(1)] text_lead [OF assms(2)] assms(3) by (metis hd_append2)

lemma not_digits:
  "\<not> is_digit CHR ''n''" "\<not> is_digit CHR ''t''" "\<not> is_digit CHR ''f''" "\<not> is_digit CHR 0x22"
  "\<not> is_digit CHR ''[''" "\<not> is_digit CHR ''{''" "\<not> is_digit CHR '']''" "\<not> is_digit CHR ''}''"
  by (simp_all add: is_digit_def char_code_def)

lemma lead_not_closing: "lead v c \<Longrightarrow> \<not> closes c"
  by (cases v) (auto simp: lead_def closes_def not_digits split: if_splits)

lemma text_opens: "has_text v t \<Longrightarrow> t \<noteq> [] \<and> \<not> closes (hd t)"
  using text_lead lead_not_closing by blast

lemma member_text_opens: "member_text m t \<Longrightarrow> t \<noteq> [] \<and> \<not> closes (hd t)"
  by (auto simp: member_text_def json_stringify_def closes_def)

text \<open>Two values whose texts start alike are of one constructor.\<close>

fun kind :: "json \<Rightarrow> nat" where
  "kind JUndefined = 0"
| "kind JNull = 1"
| "kind (JBool b) = (if b then 2 else 3)"
| "kind (JNumber _) = 4"
| "kind JNonFinite = 0"
| "kind (JString _) = 5"
| "kind (JArray _) = 6"
| "kind (JObject _) = 7"

lemma lead_kind: "lead v c \<Longrightarrow> lead v' c \<Longrightarrow> kind v = kind v'"
  by (cases v; cases v') (auto simp: lead_def not_digits split: if_splits)

lemma same_kind:
  "has_text v t \<Longrightarrow> has_text v' t' \<Longrightarrow> t @ r = t' @ r' \<Longrightarrow> kind v' = kind v"
  using same_lead lead_kind by metis

lemma readable_member:
  assumes "readable has_text normal val"
  shows "readable member_text (\<lambda>(key, val). (key, normal val)) (key, val)"
  unfolding readable_def
proof (intro allI impI)
  fix y t t' r r'
  assume t: "member_text (key, val) t" and t': "member_text y t'" and eq: "t @ r = t' @ r'"
    and r: "stops r" and r': "stops r'"
  obtain u where u: "has_text val u" "t = json_stringify key @ CHR '':'' # u"
    using t by (auto simp: member_text_def)
  obtain u' where u': "has_text (snd y) u'" "t' = json_stringify (fst y) @ CHR '':'' # u'"
    using t' by (auto simp: member_text_def)
  have "key = fst y \<and> CHR '':'' # u @ r = CHR '':'' # u' @ r'"
    using eq u(2) u'(2) by (intro json_stringify_unique) simp
  then show "(case (key, val) of (key, val) \<Rightarrow> (key, normal val))
      = (case y of (key, val) \<Rightarrow> (key, normal val)) \<and> r = r'"
    using readableD [OF assms u(1) u'(1) _ r r'] by (cases y) simp
qed

lemma readable_json: "readable has_text normal v"
proof (induction v rule: normal.induct)
  case (1 vs)
  show ?case unfolding readable_def
  proof (intro allI impI)
    fix y t t' r r'
    assume t: "has_text (JArray vs) t" and t': "has_text y t'" and eq: "t @ r = t' @ r'"
    obtain ws where y: "y = JArray ws"
      using same_kind [OF t t' eq] by (cases y) (auto split: if_splits)
    obtain ts where ts: "list_all2 has_text vs ts" "t = CHR ''['' # join ts @ '']''"
      using t by (auto simp: array_text)
    obtain us where us: "list_all2 has_text ws us" "t' = CHR ''['' # join us @ '']''"
      using t' y by (auto simp: array_text)
    have "map normal vs = map normal ws \<and> r = r'"
      using 1 text_opens eq ts(2) us(2)
      by (intro join_unique [of "CHR '']''", OF _ _ ts(1) us(1)]) (auto simp: closes_def)
    then show "normal (JArray vs) = normal y \<and> r = r'" using y by simp
  qed
next
  case (2 ms)
  have members: "\<forall>m \<in> set (sorted_members ms).
      readable member_text (\<lambda>(key, val). (key, normal val)) m"
    using 2 readable_member by fastforce
  show ?case unfolding readable_def
  proof (intro allI impI)
    fix y t t' r r'
    assume t: "has_text (JObject ms) t" and t': "has_text y t'" and eq: "t @ r = t' @ r'"
    obtain ns where y: "y = JObject ns"
      using same_kind [OF t t' eq] by (cases y) (auto split: if_splits)
    obtain ts where ts: "list_all2 member_text (sorted_members ms) ts" "t = CHR ''{'' # join ts @ ''}''"
      using t by (auto simp: object_text)
    obtain us where us: "list_all2 member_text (sorted_members ns) us" "t' = CHR ''{'' # join us @ ''}''"
      using t' y by (auto simp: object_text)
    have "map (\<lambda>(key, val). (key, normal val)) (sorted_members ms)
        = map (\<lambda>(key, val). (key, normal val)) (sorted_members ns) \<and> r = r'"
      using members member_text_opens eq ts(2) us(2)
      by (intro join_unique [of "CHR ''}''", OF _ _ ts(1) us(1)]) (auto simp: closes_def)
    then show "normal (JObject ms) = normal y \<and> r = r'" using y by simp
  qed
next
  case (6 n)
  show ?case unfolding readable_def
  proof (intro allI impI)
    fix y t t' r r'
    assume t: "has_text (JNumber n) t" and t': "has_text y t'" and eq: "t @ r = t' @ r'"
      and r: "stops r" and r': "stops r'"
    obtain m where y: "y = JNumber m"
      using same_kind [OF t t' eq] by (cases y) (auto split: if_splits)
    then show "normal (JNumber n) = normal y \<and> r = r'"
      using show_int_unique [OF _ r r'] t t' eq by (simp add: atom_text)
  qed
next
  case (8 s)
  show ?case unfolding readable_def
  proof (intro allI impI)
    fix y t t' r r'
    assume t: "has_text (JString s) t" and t': "has_text y t'" and eq: "t @ r = t' @ r'"
    obtain u where y: "y = JString u"
      using same_kind [OF t t' eq] by (cases y) (auto split: if_splits)
    then show "normal (JString s) = normal y \<and> r = r'"
      using json_stringify_unique [of s r u r'] t t' eq by (simp add: atom_text)
  qed
next
  case (5 b)
  show ?case unfolding readable_def
  proof (intro allI impI)
    fix y t t' r r'
    assume t: "has_text (JBool b) t" and t': "has_text y t'" and eq: "t @ r = t' @ r'"
    have "y = JBool b" using same_kind [OF t t' eq] by (cases y) (auto split: if_splits)
    then show "normal (JBool b) = normal y \<and> r = r'" using t t' eq by (simp add: atom_text)
  qed
next
  case 4
  show ?case unfolding readable_def
  proof (intro allI impI)
    fix y t t' r r'
    assume t: "has_text JNull t" and t': "has_text y t'" and eq: "t @ r = t' @ r'"
    have "y = JNull" using same_kind [OF t t' eq] by (cases y) (auto split: if_splits)
    then show "normal JNull = normal y \<and> r = r'" using t t' eq by (simp add: atom_text)
  qed
qed (simp_all add: readable_def atom_text)

section \<open>The text is canonical\<close>

lemma sorted_members_normal:
  "sorted_members (map (\<lambda>(key, val). (key, normal val)) (sorted_members ms))
     = map (\<lambda>(key, val). (key, normal val)) (sorted_members ms)"
proof -
  have "map fst (map (\<lambda>(key, val). (key, normal val)) (sorted_members ms)) = map fst (sorted_members ms)"
    by (simp add: case_prod_beta o_def)
  moreover have "sorted (map fst (sorted_members ms))"
    unfolding sorted_members_def by (rule sorted_sort_key)
  ultimately show ?thesis unfolding sorted_members_def by (metis sort_key_id_if_sorted)
qed

lemma normal_undefined [simp]: "normal v = JUndefined \<longleftrightarrow> v = JUndefined"
  by (cases v) auto

lemma serialize_normal: "serialize (normal v) = serialize v"
proof (induction v rule: normal.induct)
  case (1 vs)
  then have "map serialize (map normal vs) = map serialize vs" by simp
  then show ?case by (simp del: map_map)
next
  case (2 ms)
  have "(case (case m of (key, val) \<Rightarrow> (key, normal val)) of (key, val) \<Rightarrow>
           if val = JUndefined then Inl (context_error NotJson)
           else res_bind (serialize val) (\<lambda>t. Inr (json_stringify key @ CHR '':'' # t)))
      = (case m of (key, val) \<Rightarrow>
           if val = JUndefined then Inl (context_error NotJson)
           else res_bind (serialize val) (\<lambda>t. Inr (json_stringify key @ CHR '':'' # t)))"
    if m: "m \<in> set (sorted_members ms)" for m
  proof (cases m)
    case (Pair key val)
    then have "serialize (normal val) = serialize val" using 2 [OF m] by simp
    then show ?thesis using Pair by simp
  qed
  then have "map (\<lambda>(key, val). if val = JUndefined then Inl (context_error NotJson)
           else res_bind (serialize val) (\<lambda>t. Inr (json_stringify key @ CHR '':'' # t)))
         (map (\<lambda>(key, val). (key, normal val)) (sorted_members ms))
      = map (\<lambda>(key, val). if val = JUndefined then Inl (context_error NotJson)
           else res_bind (serialize val) (\<lambda>t. Inr (json_stringify key @ CHR '':'' # t)))
         (sorted_members ms)"
    unfolding map_map o_def by (rule map_cong [OF refl])
  then show ?case by (simp only: normal.simps serialize.simps sorted_members_normal)
qed simp_all

lemma canonical_eq_iff:
  assumes "canonicalJson a = Inr s" and "canonicalJson b = Inr t"
  shows "s = t \<longleftrightarrow> normal a = normal b"
proof
  assume "s = t"
  then have "has_text a t" "has_text b t"
    using assms by (simp_all add: has_text_def canonicalJson_def)
  then show "normal a = normal b"
    using readableD [OF readable_json, of a t b t "[]" "[]"] by (simp add: stops_def)
next
  assume "normal a = normal b"
  then show "s = t"
    using assms serialize_normal [of a] serialize_normal [of b] by (simp add: canonicalJson_def)
qed

text \<open>
  C18: the text that is hashed identifies the request. Two JSON values with a canonical text have
  the same text exactly when they are equal up to the order of object members, at any depth: a
  reordered retry hashes alike, and two different payloads never share a canonical text, so an
  accidental hash match is a SHA-256 collision.
\<close>

theorem canonical_text_identifies_value:
  assumes "canonicalJson a = Inr s" and "canonicalJson b = Inr t"
  shows "s = t \<longleftrightarrow> normal a = normal b"
  by (rule canonical_eq_iff [OF assms])

theorem canonical_text_identifies_value_witness:
  "normal (JObject [(''b'', JNumber 1), (''a'', JArray [JNull])])
     = normal (JObject [(''a'', JArray [JNull]), (''b'', JNumber 1)])"
proof -
  let ?a = "JObject [(''b'', JNumber 1), (''a'', JArray [JNull])]"
  let ?b = "JObject [(''a'', JArray [JNull]), (''b'', JNumber 1)]"
  have "sorted_members [(''b'', JNumber 1), (''a'', JArray [JNull])]
        = [(''a'', JArray [JNull]), (''b'', JNumber 1)]"
    "sorted_members [(''a'', JArray [JNull]), (''b'', JNumber 1)]
        = [(''a'', JArray [JNull]), (''b'', JNumber 1)]"
    by (simp_all add: sorted_members_def)
  then have "\<exists>s. canonicalJson ?a = Inr s \<and> canonicalJson ?b = Inr s"
    by (simp add: canonicalJson_def)
  then show ?thesis using canonical_text_identifies_value [of ?a _ ?b] by blast
qed

end
