(* ===== verification/Contexts.thy ===== *)
theory Contexts
  imports Permissions Contract Json
begin

text \<open>
  The principal contexts (\<open>runtime/context/types.ts\<close>) and the only functions that build them
  (\<open>runtime/context/factories.ts\<close>), with the UUID pattern of \<open>runtime/patterns.ts\<close>. The part
  of the database they read is \<open>tenancy\<close>: companies, members and role defaults. A
  \<open>uuid\<close> column compares as PostgreSQL's type does, without regard to the case of the digits.
  The run-time bindings that a context carries as closures (emit, enqueue, call, callAtomic,
  auditTarget, signal) are the operations of a handler program and have no field here.
\<close>

section \<open>Patterns\<close>

definition to_lower :: "char \<Rightarrow> char" where
  "to_lower c = (if is_upper c then char_of (char_code c + 32) else c)"

definition uuid_eq :: "js_string \<Rightarrow> js_string \<Rightarrow> bool" where
  "uuid_eq a b = (map to_lower a = map to_lower b)"

definition UUID_PATTERN :: "js_string \<Rightarrow> bool" where
  "UUID_PATTERN s =
     (map length (split_on CHR ''-'' s) = [8, 4, 4, 4, 12]
      \<and> list_all (list_all is_hex_digit) (split_on CHR ''-'' s))"

section \<open>Data\<close>

datatype actor = UserActor js_string | SystemActor js_string | AnonymousActor

primrec actor_type :: "actor \<Rightarrow> js_string" where
  "actor_type (UserActor _) = ''user''"
| "actor_type (SystemActor _) = ''system''"
| "actor_type AnonymousActor = ''anonymous''"

primrec actor_id :: "actor \<Rightarrow> js_string" where
  "actor_id (UserActor i) = i"
| "actor_id (SystemActor i) = i"
| "actor_id AnonymousActor = ''anonymous''"

definition SHARE_DURABLE_ACTOR :: actor where
  "SHARE_DURABLE_ACTOR = SystemActor ''share''"

record request_meta =
  rq_action :: js_string
  rq_requestId :: js_string
  rq_correlationId :: js_string
  rq_channel :: channel
  rq_clientIp :: "js_string option"
  rq_aiTraceId :: "js_string option"
  rq_toolCallId :: "js_string option"

text \<open>What the \<open>db\<close> field of a context lets a handler do.\<close>

datatype db_capability = WritableTx | ReadOnlyTx | ProjectionTx js_string

fun createReadTx :: "db_capability \<Rightarrow> db_capability" where
  "createReadTx WritableTx = ReadOnlyTx"
| "createReadTx ReadOnlyTx = ReadOnlyTx"
| "createReadTx (ProjectionTx g) = ProjectionTx g"

record context_runtime =
  rt_db :: db_capability
  rt_deadline :: ms

record log_bindings =
  lb_request_id :: js_string
  lb_correlation_id :: js_string
  lb_action :: js_string
  lb_channel :: channel
  lb_actor_type :: js_string
  lb_actor_id :: js_string
  lb_company_id :: "js_string option"
  lb_ai_trace_id :: "js_string option"
  lb_tool_call_id :: "js_string option"

record base_ctx =
  bc_db :: db_capability
  bc_requestId :: js_string
  bc_correlationId :: js_string
  bc_actor :: actor
  bc_channel :: channel
  bc_clientIp :: "js_string option"
  bc_aiTraceId :: "js_string option"
  bc_toolCallId :: "js_string option"
  bc_deadline :: ms
  bc_log :: log_bindings

record resolved_target =
  tg_companyId :: js_string
  tg_resource :: json
  tg_tokenHash :: "js_string option"

datatype action_ctx =
    StaffCtx base_ctx js_string js_string staff_membership
  | CustomerCtx base_ctx js_string resolved_target
  | PublicTargetCtx base_ctx js_string resolved_target
  | PublicGlobalCtx base_ctx js_string js_string
  | SystemTenantCtx base_ctx js_string js_string
  | SystemGlobalCtx base_ctx js_string
  | ConsumerCtx base_ctx js_string js_string
  | AccountCtx base_ctx js_string js_string
  | ShareCtx base_ctx js_string resolved_target js_string

primrec ctx_base :: "action_ctx \<Rightarrow> base_ctx" where
  "ctx_base (StaffCtx b _ _ _) = b"
| "ctx_base (CustomerCtx b _ _) = b"
| "ctx_base (PublicTargetCtx b _ _) = b"
| "ctx_base (PublicGlobalCtx b _ _) = b"
| "ctx_base (SystemTenantCtx b _ _) = b"
| "ctx_base (SystemGlobalCtx b _) = b"
| "ctx_base (ConsumerCtx b _ _) = b"
| "ctx_base (AccountCtx b _ _) = b"
| "ctx_base (ShareCtx b _ _ _) = b"

primrec ctx_principal :: "action_ctx \<Rightarrow> principal" where
  "ctx_principal (StaffCtx _ _ _ _) = Staff"
| "ctx_principal (CustomerCtx _ _ _) = Customer"
| "ctx_principal (PublicTargetCtx _ _ _) = Public"
| "ctx_principal (PublicGlobalCtx _ _ _) = Public"
| "ctx_principal (SystemTenantCtx _ _ _) = System"
| "ctx_principal (SystemGlobalCtx _ _) = System"
| "ctx_principal (ConsumerCtx _ _ _) = Consumer"
| "ctx_principal (AccountCtx _ _ _) = Account"
| "ctx_principal (ShareCtx _ _ _ _) = Share"

primrec effectiveCompanyId :: "action_ctx \<Rightarrow> js_string option" where
  "effectiveCompanyId (StaffCtx _ _ companyId _) = Some companyId"
| "effectiveCompanyId (CustomerCtx _ _ target) = Some (tg_companyId target)"
| "effectiveCompanyId (PublicTargetCtx _ _ target) = Some (tg_companyId target)"
| "effectiveCompanyId (PublicGlobalCtx _ _ _) = None"
| "effectiveCompanyId (SystemTenantCtx _ _ companyId) = Some companyId"
| "effectiveCompanyId (SystemGlobalCtx _ _) = None"
| "effectiveCompanyId (ConsumerCtx _ _ _) = None"
| "effectiveCompanyId (AccountCtx _ _ _) = None"
| "effectiveCompanyId (ShareCtx _ _ target _) = Some (tg_companyId target)"

section \<open>The tenancy tables\<close>

record member_row =
  mr_companyId :: js_string
  mr_userId :: js_string
  mr_role :: js_string
  mr_permissions :: member_permissions

record 'm tenancy =
  tn_companies :: "js_string list"
  tn_members :: "member_row list"
  tn_roleDefaults :: "(js_string \<times> js_string) list"
  tn_domain :: 'm

text \<open>The membership query: a left join, one row per role default and one row when there is none.\<close>

definition membership_rows ::
  "'m tenancy \<Rightarrow> js_string \<Rightarrow> js_string \<Rightarrow> (js_string \<times> member_permissions \<times> js_string option) list" where
  "membership_rows tn companyId userId =
     concat (map (\<lambda>m.
         case filter (\<lambda>(role, _). role = mr_role m) (tn_roleDefaults tn) of
           [] \<Rightarrow> [(mr_role m, mr_permissions m, None)]
         | ds \<Rightarrow> map (\<lambda>(_, permission). (mr_role m, mr_permissions m, Some permission)) ds)
       (filter (\<lambda>m. uuid_eq (mr_companyId m) companyId \<and> mr_userId m = userId) (tn_members tn)))"

section \<open>Factories\<close>

definition requireSession :: "js_string option \<Rightarrow> core_error + js_string" where
  "requireSession session =
     (case session of
        None \<Rightarrow> Inl (PermissionDeniedError ''Authentication required.'')
      | Some userId \<Rightarrow> Inr userId)"

definition requireClientIp :: "'r request_meta_scheme \<Rightarrow> core_error + js_string" where
  "requireClientIp request =
     (case rq_clientIp request of
        None \<Rightarrow> Inl (context_error MissingClientIp)
      | Some ip \<Rightarrow> Inr ip)"

definition assertInheritedCompany :: "js_string \<Rightarrow> js_string option \<Rightarrow> core_error + unit" where
  "assertInheritedCompany resolvedCompanyId inheritedCompanyId =
     (if inheritedCompanyId \<noteq> None \<and> inheritedCompanyId \<noteq> Some resolvedCompanyId
      then Inl (context_error InheritedCompanyMismatch) else Inr ())"

definition buildBase ::
  "'r request_meta_scheme \<Rightarrow> context_runtime \<Rightarrow> db_capability \<Rightarrow> actor \<Rightarrow> js_string option \<Rightarrow> base_ctx" where
  "buildBase request runtime db actor' companyId = \<lparr>
     bc_db = db,
     bc_requestId = rq_requestId request,
     bc_correlationId = rq_correlationId request,
     bc_actor = actor',
     bc_channel = rq_channel request,
     bc_clientIp = rq_clientIp request,
     bc_aiTraceId = rq_aiTraceId request,
     bc_toolCallId = rq_toolCallId request,
     bc_deadline = rt_deadline runtime,
     bc_log = \<lparr>
       lb_request_id = rq_requestId request,
       lb_correlation_id = rq_correlationId request,
       lb_action = rq_action request,
       lb_channel = rq_channel request,
       lb_actor_type = actor_type actor',
       lb_actor_id = actor_id actor',
       lb_company_id = companyId,
       lb_ai_trace_id = rq_aiTraceId request,
       lb_tool_call_id = rq_toolCallId request\<rparr>\<rparr>"

definition no_active_company :: core_error where
  "no_active_company = PermissionDeniedError ''No active company is selected.''"

definition not_a_member :: core_error where
  "not_a_member = PermissionDeniedError ''You are not a member of the selected company.''"

definition createStaffContext ::
  "'m tenancy \<Rightarrow> 'r request_meta_scheme \<Rightarrow> context_runtime \<Rightarrow> js_string option \<Rightarrow> js_string option \<Rightarrow>
     core_error + action_ctx" where
  "createStaffContext tn request runtime session companySelector =
     (case requireSession session of
        Inl e \<Rightarrow> Inl e
      | Inr userId \<Rightarrow>
     (case companySelector of
        None \<Rightarrow> Inl no_active_company
      | Some selector \<Rightarrow>
     (if \<not> UUID_PATTERN selector then Inl no_active_company
      else let rows = membership_rows tn selector userId in
     (case rows of
        [] \<Rightarrow> Inl not_a_member
      | (role, permissions, _) # _ \<Rightarrow>
     (if \<not> isCompanyRole role then Inl (context_error UnknownRole)
      else let membership = \<lparr>mb_role = the (company_role_of role),
             mb_permissions = resolveEffectivePermissions permissions
               (concat (map (\<lambda>(_, _, d). case d of None \<Rightarrow> [] | Some p \<Rightarrow> [p]) rows))\<rparr>
        in Inr (StaffCtx
             (buildBase request runtime (rt_db runtime) (UserActor userId) (Some selector))
             userId selector membership))))))"

datatype resolution_principal = ResolveCustomer js_string | ResolvePublic | ResolveShare

record resolution_env =
  re_principal :: resolution_principal
  re_inheritedCompanyId :: "js_string option"

text \<open>A bound resolver, applied to the input and to the read-only view of the transaction.\<close>

type_synonym resolver = "resolution_env \<Rightarrow> thrown + resolved_target"

definition createCustomerContext ::
  "'r request_meta_scheme \<Rightarrow> context_runtime \<Rightarrow> js_string option \<Rightarrow> resolver \<Rightarrow> js_string option \<Rightarrow>
     thrown + action_ctx" where
  "createCustomerContext request runtime session resolveTarget inheritedCompanyId =
     (case requireSession session of
        Inl e \<Rightarrow> Inl (Typed e)
      | Inr userId \<Rightarrow>
     (case resolveTarget \<lparr>re_principal = ResolveCustomer userId,
              re_inheritedCompanyId = inheritedCompanyId\<rparr> of
        Inl e \<Rightarrow> Inl e
      | Inr target \<Rightarrow>
     (case assertInheritedCompany (tg_companyId target) inheritedCompanyId of
        Inl e \<Rightarrow> Inl (Typed e)
      | Inr _ \<Rightarrow> Inr (CustomerCtx
           (buildBase request runtime (rt_db runtime) (UserActor userId)
              (Some (tg_companyId target)))
           userId target))))"

datatype public_scope_input =
    PublicTargetInput resolver "js_string option"
  | PublicGlobalInput js_string

definition createPublicContext ::
  "'r request_meta_scheme \<Rightarrow> context_runtime \<Rightarrow> public_scope_input \<Rightarrow> thrown + action_ctx" where
  "createPublicContext request runtime options =
     (case requireClientIp request of
        Inl e \<Rightarrow> Inl (Typed e)
      | Inr clientIp \<Rightarrow>
     (case options of
        PublicGlobalInput grantId \<Rightarrow> Inr (PublicGlobalCtx
          (buildBase request runtime (ProjectionTx grantId) AnonymousActor None) clientIp grantId)
      | PublicTargetInput resolveTarget inheritedCompanyId \<Rightarrow>
     (case resolveTarget \<lparr>re_principal = ResolvePublic,
              re_inheritedCompanyId = inheritedCompanyId\<rparr> of
        Inl e \<Rightarrow> Inl e
      | Inr target \<Rightarrow>
     (case assertInheritedCompany (tg_companyId target) inheritedCompanyId of
        Inl e \<Rightarrow> Inl (Typed e)
      | Inr _ \<Rightarrow> Inr (PublicTargetCtx
          (buildBase request runtime (createReadTx (rt_db runtime)) AnonymousActor
             (Some (tg_companyId target))) clientIp target)))))"

datatype system_scope_input = TenantScope js_string | GlobalScopeInput

definition createSystemContext ::
  "js_string \<Rightarrow> system_scope_input \<Rightarrow> 'r request_meta_scheme \<Rightarrow> context_runtime \<Rightarrow>
     core_error + action_ctx" where
  "createSystemContext serviceName scope request runtime =
     (if serviceName = [] then Inl (context_error EmptyServiceName)
      else case scope of
        TenantScope companyId \<Rightarrow>
          (if \<not> UUID_PATTERN companyId then Inl (context_error MalformedTenantCompany)
           else Inr (SystemTenantCtx
             (buildBase request runtime (rt_db runtime) (SystemActor serviceName)
                (Some companyId)) serviceName companyId))
      | GlobalScopeInput \<Rightarrow> Inr (SystemGlobalCtx
          (buildBase request runtime (rt_db runtime) (SystemActor serviceName) None) serviceName))"

text \<open>
  Both variants of the row lookup (with and without \<open>FOR KEY SHARE\<close>) read the same row; the
  lock only keeps the company from being deleted until the transaction ends.
\<close>

definition createExistingCompanySystemContext ::
  "'m tenancy \<Rightarrow> js_string \<Rightarrow> system_scope_input \<Rightarrow> 'r request_meta_scheme \<Rightarrow> context_runtime \<Rightarrow>
     core_error + action_ctx" where
  "createExistingCompanySystemContext tn serviceName scope request runtime =
     (case createSystemContext serviceName scope request runtime of
        Inl e \<Rightarrow> Inl e
      | Inr ctx \<Rightarrow>
     (case scope of
        GlobalScopeInput \<Rightarrow> Inr ctx
      | TenantScope companyId \<Rightarrow>
          (if length (filter (\<lambda>i. uuid_eq i companyId) (tn_companies tn)) = 0
           then Inl not_found else Inr ctx)))"

definition createConsumerContext ::
  "'r request_meta_scheme \<Rightarrow> context_runtime \<Rightarrow> js_string option \<Rightarrow> core_error + action_ctx" where
  "createConsumerContext request runtime session =
     (case requireSession session of
        Inl e \<Rightarrow> Inl e
      | Inr userId \<Rightarrow>
     (case requireClientIp request of
        Inl e \<Rightarrow> Inl e
      | Inr clientIp \<Rightarrow> Inr (ConsumerCtx
          (buildBase request runtime (createReadTx (rt_db runtime)) (UserActor userId) None)
          userId clientIp)))"

definition createAccountContext ::
  "'r request_meta_scheme \<Rightarrow> context_runtime \<Rightarrow> js_string option \<Rightarrow> core_error + action_ctx" where
  "createAccountContext request runtime session =
     (case requireSession session of
        Inl e \<Rightarrow> Inl e
      | Inr userId \<Rightarrow>
     (case requireClientIp request of
        Inl e \<Rightarrow> Inl e
      | Inr clientIp \<Rightarrow> Inr (AccountCtx
          (buildBase request runtime (rt_db runtime) (UserActor userId) None)
          userId clientIp)))"

definition createShareContext ::
  "'r request_meta_scheme \<Rightarrow> context_runtime \<Rightarrow> resolver \<Rightarrow> js_string option \<Rightarrow> thrown + action_ctx" where
  "createShareContext request runtime resolveTarget inheritedCompanyId =
     (case requireClientIp request of
        Inl e \<Rightarrow> Inl (Typed e)
      | Inr clientIp \<Rightarrow>
     (case resolveTarget \<lparr>re_principal = ResolveShare,
              re_inheritedCompanyId = inheritedCompanyId\<rparr> of
        Inl e \<Rightarrow> Inl e
      | Inr resolved \<Rightarrow>
     (case assertInheritedCompany (tg_companyId resolved) inheritedCompanyId of
        Inl e \<Rightarrow> Inl (Typed e)
      | Inr _ \<Rightarrow>
     (case tg_tokenHash resolved of
        None \<Rightarrow> Inl (Typed (context_error MissingTokenHash))
      | Some tokenHash \<Rightarrow>
          (if tokenHash = [] then Inl (Typed (context_error MissingTokenHash))
           else Inr (ShareCtx
             (buildBase request runtime (rt_db runtime) AnonymousActor
                (Some (tg_companyId resolved)))
             clientIp (resolved\<lparr>tg_tokenHash := None\<rparr>) tokenHash))))))"

section \<open>What a context guarantees\<close>

text \<open>
  The invariant of every context: its log bindings name its own actor and its effective company,
  its actor is the one its mode allows, and a public or consumer context cannot write.
\<close>

definition ctx_actor_ok :: "action_ctx \<Rightarrow> bool" where
  "ctx_actor_ok ctx \<longleftrightarrow> bc_actor (ctx_base ctx) =
     (case ctx of
        StaffCtx _ userId _ _ \<Rightarrow> UserActor userId
      | CustomerCtx _ userId _ \<Rightarrow> UserActor userId
      | PublicTargetCtx _ _ _ \<Rightarrow> AnonymousActor
      | PublicGlobalCtx _ _ _ \<Rightarrow> AnonymousActor
      | SystemTenantCtx _ serviceName _ \<Rightarrow> SystemActor serviceName
      | SystemGlobalCtx _ serviceName \<Rightarrow> SystemActor serviceName
      | ConsumerCtx _ userId _ \<Rightarrow> UserActor userId
      | AccountCtx _ userId _ \<Rightarrow> UserActor userId
      | ShareCtx _ _ _ _ \<Rightarrow> AnonymousActor)"

definition ctx_inv :: "action_ctx \<Rightarrow> bool" where
  "ctx_inv ctx \<longleftrightarrow>
     ctx_actor_ok ctx
     \<and> lb_company_id (bc_log (ctx_base ctx)) = effectiveCompanyId ctx
     \<and> lb_actor_type (bc_log (ctx_base ctx)) = actor_type (bc_actor (ctx_base ctx))
     \<and> lb_actor_id (bc_log (ctx_base ctx)) = actor_id (bc_actor (ctx_base ctx))
     \<and> (ctx_principal ctx = Public \<or> ctx_principal ctx = Consumer \<longrightarrow> bc_db (ctx_base ctx) \<noteq> WritableTx)"

lemma createReadTx_not_writable [simp]: "createReadTx db \<noteq> WritableTx"
  by (cases db) simp_all

lemma buildBase_sel [simp]:
  "bc_db (buildBase rq rt db a c) = db"
  "bc_actor (buildBase rq rt db a c) = a"
  "bc_deadline (buildBase rq rt db a c) = rt_deadline rt"
  "bc_correlationId (buildBase rq rt db a c) = rq_correlationId rq"
  "bc_requestId (buildBase rq rt db a c) = rq_requestId rq"
  "lb_company_id (bc_log (buildBase rq rt db a c)) = c"
  "lb_actor_type (bc_log (buildBase rq rt db a c)) = actor_type a"
  "lb_actor_id (bc_log (buildBase rq rt db a c)) = actor_id a"
  by (simp_all add: buildBase_def)

lemma requireSession_Inr: "requireSession s = Inr u \<longleftrightarrow> s = Some u"
  by (auto simp: requireSession_def split: option.splits)

lemma requireClientIp_Inr: "requireClientIp rq = Inr ip \<longleftrightarrow> rq_clientIp rq = Some ip"
  by (auto simp: requireClientIp_def split: option.splits)

lemma assertInheritedCompany_Inr:
  "assertInheritedCompany c i = Inr x \<longleftrightarrow> i = None \<or> i = Some c"
  by (auto simp: assertInheritedCompany_def)

lemma membership_rows_role:
  assumes "(role, permissions, d) \<in> set (membership_rows tn c u)"
  shows "\<exists>m \<in> set (tn_members tn). uuid_eq (mr_companyId m) c \<and> mr_userId m = u
    \<and> mr_role m = role \<and> mr_permissions m = permissions
    \<and> (\<forall>p. d = Some p \<longrightarrow> (role, p) \<in> set (tn_roleDefaults tn))"
proof -
  obtain m where m: "m \<in> set (tn_members tn)" "uuid_eq (mr_companyId m) c" "mr_userId m = u"
    "(role, permissions, d) \<in> set
      (case filter (\<lambda>(role, _). role = mr_role m) (tn_roleDefaults tn) of
         [] \<Rightarrow> [(mr_role m, mr_permissions m, None)]
       | ds \<Rightarrow> map (\<lambda>(_, permission). (mr_role m, mr_permissions m, Some permission)) ds)"
    using assms by (auto simp: membership_rows_def)
  show ?thesis
  proof (cases "filter (\<lambda>(role, _). role = mr_role m) (tn_roleDefaults tn)")
    case Nil
    then show ?thesis using m by auto
  next
    case (Cons e es)
    have default: "x \<in> set (tn_roleDefaults tn) \<and> fst x = mr_role m" if "x \<in> set (e # es)" for x
      using that unfolding Cons [symmetric] by auto
    obtain x where "x \<in> set (e # es)" "(role, permissions, d) = (mr_role m, mr_permissions m, Some (snd x))"
      using m(4) unfolding Cons list.case set_map case_prod_beta by blast
    then show ?thesis using m(1-3) default [of x] by (intro bexI [of _ m]) (cases x, simp_all)
  qed
qed

text \<open>
  A staff context is proved by a membership row. It exists only for an authenticated user
  with a well-formed selector whose own membership row of that company names a known role, and
  it carries exactly the effective permissions of that row: the defaults of its role and its
  grants, without anything that requires one of its denials.
\<close>

theorem staff_context_proves_membership:
  assumes "createStaffContext tn request runtime session selector = Inr ctx"
  shows "\<exists>userId companyId role m. session = Some userId \<and> selector = Some companyId
     \<and> UUID_PATTERN companyId \<and> m \<in> set (tn_members tn) \<and> uuid_eq (mr_companyId m) companyId
     \<and> mr_userId m = userId \<and> company_role_of (mr_role m) = Some role
     \<and> ctx = StaffCtx (buildBase request runtime (rt_db runtime) (UserActor userId) (Some companyId))
          userId companyId \<lparr>mb_role = role,
            mb_permissions = resolveEffectivePermissions (mr_permissions m)
              (concat (map (\<lambda>(_, _, d). case d of None \<Rightarrow> [] | Some p \<Rightarrow> [p])
                 (membership_rows tn companyId userId)))\<rparr>"
proof -
  obtain userId companyId where u: "session = Some userId" and c: "selector = Some companyId"
    "UUID_PATTERN companyId"
    using assms by (auto simp: createStaffContext_def requireSession_def
        split: option.splits sum.splits if_splits)
  obtain role permissions d rows where rows:
    "membership_rows tn companyId userId = (role, permissions, d) # rows" "isCompanyRole role"
    using assms u c by (auto simp: createStaffContext_def requireSession_def Let_def
        split: list.splits if_splits)
  obtain r where r: "company_role_of role = Some r" using rows(2) isCompanyRole_iff by blast
  obtain m where m: "m \<in> set (tn_members tn)" "uuid_eq (mr_companyId m) companyId"
    "mr_userId m = userId" "mr_role m = role" "mr_permissions m = permissions"
    using membership_rows_role [of role permissions d tn companyId userId] rows(1) by auto
  have "ctx = StaffCtx (buildBase request runtime (rt_db runtime) (UserActor userId) (Some companyId))
          userId companyId \<lparr>mb_role = r,
            mb_permissions = resolveEffectivePermissions permissions
              (concat (map (\<lambda>(_, _, d). case d of None \<Rightarrow> [] | Some p \<Rightarrow> [p])
                 (membership_rows tn companyId userId)))\<rparr>"
    using assms u c rows r by (simp add: createStaffContext_def requireSession_def Let_def)
  then show ?thesis using u c m r by blast
qed

text \<open>
  C29: a denied staff caller learns nothing about other tenants. The outcome, error included,
  is a function of the role defaults and of the caller's own membership rows: two databases
  that agree on those give the same result, whatever companies and members they hold beside.
\<close>

theorem staff_context_hides_other_tenants:
  assumes "filter (\<lambda>m. session = Some (mr_userId m)) (tn_members tn)
         = filter (\<lambda>m. session = Some (mr_userId m)) (tn_members tn')"
    and "tn_roleDefaults tn = tn_roleDefaults tn'"
  shows "createStaffContext tn request runtime session selector
       = createStaffContext tn' request runtime session selector"
proof (cases session)
  case None
  then show ?thesis by (simp add: createStaffContext_def requireSession_def)
next
  case (Some u)
  have "filter (\<lambda>m. uuid_eq (mr_companyId m) c \<and> mr_userId m = u) ms
      = filter (\<lambda>m. uuid_eq (mr_companyId m) c) (filter (\<lambda>m. session = Some (mr_userId m)) ms)" for c ms
    using Some by (auto simp: filter_filter intro: filter_cong)
  then have "filter (\<lambda>m. uuid_eq (mr_companyId m) c \<and> mr_userId m = u) (tn_members tn)
      = filter (\<lambda>m. uuid_eq (mr_companyId m) c \<and> mr_userId m = u) (tn_members tn')" for c
    using assms(1) by metis
  then have "membership_rows tn c u = membership_rows tn' c u" for c
    unfolding membership_rows_def using assms(2) by simp
  then show ?thesis
    using Some by (cases selector) (simp_all add: createStaffContext_def requireSession_def)
qed

section \<open>A sample database\<close>

definition sample_company :: js_string where
  "sample_company = ''0a000000-0000-4000-8000-000000000001''"

definition sample_company_upper :: js_string where
  "sample_company_upper = ''0A000000-0000-4000-8000-000000000001''"

definition sample_tenancy :: "unit tenancy" where
  "sample_tenancy = \<lparr>tn_companies = [sample_company],
     tn_members = [\<lparr>mr_companyId = sample_company, mr_userId = ''u1'', mr_role = ''manager'',
        mr_permissions = \<lparr>granted = [''orders:edit''], denied = []\<rparr>\<rparr>],
     tn_roleDefaults = [], tn_domain = ()\<rparr>"

definition sample_request :: request_meta where
  "sample_request = \<lparr>rq_action = ''orders.confirm'', rq_requestId = ''r1'',
     rq_correlationId = ''r1'', rq_channel = Ui, rq_clientIp = Some ''10.0.0.1'',
     rq_aiTraceId = None, rq_toolCallId = None\<rparr>"

definition sample_runtime :: context_runtime where
  "sample_runtime = \<lparr>rt_db = WritableTx, rt_deadline = 10000\<rparr>"

lemma sample_uuids [simp]:
  "UUID_PATTERN sample_company" "UUID_PATTERN sample_company_upper"
  by (simp_all add: UUID_PATTERN_def sample_company_def sample_company_upper_def is_hex_digit_def
      is_digit_def char_code_def)

lemma sample_uuid_eq [simp]:
  "uuid_eq sample_company sample_company_upper" "uuid_eq sample_company sample_company"
  by code_simp+

lemma sample_role [simp]: "isCompanyRole ''manager''" "company_role_of ''manager'' = Some Manager"
  by (simp_all add: isCompanyRole_def company_role_of_def COMPANY_ROLES_def)

lemma sample_staff_context:
  assumes "selector = sample_company \<or> selector = sample_company_upper"
  shows "\<exists>ms. createStaffContext sample_tenancy sample_request sample_runtime (Some ''u1'') (Some selector)
     = Inr (StaffCtx (buildBase sample_request sample_runtime WritableTx (UserActor ''u1'') (Some selector))
         ''u1'' selector ms)"
proof -
  have "membership_rows sample_tenancy selector ''u1''
      = [(''manager'', \<lparr>granted = [''orders:edit''], denied = []\<rparr>, None)]"
    using assms by (auto simp: membership_rows_def sample_tenancy_def)
  then show ?thesis
    using assms by (auto simp: createStaffContext_def requireSession_def sample_runtime_def)
qed

theorem staff_context_proves_membership_witness:
  "\<exists>m \<in> set (tn_members sample_tenancy). mr_userId m = ''u1''
     \<and> uuid_eq (mr_companyId m) sample_company"
proof -
  obtain ms where "createStaffContext sample_tenancy sample_request sample_runtime (Some ''u1'')
      (Some sample_company) = Inr (StaffCtx (buildBase sample_request sample_runtime WritableTx
        (UserActor ''u1'') (Some sample_company)) ''u1'' sample_company ms)"
    using sample_staff_context by blast
  from staff_context_proves_membership [OF this] show ?thesis by auto
qed

theorem staff_context_hides_other_tenants_witness:
  "createStaffContext sample_tenancy sample_request sample_runtime (Some ''u2'') (Some sample_company)
   = createStaffContext (sample_tenancy\<lparr>tn_companies := [], tn_members := []\<rparr>) sample_request
       sample_runtime (Some ''u2'') (Some sample_company)"
  by (rule staff_context_hides_other_tenants) (simp_all add: sample_tenancy_def)

text \<open>
  C32: the company scope of a staff context is spelled as the selector is, not as the verified row:
  a selector in capital letters passes the pattern and matches the row, and
  \<^const>\<open>effectiveCompanyId\<close> then differs from the row's id as a string.
\<close>

theorem staff_scope_keeps_selector_spelling:
  "\<exists>ctx. createStaffContext sample_tenancy sample_request sample_runtime (Some ''u1'')
       (Some sample_company_upper) = Inr ctx
     \<and> effectiveCompanyId ctx = Some sample_company_upper
     \<and> map mr_companyId (tn_members sample_tenancy) = [sample_company]
     \<and> sample_company \<noteq> sample_company_upper"
proof -
  have "map mr_companyId (tn_members sample_tenancy) = [sample_company]"
    "sample_company \<noteq> sample_company_upper"
    by (simp_all add: sample_tenancy_def sample_company_def sample_company_upper_def)
  then show ?thesis using sample_staff_context [of sample_company_upper] by auto
qed

end
