(* ===== verification/Authorization.thy ===== *)
theory Authorization
  imports Contexts Implementation
begin

text \<open>
  The authorization part of the pipeline (\<open>runtime/pipeline/execute-action.ts\<close>): the checks of
  step 2, the preflight of step 4 and the construction of the principal context that steps 5 and
  7 run inside their transactions. The shapes are those of \<open>runtime/pipeline/types.ts\<close>.
\<close>

section \<open>The invocation\<close>

record hook_request_meta = request_meta +
  rq_causationId :: "js_string option"
  rq_idempotencyKey :: "js_string option"
  rq_confirmationChallengeId :: "js_string option"
  rq_requireConfirmation :: bool
  rq_confirmationOnly :: bool

datatype principal_invocation =
    InvokeStaff "js_string option" "js_string option"
  | InvokeCustomer "js_string option"
  | InvokePublic
  | InvokeSystem js_string system_scope_input bool
  | InvokeConsumer "js_string option"
  | InvokeAccount "js_string option"
  | InvokeShare

primrec invocation_mode :: "principal_invocation \<Rightarrow> principal" where
  "invocation_mode (InvokeStaff _ _) = Staff"
| "invocation_mode (InvokeCustomer _) = Customer"
| "invocation_mode InvokePublic = Public"
| "invocation_mode (InvokeSystem _ _ _) = System"
| "invocation_mode (InvokeConsumer _) = Consumer"
| "invocation_mode (InvokeAccount _) = Account"
| "invocation_mode InvokeShare = Share"

primrec invocation_session :: "principal_invocation \<Rightarrow> js_string option" where
  "invocation_session (InvokeStaff s _) = s"
| "invocation_session (InvokeCustomer s) = s"
| "invocation_session InvokePublic = None"
| "invocation_session (InvokeSystem _ _ _) = None"
| "invocation_session (InvokeConsumer s) = s"
| "invocation_session (InvokeAccount s) = s"
| "invocation_session InvokeShare = None"

primrec scope_company :: "system_scope_input \<Rightarrow> js_string option" where
  "scope_company (TenantScope companyId) = Some companyId"
| "scope_company GlobalScopeInput = None"

primrec scope_kind :: "system_scope_input \<Rightarrow> system_scope" where
  "scope_kind (TenantScope _) = Tenant"
| "scope_kind GlobalScopeInput = GlobalScope"

record preflight_authorization =
  pa_actor :: actor
  pa_companyId :: "js_string option"
  pa_target :: "json option"
  pa_tokenHash :: "js_string option"

text \<open>
  What the authorization steps know of one invocation. \<open>rv_resolver\<close> is the bound
  \<open>resolveTarget\<close>, applied to the input and to the tables it reads; \<open>rv_grants\<close> are the ids of
  the projection-grant manifest.
\<close>

record 'm run_env =
  rv_contract :: action_contract
  rv_request :: hook_request_meta
  rv_principal :: principal_invocation
  rv_input :: json
  rv_resolver :: "(json \<Rightarrow> 'm tenancy \<Rightarrow> resolver) option"
  rv_grants :: "js_string list"
  rv_deadline :: ms

section \<open>Step 2\<close>

definition assertPrincipalShape ::
  "action_contract \<Rightarrow> principal_invocation \<Rightarrow> core_error + unit" where
  "assertPrincipalShape c p =
     (if invocation_mode p \<noteq> ac_principal c then Inl (pipeline_error PrincipalModeMismatch)
      else case p of
        InvokeSystem _ scope _ \<Rightarrow>
          (if ac_systemScope c \<noteq> Some (scope_kind scope) then Inl (pipeline_error SystemScopeMismatch)
           else Inr ())
      | _ \<Rightarrow> Inr ())"

definition assertAuthenticated :: "principal_invocation \<Rightarrow> core_error + unit" where
  "assertAuthenticated p =
     (if invocation_mode p = Public \<or> invocation_mode p = System \<or> invocation_mode p = Share then Inr ()
      else if invocation_session p = None then Inl (PermissionDeniedError ''Authentication required.'')
      else Inr ())"

definition confirmationIsRequired :: "action_contract \<Rightarrow> 'r hook_request_meta_scheme \<Rightarrow> bool" where
  "confirmationIsRequired c request =
     (ac_requiresConfirmation c \<or> rq_requireConfirmation request \<or> rq_confirmationOnly request)"

definition assertConfirmationFlagApplies :: "action_contract \<Rightarrow> core_error + unit" where
  "assertConfirmationFlagApplies c =
     (if length (confirmationPreconditionProblems (ac_principal c) (ac_idempotent c) (ac_risk c)
           (Some CONFIRMABLE_RISKS)) > 0
      then Inl (pipeline_error ConfirmationFlagNotApplicable) else Inr ())"

definition assertExecutionTimeConfirmation ::
  "action_contract \<Rightarrow> 'r hook_request_meta_scheme \<Rightarrow> core_error + unit" where
  "assertExecutionTimeConfirmation c request =
     res_bind (if rq_requireConfirmation request then assertConfirmationFlagApplies c else Inr ())
       (\<lambda>_. if rq_confirmationOnly request then assertConfirmationFlagApplies c else Inr ())"

text \<open>Which protocol hooks a process has composed.\<close>

record composed_hooks =
  has_rateLimit :: bool
  has_confirmation :: bool
  has_idempotency :: bool
  has_audit :: bool
  has_jobs :: bool

definition assertRequiredProtocolHooks ::
  "action_contract \<Rightarrow> composed_hooks \<Rightarrow> bool \<Rightarrow> core_error + unit" where
  "assertRequiredProtocolHooks c hooks requiresConfirmation =
     (if ac_principal c \<noteq> System \<and> \<not> has_rateLimit hooks
      then Inl (pipeline_error MissingRateLimitHook)
      else if ac_idempotent c \<and> ac_risk c \<noteq> RiskRead \<and> \<not> has_idempotency hooks
      then Inl (pipeline_error MissingIdempotencyHook)
      else if ac_audit c \<and> \<not> has_audit hooks
      then Inl (pipeline_error MissingAuditHook)
      else if requiresConfirmation \<and> \<not> has_confirmation hooks
      then Inl (pipeline_error MissingConfirmationHook)
      else if length (case ac_enqueues c of None \<Rightarrow> [] | Some js \<Rightarrow> js) > 0 \<and> \<not> has_jobs hooks
      then Inl (pipeline_error MissingJobPort)
      else Inr ())"

section \<open>Contexts for the transactions\<close>

definition requireResolver :: "'m run_env \<Rightarrow> 'm tenancy \<Rightarrow> core_error + resolver" where
  "requireResolver env tn =
     (case rv_resolver env of
        None \<Rightarrow> Inl (pipeline_error MissingResolver)
      | Some resolve \<Rightarrow> Inr (resolve (rv_input env) tn))"

definition typed :: "core_error + 'a \<Rightarrow> thrown + 'a" where
  "typed r = (case r of Inl e \<Rightarrow> Inl (Typed e) | Inr x \<Rightarrow> Inr x)"

definition runtime_of :: "'m run_env \<Rightarrow> bool \<Rightarrow> context_runtime" where
  "runtime_of env readOnly =
     \<lparr>rt_db = (if readOnly then createReadTx WritableTx else WritableTx),
      rt_deadline = rv_deadline env\<rparr>"

fun ctx_membership :: "action_ctx \<Rightarrow> staff_membership option" where
  "ctx_membership (StaffCtx _ _ _ m) = Some m"
| "ctx_membership _ = None"

definition checkPermissions :: "action_contract \<Rightarrow> action_ctx \<Rightarrow> core_error + action_ctx" where
  "checkPermissions c ctx =
     (case ctx_membership ctx of
        None \<Rightarrow> Inr ctx
      | Some membership \<Rightarrow>
          res_bind (assertDeclaredPermissions membership (ac_permissions c)) (\<lambda>_. Inr ctx))"

definition constructPrincipalContext ::
  "'m run_env \<Rightarrow> 'm tenancy \<Rightarrow> bool \<Rightarrow> thrown + action_ctx" where
  "constructPrincipalContext env tn readOnly =
     (let c = rv_contract env; request = rv_request env; runtime = runtime_of env readOnly in
      case rv_principal env of
        InvokeStaff session companySelector \<Rightarrow>
          typed (res_bind (createStaffContext tn request runtime session companySelector)
            (checkPermissions c))
      | InvokeCustomer session \<Rightarrow>
          res_bind (typed (requireResolver env tn))
            (\<lambda>resolve. createCustomerContext request runtime session resolve None)
      | InvokePublic \<Rightarrow>
          (if ac_publicScope c = Some GlobalProjection then
             (case ac_projectionGrant c of
                None \<Rightarrow> Inl (Typed (pipeline_error MissingProjectionGrant))
              | Some grantId \<Rightarrow>
                  (if grantId \<in> set (rv_grants env)
                   then createPublicContext request runtime (PublicGlobalInput grantId)
                   else Inl (Typed (pipeline_error MissingProjectionGrant))))
           else res_bind (typed (requireResolver env tn))
             (\<lambda>resolve. createPublicContext request runtime (PublicTargetInput resolve None)))
      | InvokeSystem serviceName scope companyMustExist \<Rightarrow>
          typed (if companyMustExist
            then createExistingCompanySystemContext tn serviceName scope request runtime
            else createSystemContext serviceName scope request runtime)
      | InvokeConsumer session \<Rightarrow> typed (createConsumerContext request runtime session)
      | InvokeAccount session \<Rightarrow> typed (createAccountContext request runtime session)
      | InvokeShare \<Rightarrow>
          res_bind (typed (requireResolver env tn))
            (\<lambda>resolve. createShareContext request runtime resolve None))"

definition runAuthorizationPreflight ::
  "'m run_env \<Rightarrow> 'm tenancy \<Rightarrow> thrown + preflight_authorization option" where
  "runAuthorizationPreflight env tn =
     (let c = rv_contract env; request = rv_request env; runtime = runtime_of env True in
      case rv_principal env of
        InvokeStaff session companySelector \<Rightarrow>
          res_bind (typed (res_bind (createStaffContext tn request runtime session companySelector)
              (checkPermissions c)))
            (\<lambda>ctx. Inr (Some \<lparr>pa_actor = bc_actor (ctx_base ctx), pa_companyId = effectiveCompanyId ctx,
               pa_target = None, pa_tokenHash = None\<rparr>))
      | InvokeCustomer session \<Rightarrow>
          res_bind (typed (requireResolver env tn)) (\<lambda>resolve.
          res_bind (createCustomerContext request runtime session resolve None) (\<lambda>ctx.
            case ctx of
              CustomerCtx base _ target \<Rightarrow> Inr (Some \<lparr>pa_actor = bc_actor base,
                pa_companyId = Some (tg_companyId target), pa_target = Some (tg_resource target),
                pa_tokenHash = None\<rparr>)
            | _ \<Rightarrow> Inr None))
      | InvokeAccount session \<Rightarrow>
          (case session of
             None \<Rightarrow> Inl (Typed (PermissionDeniedError ''Authentication required.''))
           | Some userId \<Rightarrow> Inr (Some \<lparr>pa_actor = UserActor userId, pa_companyId = None,
               pa_target = None, pa_tokenHash = None\<rparr>))
      | InvokeSystem serviceName scope _ \<Rightarrow>
          Inr (Some \<lparr>pa_actor = SystemActor serviceName, pa_companyId = scope_company scope,
            pa_target = None, pa_tokenHash = None\<rparr>)
      | InvokeShare \<Rightarrow>
          res_bind (typed (requireResolver env tn)) (\<lambda>resolve.
          res_bind (createShareContext request runtime resolve None) (\<lambda>ctx.
            case ctx of
              ShareCtx base _ target tokenHash \<Rightarrow> Inr (Some \<lparr>pa_actor = bc_actor base,
                pa_companyId = Some (tg_companyId target), pa_target = Some (tg_resource target),
                pa_tokenHash = Some tokenHash\<rparr>)
            | _ \<Rightarrow> Inr None))
      | InvokePublic \<Rightarrow> Inr None
      | InvokeConsumer _ \<Rightarrow> Inr None)"

definition needsPreflight :: "action_contract \<Rightarrow> 'r hook_request_meta_scheme \<Rightarrow> bool" where
  "needsPreflight c request =
     (confirmationIsRequired c request \<or> (ac_idempotent c \<and> ac_risk c \<noteq> RiskRead))"

definition requireAuthorization ::
  "preflight_authorization option \<Rightarrow> core_error + preflight_authorization" where
  "requireAuthorization authorization =
     (case authorization of
        None \<Rightarrow> Inl (pipeline_error MissingAuthorization)
      | Some a \<Rightarrow> Inr a)"

section \<open>The caller of a preview\<close>

primrec previewScopeOf :: "action_ctx \<Rightarrow> js_string option \<times> json option" where
  "previewScopeOf (StaffCtx _ _ companyId _) = (Some companyId, None)"
| "previewScopeOf (CustomerCtx _ _ target) = (Some (tg_companyId target), Some (tg_resource target))"
| "previewScopeOf (ShareCtx _ _ target _) = (Some (tg_companyId target), Some (tg_resource target))"
| "previewScopeOf (PublicTargetCtx _ _ target) =
     (Some (tg_companyId target), Some (tg_resource target))"
| "previewScopeOf (PublicGlobalCtx _ _ _) = (None, None)"
| "previewScopeOf (SystemTenantCtx _ _ companyId) = (Some companyId, None)"
| "previewScopeOf (SystemGlobalCtx _ _) = (None, None)"
| "previewScopeOf (ConsumerCtx _ _ _) = (None, None)"
| "previewScopeOf (AccountCtx _ _ _) = (None, None)"

fun previewCallerOf :: "action_ctx \<Rightarrow> core_error + js_string \<times> (js_string \<Rightarrow> bool)" where
  "previewCallerOf (StaffCtx _ userId _ membership) = Inr (userId, staffHasPermission membership)"
| "previewCallerOf (CustomerCtx _ userId _) = Inr (userId, \<lambda>_. False)"
| "previewCallerOf (AccountCtx _ userId _) = Inr (userId, \<lambda>_. False)"
| "previewCallerOf _ = Inl (pipeline_error PreviewNonHumanPrincipal)"

lemma previewScope_company: "fst (previewScopeOf ctx) = effectiveCompanyId ctx"
  by (cases ctx) simp_all

section \<open>Correctness\<close>

lemma typed_Inr [simp]: "typed r = Inr x \<longleftrightarrow> r = Inr x"
  by (cases r) (simp_all add: typed_def)

lemma checkPermissions_Inr:
  "checkPermissions c ctx = Inr ctx' \<longleftrightarrow> ctx' = ctx \<and>
     (\<forall>m. ctx_membership ctx = Some m \<longrightarrow> (\<forall>p \<in> set (ac_permissions c). staffHasPermission m p))"
  by (auto simp: checkPermissions_def res_bind_Inr_iff assertDeclaredPermissions_cases
      split: option.splits if_splits)

text \<open>Each factory establishes the invariant; the facts name the shape of what it returns.\<close>

lemma staff_ctx_shape:
  assumes "createStaffContext tn rq rt session selector = Inr ctx"
  shows "\<exists>u c m. ctx = StaffCtx (buildBase rq rt (rt_db rt) (UserActor u) (Some c)) u c m
    \<and> session = Some u \<and> selector = Some c"
  using assms by (auto simp: createStaffContext_def requireSession_def Let_def
      split: option.splits sum.splits if_splits list.splits)

lemma customer_ctx_shape:
  assumes "createCustomerContext rq rt session resolve inherited = Inr ctx"
  shows "\<exists>u t. ctx = CustomerCtx (buildBase rq rt (rt_db rt) (UserActor u) (Some (tg_companyId t))) u t
    \<and> session = Some u \<and> (inherited = None \<or> inherited = Some (tg_companyId t))
    \<and> resolve \<lparr>re_principal = ResolveCustomer u, re_inheritedCompanyId = inherited\<rparr> = Inr t"
  using assms by (auto simp: createCustomerContext_def requireSession_Inr assertInheritedCompany_Inr
      split: sum.splits)

lemma public_ctx_shape:
  assumes "createPublicContext rq rt options = Inr ctx"
  shows "\<exists>ip. rq_clientIp rq = Some ip \<and> ctx_principal ctx = Public \<and> ctx_inv ctx
    \<and> bc_db (ctx_base ctx) \<noteq> WritableTx \<and> bc_deadline (ctx_base ctx) = rt_deadline rt"
  using assms by (cases options)
    (auto simp: createPublicContext_def requireClientIp_Inr assertInheritedCompany_Inr ctx_inv_def
      ctx_actor_ok_def split: sum.splits)

lemma system_ctx_shape:
  assumes "createSystemContext serviceName scope rq rt = Inr ctx"
  shows "serviceName \<noteq> [] \<and> effectiveCompanyId ctx = scope_company scope
    \<and> ctx_principal ctx = System \<and> ctx_inv ctx \<and> bc_actor (ctx_base ctx) = SystemActor serviceName
    \<and> bc_db (ctx_base ctx) = rt_db rt \<and> bc_deadline (ctx_base ctx) = rt_deadline rt"
  using assms by (cases scope)
    (auto simp: createSystemContext_def ctx_inv_def ctx_actor_ok_def split: if_splits)

lemma existing_system_ctx:
  assumes "createExistingCompanySystemContext tn serviceName scope rq rt = Inr ctx"
  shows "createSystemContext serviceName scope rq rt = Inr ctx"
  using assms by (cases scope)
    (auto simp: createExistingCompanySystemContext_def split: sum.splits if_splits)

lemma consumer_ctx_shape:
  assumes "createConsumerContext rq rt session = Inr ctx"
  shows "\<exists>u ip. ctx = ConsumerCtx (buildBase rq rt (createReadTx (rt_db rt)) (UserActor u) None) u ip
    \<and> session = Some u"
  using assms by (auto simp: createConsumerContext_def requireSession_Inr split: sum.splits)

lemma account_ctx_shape:
  assumes "createAccountContext rq rt session = Inr ctx"
  shows "\<exists>u ip. ctx = AccountCtx (buildBase rq rt (rt_db rt) (UserActor u) None) u ip
    \<and> session = Some u"
  using assms by (auto simp: createAccountContext_def requireSession_Inr split: sum.splits)

lemma share_ctx_shape:
  assumes "createShareContext rq rt resolve inherited = Inr ctx"
  shows "\<exists>t h ip. ctx = ShareCtx (buildBase rq rt (rt_db rt) AnonymousActor (Some (tg_companyId t)))
      ip (t\<lparr>tg_tokenHash := None\<rparr>) h \<and> h \<noteq> [] \<and> tg_tokenHash t = Some h
    \<and> resolve \<lparr>re_principal = ResolveShare, re_inheritedCompanyId = inherited\<rparr> = Inr t
    \<and> (inherited = None \<or> inherited = Some (tg_companyId t))"
  using assms by (auto simp: createShareContext_def assertInheritedCompany_Inr
      split: sum.splits option.splits if_splits)

lemmas ctx_shapes = staff_ctx_shape customer_ctx_shape public_ctx_shape system_ctx_shape
  consumer_ctx_shape account_ctx_shape share_ctx_shape

definition ctx_capability_ok :: "'m run_env \<Rightarrow> bool \<Rightarrow> action_ctx \<Rightarrow> bool" where
  "ctx_capability_ok env readOnly ctx \<longleftrightarrow>
     ctx_inv ctx \<and> ctx_principal ctx = invocation_mode (rv_principal env)
     \<and> (readOnly \<longrightarrow> bc_db (ctx_base ctx) \<noteq> WritableTx)
     \<and> bc_deadline (ctx_base ctx) = rv_deadline env
     \<and> (\<forall>m. ctx_membership ctx = Some m \<longrightarrow>
          (\<forall>p \<in> set (ac_permissions (rv_contract env)). staffHasPermission m p))"

lemma runtime_of_sel [simp]:
  "rt_deadline (runtime_of env ro) = rv_deadline env"
  "rt_db (runtime_of env ro) = (if ro then ReadOnlyTx else WritableTx)"
  by (simp_all add: runtime_of_def)

lemma non_staff_membership [simp]:
  "ctx_principal ctx \<noteq> Staff \<Longrightarrow> ctx_membership ctx = None"
  by (cases ctx) simp_all

lemma construct_staff:
  assumes "constructPrincipalContext env tn ro = Inr ctx" "rv_principal env = InvokeStaff s sel"
  shows "createStaffContext tn (rv_request env) (runtime_of env ro) s sel = Inr ctx
    \<and> checkPermissions (rv_contract env) ctx = Inr ctx"
  using assms by (auto simp: constructPrincipalContext_def Let_def res_bind_Inr_iff checkPermissions_Inr)

lemma construct_capability:
  assumes "constructPrincipalContext env tn ro = Inr ctx"
  shows "ctx_capability_ok env ro ctx"
proof (cases "rv_principal env")
  case (InvokeStaff s sel)
  from construct_staff [OF assms this] show ?thesis
    using InvokeStaff by (auto dest!: staff_ctx_shape
        simp: ctx_capability_ok_def ctx_inv_def ctx_actor_ok_def checkPermissions_Inr)
next
  case (InvokeCustomer s)
  with assms show ?thesis
    by (auto simp: constructPrincipalContext_def Let_def res_bind_Inr_iff ctx_capability_ok_def
        ctx_inv_def ctx_actor_ok_def dest!: customer_ctx_shape)
next
  case InvokePublic
  with assms have "\<exists>options. createPublicContext (rv_request env) (runtime_of env ro) options = Inr ctx"
    by (auto simp: constructPrincipalContext_def Let_def res_bind_Inr_iff
        split: if_splits option.splits)
  then show ?thesis using InvokePublic by (auto simp: ctx_capability_ok_def dest!: public_ctx_shape)
next
  case (InvokeSystem n sc must)
  with assms have "createSystemContext n sc (rv_request env) (runtime_of env ro) = Inr ctx"
    by (auto simp: constructPrincipalContext_def Let_def existing_system_ctx split: if_splits)
  from system_ctx_shape [OF this] show ?thesis
    using InvokeSystem by (auto simp: ctx_capability_ok_def)
next
  case (InvokeConsumer s)
  with assms show ?thesis
    by (auto simp: constructPrincipalContext_def Let_def ctx_capability_ok_def
        ctx_inv_def ctx_actor_ok_def dest!: consumer_ctx_shape)
next
  case (InvokeAccount s)
  with assms show ?thesis
    by (auto simp: constructPrincipalContext_def Let_def ctx_capability_ok_def
        ctx_inv_def ctx_actor_ok_def dest!: account_ctx_shape)
next
  case InvokeShare
  with assms show ?thesis
    by (auto simp: constructPrincipalContext_def Let_def res_bind_Inr_iff ctx_capability_ok_def
        ctx_inv_def ctx_actor_ok_def dest!: share_ctx_shape)
qed


definition authorization_matches :: "preflight_authorization \<Rightarrow> action_ctx \<Rightarrow> bool" where
  "authorization_matches a ctx \<longleftrightarrow>
     pa_actor a = bc_actor (ctx_base ctx) \<and> pa_companyId a = effectiveCompanyId ctx
     \<and> (case ctx of ShareCtx _ _ _ h \<Rightarrow> pa_tokenHash a = Some h | _ \<Rightarrow> pa_tokenHash a = None)"

lemma staff_ctx_runtime:
  assumes "createStaffContext tn rq rt s sel = Inr (StaffCtx b u c m)"
  shows "createStaffContext tn rq rt' s sel
    = Inr (StaffCtx (buildBase rq rt' (rt_db rt') (UserActor u) (Some c)) u c m)"
  using assms by (auto simp: createStaffContext_def requireSession_def Let_def
      split: option.splits sum.splits if_splits list.splits)

lemma preflight_staff:
  assumes "constructPrincipalContext env tn ro = Inr ctx" "rv_principal env = InvokeStaff s sel"
  shows "\<exists>a. runAuthorizationPreflight env tn = Inr (Some a) \<and> authorization_matches a ctx"
proof -
  have c: "createStaffContext tn (rv_request env) (runtime_of env ro) s sel = Inr ctx"
    "checkPermissions (rv_contract env) ctx = Inr ctx"
    using construct_staff [OF assms] by simp_all
  obtain u i m where ctx: "ctx = StaffCtx (buildBase (rv_request env) (runtime_of env ro)
      (rt_db (runtime_of env ro)) (UserActor u) (Some i)) u i m"
    using staff_ctx_shape [OF c(1)] by blast
  have check: "checkPermissions (rv_contract env) (StaffCtx b u i m) = Inr (StaffCtx b u i m)" for b
    using c(2) ctx by (simp add: checkPermissions_Inr)
  show ?thesis
    using assms(2) staff_ctx_runtime [of tn "rv_request env" "runtime_of env ro" s sel _ u i m
        "runtime_of env True"] c(1) ctx
    by (auto simp: runAuthorizationPreflight_def Let_def check authorization_matches_def
        res_bind_def typed_def split: sum.splits)
qed

lemma preflight_others:
  assumes "constructPrincipalContext env tn ro = Inr ctx"
    and "rv_principal env \<noteq> InvokePublic" and "\<And>s. rv_principal env \<noteq> InvokeConsumer s"
    and "\<And>s sel. rv_principal env \<noteq> InvokeStaff s sel"
  shows "\<exists>a. runAuthorizationPreflight env tn = Inr (Some a) \<and> authorization_matches a ctx"
proof (cases "rv_principal env")
  case (InvokeCustomer s)
  then obtain resolve where "requireResolver env tn = Inr resolve"
    "createCustomerContext (rv_request env) (runtime_of env ro) s resolve None = Inr ctx"
    using assms(1) by (auto simp: constructPrincipalContext_def Let_def res_bind_Inr_iff)
  then show ?thesis using InvokeCustomer
    by (auto simp: runAuthorizationPreflight_def Let_def typed_def createCustomerContext_def
        requireSession_def assertInheritedCompany_def authorization_matches_def
        split: option.splits sum.splits)
next
  case (InvokeSystem n sc must)
  with assms(1) have "createSystemContext n sc (rv_request env) (runtime_of env ro) = Inr ctx"
    by (auto simp: constructPrincipalContext_def Let_def existing_system_ctx split: if_splits)
  then show ?thesis using InvokeSystem
    by (cases sc) (auto simp: runAuthorizationPreflight_def Let_def createSystemContext_def
        authorization_matches_def split: if_splits)
next
  case (InvokeAccount s)
  then show ?thesis using assms(1)
    by (auto simp: constructPrincipalContext_def runAuthorizationPreflight_def Let_def
        authorization_matches_def dest!: account_ctx_shape)
next
  case InvokeShare
  then obtain resolve where r: "requireResolver env tn = Inr resolve"
    "createShareContext (rv_request env) (runtime_of env ro) resolve None = Inr ctx"
    using assms(1) by (auto simp: constructPrincipalContext_def Let_def res_bind_Inr_iff)
  then show ?thesis using InvokeShare
    by (auto simp: runAuthorizationPreflight_def Let_def typed_def createShareContext_def
        requireClientIp_def assertInheritedCompany_def authorization_matches_def
        split: option.splits sum.splits if_splits)
qed (use assms in auto)

text \<open>
  The preflight is never stricter than the execution transaction and proves the same
  identity. On the same tables, when the context of a mode that can carry a confirmation or a
  reservation is built, the preflight succeeds, and the actor, the company scope and the share
  token hash that the idempotency and confirmation keys are made of are those of the context.
\<close>

theorem preflight_agrees_with_execution:
  assumes "constructPrincipalContext env tn readOnly = Inr ctx"
    and "invocation_mode (rv_principal env) \<notin> {Public, Consumer}"
  shows "\<exists>a. runAuthorizationPreflight env tn = Inr (Some a)
    \<and> pa_actor a = bc_actor (ctx_base ctx) \<and> pa_companyId a = effectiveCompanyId ctx
    \<and> (case ctx of ShareCtx _ _ _ h \<Rightarrow> pa_tokenHash a = Some h | _ \<Rightarrow> pa_tokenHash a = None)"
proof (cases "invocation_mode (rv_principal env) = Staff")
  case True
  then obtain s sel where "rv_principal env = InvokeStaff s sel" by (cases "rv_principal env") auto
  from preflight_staff [OF assms(1) this] show ?thesis unfolding authorization_matches_def .
next
  case False
  then have "\<exists>a. runAuthorizationPreflight env tn = Inr (Some a) \<and> authorization_matches a ctx"
    using assms by (intro preflight_others [OF assms(1)]) auto
  then show ?thesis unfolding authorization_matches_def .
qed

lemma hooks_ok_iff:
  "assertRequiredProtocolHooks c hooks confirm = Inr () \<longleftrightarrow>
     (ac_principal c \<noteq> System \<longrightarrow> has_rateLimit hooks)
     \<and> (ac_idempotent c \<and> ac_risk c \<noteq> RiskRead \<longrightarrow> has_idempotency hooks)
     \<and> (ac_audit c \<longrightarrow> has_audit hooks) \<and> (confirm \<longrightarrow> has_confirmation hooks)
     \<and> (\<forall>js. ac_enqueues c = Some js \<and> js \<noteq> [] \<longrightarrow> has_jobs hooks)"
  by (auto simp: assertRequiredProtocolHooks_def split: option.splits)

lemma flag_ok_iff:
  "assertConfirmationFlagApplies c = Inr () \<longleftrightarrow>
     isConfirmableRisk (ac_risk c) \<and> isHumanPrincipal (ac_principal c) \<and> ac_idempotent c"
  using confirmationPrecondition_ok_iff
    [of "ac_principal c" "ac_idempotent c" "ac_risk c" "Some CONFIRMABLE_RISKS"]
  by (auto simp: assertConfirmationFlagApplies_def isConfirmableRisk_def)

lemma confirmation_is_human:
  assumes "defineActionContract c = Inr c" "assertExecutionTimeConfirmation c rq = Inr ()"
    "confirmationIsRequired c rq"
  shows "isConfirmableRisk (ac_risk c) \<and> isHumanPrincipal (ac_principal c) \<and> ac_idempotent c"
  using assms validated_rules(3) [OF assms(1)]
  by (auto simp: confirmationIsRequired_def assertExecutionTimeConfirmation_def res_bind_Inr_iff
      flag_ok_iff write_rules_def isConfirmableRisk_iff split: if_splits)

lemma preflight_mode:
  assumes "runAuthorizationPreflight env tn = Inr None"
  shows "invocation_mode (rv_principal env) \<in> {Public, Consumer}"
proof (cases "rv_principal env")
  case (InvokeCustomer s)
  with assms show ?thesis
    by (auto simp: runAuthorizationPreflight_def Let_def res_bind_Inr_iff dest!: customer_ctx_shape)
next
  case InvokeShare
  with assms show ?thesis
    by (auto simp: runAuthorizationPreflight_def Let_def res_bind_Inr_iff dest!: share_ctx_shape)
qed (use assms in \<open>auto simp: runAuthorizationPreflight_def Let_def res_bind_Inr_iff
      split: option.splits\<close>)

text \<open>
  No protocol hook runs without an authorization. For a validated contract invoked in its own
  mode with admissible flags, whenever a confirmation is required or an idempotent mutation
  reserves, the preflight runs, and when it succeeds it yields an authorization: the invariant
  violation \<open>MissingAuthorization\<close> is unreachable. A required confirmation moreover means an
  authenticated human and an idempotent write.
\<close>

theorem protocols_run_authorized:
  assumes "defineActionContract (rv_contract env) = Inr (rv_contract env)"
    and "assertPrincipalShape (rv_contract env) (rv_principal env) = Inr ()"
    and "assertExecutionTimeConfirmation (rv_contract env) (rv_request env) = Inr ()"
    and "needsPreflight (rv_contract env) (rv_request env)"
    and "runAuthorizationPreflight env tn = Inr a"
  shows "requireAuthorization a \<noteq> Inl (pipeline_error MissingAuthorization)
    \<and> (confirmationIsRequired (rv_contract env) (rv_request env) \<longrightarrow>
         isHumanPrincipal (invocation_mode (rv_principal env)) \<and> ac_idempotent (rv_contract env)
         \<and> isConfirmableRisk (ac_risk (rv_contract env)))"
proof -
  have mode: "invocation_mode (rv_principal env) = ac_principal (rv_contract env)"
    using assms(2) by (simp add: assertPrincipalShape_def split: if_splits)
  have confirm: "confirmationIsRequired (rv_contract env) (rv_request env) \<longrightarrow>
      isConfirmableRisk (ac_risk (rv_contract env)) \<and> isHumanPrincipal (ac_principal (rv_contract env))
      \<and> ac_idempotent (rv_contract env)"
    using confirmation_is_human [OF assms(1,3)] by blast
  have "ac_principal (rv_contract env) \<notin> {Public, Consumer}"
    using confirm assms(4) validated_rules(1) [OF assms(1)]
    by (auto simp: needsPreflight_def isHumanPrincipal_iff)
  then have "a \<noteq> None" using preflight_mode assms(5) mode by metis
  then show ?thesis using confirm mode by (auto simp: requireAuthorization_def split: option.splits)
qed

section \<open>Witnesses\<close>

definition sample_hook_request :: hook_request_meta where
  "sample_hook_request = \<lparr>rq_action = ''orders.confirm'', rq_requestId = ''r1'',
     rq_correlationId = ''r1'', rq_channel = Ui, rq_clientIp = Some ''10.0.0.1'',
     rq_aiTraceId = None, rq_toolCallId = None, rq_causationId = None,
     rq_idempotencyKey = Some ''k1'', rq_confirmationChallengeId = None,
     rq_requireConfirmation = False, rq_confirmationOnly = False\<rparr>"

definition sample_env :: "unit run_env" where
  "sample_env = \<lparr>rv_contract = sample_contract, rv_request = sample_hook_request,
     rv_principal = InvokeStaff (Some ''u1'') (Some sample_company), rv_input = JNull,
     rv_resolver = None, rv_grants = [], rv_deadline = 10000\<rparr>"

lemma sample_construct:
  "\<exists>ctx. constructPrincipalContext sample_env sample_tenancy False = Inr ctx"
proof -
  have "membership_rows sample_tenancy sample_company ''u1''
      = [(''manager'', \<lparr>granted = [''orders:edit''], denied = []\<rparr>, None)]"
    by (simp add: membership_rows_def sample_tenancy_def)
  moreover have "staffHasPermission \<lparr>mb_role = Manager, mb_permissions = resolveEffectivePermissions
      \<lparr>granted = [''orders:edit''], denied = []\<rparr> []\<rparr> ''orders:edit''"
    by (auto simp: staffHasPermission_def set_resolveEffectivePermissions)
  ultimately show ?thesis
    by (simp add: constructPrincipalContext_def sample_env_def createStaffContext_def
        requireSession_def checkPermissions_def typed_def sample_contract_def)
qed


theorem preflight_agrees_with_execution_witness:
  "\<exists>a. runAuthorizationPreflight sample_env sample_tenancy = Inr (Some a)"
proof -
  obtain ctx where "constructPrincipalContext sample_env sample_tenancy False = Inr ctx"
    using sample_construct by blast
  moreover have "invocation_mode (rv_principal sample_env) \<notin> {Public, Consumer}"
    by (simp add: sample_env_def)
  ultimately show ?thesis using preflight_agrees_with_execution by blast
qed

theorem protocols_run_authorized_witness:
  "\<exists>a. runAuthorizationPreflight sample_env sample_tenancy = Inr a
     \<and> requireAuthorization a \<noteq> Inl (pipeline_error MissingAuthorization)"
proof -
  obtain a where a: "runAuthorizationPreflight sample_env sample_tenancy = Inr (Some a)"
    using sample_construct preflight_staff [of sample_env sample_tenancy False]
    by (auto simp: sample_env_def)
  have "requireAuthorization (Some a) \<noteq> Inl (pipeline_error MissingAuthorization)"
    using protocols_run_authorized [OF _ _ _ _ a] sample_contract_accepted
    by (simp add: sample_env_def assertPrincipalShape_def assertExecutionTimeConfirmation_def
        needsPreflight_def confirmationIsRequired_def sample_hook_request_def sample_contract_def)
  then show ?thesis using a by blast
qed

end
