(* ===== verification/Process.thy ===== *)
theory Process
  imports Prelude
begin

text \<open>
  What every server process shares: a clock and a supply of random identifiers, and the
  interference of the other processes. An asynchronous function is a state-passing function in
  which each \<open>await\<close> of a statement against a shared store is one atomic step; between two
  steps the other processes may do anything, and that is a function \<open>between k\<close> on the state,
  one per await point. A clock reading is part of the state, so interference may also pass time.
\<close>

record process =
  pr_now :: ms
  pr_uuids :: nat

text \<open>\<open>randomUUID()\<close>: the supply \<open>rnd\<close> is a parameter; the identifiers in use are those drawn so far.\<close>

definition randomUUID :: "(nat \<Rightarrow> js_string) \<Rightarrow> 'a process_scheme \<Rightarrow> js_string \<times> 'a process_scheme" where
  "randomUUID rnd w = (rnd (pr_uuids w), w\<lparr>pr_uuids := Suc (pr_uuids w)\<rparr>)"

definition drawn :: "(nat \<Rightarrow> js_string) \<Rightarrow> 'a process_scheme \<Rightarrow> js_string set" where
  "drawn rnd w = rnd ` {..< pr_uuids w}"

type_synonym 'w interference = "nat \<Rightarrow> 'w \<Rightarrow> 'w"

text \<open>No other process acts.\<close>

definition alone :: "'w interference" where
  "alone k w = w"

lemma alone_apply [simp]: "alone k w = w"
  by (simp add: alone_def)

lemma drawn_mono: "pr_uuids w \<le> pr_uuids w' \<Longrightarrow> drawn rnd w \<subseteq> drawn rnd w'"
  by (auto simp: drawn_def)

lemma fresh_not_drawn: "inj rnd \<Longrightarrow> pr_uuids w \<le> n \<Longrightarrow> rnd n \<notin> drawn rnd w"
  by (auto simp: drawn_def dest: injD)

lemma drawn_Suc: "drawn rnd (w\<lparr>pr_uuids := Suc (pr_uuids w)\<rparr>) = insert (rnd (pr_uuids w)) (drawn rnd w)"
  by (auto simp: drawn_def lessThan_Suc)

text \<open>\<open>Math.max(1, Math.ceil(ms / 1000))\<close>\<close>

definition retryAfterSec :: "ms \<Rightarrow> int" where
  "retryAfterSec m = max 1 (ceil_div m 1000)"

lemma retryAfterSec_bounds:
  "1 \<le> retryAfterSec m" "m \<le> retryAfterSec m * 1000"
  "0 < m \<Longrightarrow> retryAfterSec m * 1000 < m + 1000"
proof -
  show "1 \<le> retryAfterSec m" by (simp add: retryAfterSec_def)
  have "m \<le> ceil_div m 1000 * 1000" by (rule ceil_div_ge) simp
  then show "m \<le> retryAfterSec m * 1000" by (simp add: retryAfterSec_def)
  have "ceil_div m 1000 * 1000 < m + 1000" by (rule ceil_div_less) simp
  moreover have "ceil_div m 1000 \<ge> 1" if "0 < m"
    using that \<open>m \<le> ceil_div m 1000 * 1000\<close> by linarith
  ultimately show "retryAfterSec m * 1000 < m + 1000" if "0 < m"
    using that by (simp add: retryAfterSec_def)
qed

section \<open>Leases\<close>

text \<open>
  The fencing contract that the idempotency rows and the delivery rows share. A slot has at most
  one owner token; a token is issued once, when it is installed as an owner; a step of any
  process keeps the owner of a slot, drops it, or installs a token never issued before. Then a
  token that has lost its slot has lost it for good, so a write guarded by ownership can never
  succeed for a superseded attempt.
\<close>

locale lease_fencing =
  fixes owner :: "'s \<Rightarrow> 'k \<Rightarrow> 'a option"
    and issued :: "'s \<Rightarrow> 'a set"
    and step :: "'s \<Rightarrow> 's \<Rightarrow> bool"
  assumes issued_mono: "step s s' \<Longrightarrow> issued s \<subseteq> issued s'"
    and owner_step: "step s s' \<Longrightarrow> owner s' k = Some a \<Longrightarrow> owner s k = Some a \<or> a \<notin> issued s"
begin

lemma lost_stays_lost:
  assumes "step\<^sup>*\<^sup>* s s'" and "a \<in> issued s" and "owner s k \<noteq> Some a"
  shows "owner s' k \<noteq> Some a"
proof -
  from assms(1) have "owner s' k \<noteq> Some a \<and> a \<in> issued s'"
  proof (induction rule: rtranclp_induct)
    case base
    then show ?case using assms(2,3) by simp
  next
    case (step t u)
    then show ?case using issued_mono owner_step by blast
  qed
  then show ?thesis by simp
qed

lemma issued_reach: "step\<^sup>*\<^sup>* s s' \<Longrightarrow> issued s \<subseteq> issued s'"
  by (induction rule: rtranclp_induct) (use issued_mono in auto)

text \<open>Of two tokens that own a slot at different times, the first is superseded for good.\<close>

lemma superseded:
  assumes "owner s k = Some a" and "a \<in> issued s" and "step\<^sup>*\<^sup>* s t" and "owner t k = Some b"
    and "b \<noteq> a" and "step\<^sup>*\<^sup>* t u"
  shows "owner u k \<noteq> Some a"
proof (rule lost_stays_lost [OF assms(6)])
  show "a \<in> issued t" using issued_reach [OF assms(3)] assms(2) by blast
  show "owner t k \<noteq> Some a" using assms(4,5) by simp
qed

end

end
