(* ===== verification/Idempotency.thy ===== *)
theory Idempotency
  imports Authorization Process
begin

text \<open>
  The idempotency protocol: the keys (\<open>runtime/idempotency/keys.ts\<close>), the reservations
  (\<open>runtime/idempotency/create-idempotency-hook.ts\<close>) and the table they live in
  (\<open>idempotencyKeys\<close> of \<open>packages/db/src/schema/foundation.ts\<close>). Each SQL statement of the
  hook is one atomic function on the table; \<open>between\<close> acts between two statements.
\<close>

section \<open>Keys\<close>

record protocol_env =
  pe_contract :: action_contract
  pe_request :: hook_request_meta
  pe_principal :: principal_invocation
  pe_input :: json
  pe_authorization :: preflight_authorization

definition idempotency_key_missing :: core_error where
  "idempotency_key_missing = ValidationError
     [\<lparr>iss_path = [''idempotencyKey''],
       iss_message = ''An idempotency key is required for this action.''\<rparr>]
     ''An idempotency key is required for this action.''"

definition requireIdempotencyKey :: "'r hook_request_meta_scheme \<Rightarrow> core_error + js_string" where
  "requireIdempotencyKey request =
     (case rq_idempotencyKey request of
        None \<Rightarrow> Inl idempotency_key_missing
      | Some key \<Rightarrow> if key \<noteq> [] then Inr key else Inl idempotency_key_missing)"

definition user_principal_key :: "js_string \<Rightarrow> actor \<Rightarrow> core_error + js_string" where
  "user_principal_key mode actor' =
     (case actor' of
        UserActor userId \<Rightarrow> Inr (mode @ '':'' @ userId)
      | _ \<Rightarrow> Inl (protocol_error NonUserActor))"

definition principalKeyFor :: "protocol_env \<Rightarrow> core_error + js_string" where
  "principalKeyFor env =
     (case pe_principal env of
        InvokeStaff _ _ \<Rightarrow> user_principal_key ''staff'' (pa_actor (pe_authorization env))
      | InvokeCustomer _ \<Rightarrow> user_principal_key ''customer'' (pa_actor (pe_authorization env))
      | InvokeAccount _ \<Rightarrow> user_principal_key ''account'' (pa_actor (pe_authorization env))
      | InvokeSystem serviceName _ _ \<Rightarrow> Inr (''system:'' @ serviceName)
      | InvokeShare \<Rightarrow>
          (case pa_tokenHash (pe_authorization env) of
             None \<Rightarrow> Inl (context_error MissingTokenHash)
           | Some tokenHash \<Rightarrow>
               (if tokenHash = [] then Inl (context_error MissingTokenHash)
                else Inr (''share:'' @ tokenHash)))
      | InvokeConsumer _ \<Rightarrow> Inl (protocol_error UnprotectedMode)
      | InvokePublic \<Rightarrow> Inl (protocol_error UnprotectedMode))"

definition scopeKeyFor :: "protocol_env \<Rightarrow> core_error + js_string" where
  "scopeKeyFor env =
     (if invocation_mode (pe_principal env) = Account
      then Inr (''user:'' @ actor_id (pa_actor (pe_authorization env)))
      else case pa_companyId (pe_authorization env) of
        Some companyId \<Rightarrow> Inr (''company:'' @ companyId)
      | None \<Rightarrow>
          (if invocation_mode (pe_principal env) = System then Inr ''global''
           else Inl (protocol_error NoScopeKey)))"

definition requestHashOf ::
  "(js_string \<Rightarrow> js_string) \<Rightarrow> protocol_env \<Rightarrow> js_string \<Rightarrow> js_string \<Rightarrow> core_error + js_string" where
  "requestHashOf sha256 env principalKey scopeKey =
     canonicalJsonSha256OfUnknown sha256 (JObject [
       (''input'', pe_input env),
       (''principalKey'', JString principalKey),
       (''scopeKey'', JString scopeKey)])"

section \<open>The table\<close>

record row_identity =
  ri_principalKey :: js_string
  ri_scopeKey :: js_string
  ri_action :: js_string
  ri_key :: js_string

record confirmation_grant =
  cg_challengeId :: js_string
  cg_confirmedAt :: ms
  cg_expiresAt :: ms

datatype row_status = InProgress | Completed | FailedAttempt | OtherStatus js_string

record idempotency_row =
  ik_companyId :: "js_string option"
  ik_requestHash :: js_string
  ik_status :: row_status
  ik_attemptId :: js_string
  ik_leaseExpiresAt :: ms
  ik_confirmationChallengeId :: "js_string option"
  ik_confirmedAt :: "ms option"
  ik_confirmationExpiresAt :: "ms option"
  ik_response :: "json option"
  ik_expiresAt :: ms

type_synonym idempotency_table = "row_identity \<Rightarrow> idempotency_row option"

record idem_world = process +
  iw_rows :: idempotency_table

definition IDEMPOTENCY_RETENTION_MS :: ms where
  "IDEMPOTENCY_RETENTION_MS = 48 * 60 * 60 * 1000"

definition IDEMPOTENCY_LEASE_MARGIN_MS :: ms where
  "IDEMPOTENCY_LEASE_MARGIN_MS = 15000"

definition grantColumns :: "confirmation_grant option \<Rightarrow> idempotency_row \<Rightarrow> idempotency_row" where
  "grantColumns grant row =
     (case grant of
        None \<Rightarrow> row
      | Some g \<Rightarrow> row\<lparr>ik_confirmationChallengeId := Some (cg_challengeId g),
          ik_confirmedAt := Some (cg_confirmedAt g),
          ik_confirmationExpiresAt := Some (cg_expiresAt g)\<rparr>)"

text \<open>\<open>INSERT ... ON CONFLICT DO NOTHING RETURNING\<close>: whether a row was inserted.\<close>

definition sql_insert ::
  "row_identity \<Rightarrow> idempotency_row \<Rightarrow> idempotency_table \<Rightarrow> bool \<times> idempotency_table" where
  "sql_insert identity row rows =
     (case rows identity of None \<Rightarrow> (True, rows(identity \<mapsto> row)) | Some _ \<Rightarrow> (False, rows))"

text \<open>A guarded \<open>UPDATE ... RETURNING\<close> of one row: whether it was updated.\<close>

definition sql_update ::
  "row_identity \<Rightarrow> (idempotency_row \<Rightarrow> bool) \<Rightarrow> (idempotency_row \<Rightarrow> idempotency_row) \<Rightarrow>
     idempotency_table \<Rightarrow> bool \<times> idempotency_table" where
  "sql_update identity guard change rows =
     (case rows identity of
        None \<Rightarrow> (False, rows)
      | Some row \<Rightarrow> if guard row then (True, rows(identity \<mapsto> change row)) else (False, rows))"

definition fresh_row ::
  "js_string option \<Rightarrow> js_string \<Rightarrow> js_string \<Rightarrow> ms \<Rightarrow> ms \<Rightarrow> confirmation_grant option \<Rightarrow>
     idempotency_row" where
  "fresh_row companyId requestHash attemptId nowMs leaseMs grant =
     grantColumns grant \<lparr>ik_companyId = companyId, ik_requestHash = requestHash,
       ik_status = InProgress, ik_attemptId = attemptId, ik_leaseExpiresAt = nowMs + leaseMs,
       ik_confirmationChallengeId = None, ik_confirmedAt = None, ik_confirmationExpiresAt = None,
       ik_response = None, ik_expiresAt = nowMs + IDEMPOTENCY_RETENTION_MS\<rparr>"

definition reclaimableWhere :: "ms \<Rightarrow> idempotency_row \<Rightarrow> bool" where
  "reclaimableWhere nowMs row =
     (ik_expiresAt row \<le> nowMs \<or> ik_status row = FailedAttempt
      \<or> (ik_status row = InProgress \<and> ik_leaseExpiresAt row \<le> nowMs))"

text \<open>The columns that \<open>reset\<close> sets when the retention of the row has passed.\<close>

definition reset_row :: "js_string \<Rightarrow> ms \<Rightarrow> idempotency_row \<Rightarrow> idempotency_row" where
  "reset_row requestHash nowMs row =
     row\<lparr>ik_requestHash := requestHash, ik_expiresAt := nowMs + IDEMPOTENCY_RETENTION_MS,
       ik_confirmationChallengeId := None, ik_confirmedAt := None,
       ik_confirmationExpiresAt := None\<rparr>"

definition takeover_row ::
  "js_string \<Rightarrow> ms \<Rightarrow> ms \<Rightarrow> js_string option \<Rightarrow> confirmation_grant option \<Rightarrow>
     idempotency_row \<Rightarrow> idempotency_row" where
  "takeover_row attemptId nowMs leaseMs reset grant row =
     grantColumns grant
       ((case reset of None \<Rightarrow> id | Some requestHash \<Rightarrow> reset_row requestHash nowMs)
         (row\<lparr>ik_status := InProgress, ik_attemptId := attemptId,
            ik_leaseExpiresAt := nowMs + leaseMs, ik_response := None\<rparr>))"

definition owned_in_progress :: "js_string \<Rightarrow> idempotency_row \<Rightarrow> bool" where
  "owned_in_progress attemptId row = (ik_attemptId row = attemptId \<and> ik_status row = InProgress)"

definition sql_takeover ::
  "row_identity \<Rightarrow> js_string \<Rightarrow> js_string \<Rightarrow> ms \<Rightarrow> ms \<Rightarrow> js_string option \<Rightarrow>
     confirmation_grant option \<Rightarrow> idempotency_table \<Rightarrow> bool \<times> idempotency_table" where
  "sql_takeover identity observedAttemptId attemptId nowMs leaseMs reset grant =
     sql_update identity
       (\<lambda>row. ik_attemptId row = observedAttemptId \<and> reclaimableWhere nowMs row)
       (takeover_row attemptId nowMs leaseMs reset grant)"

definition sql_finalize ::
  "row_identity \<Rightarrow> js_string \<Rightarrow> json \<Rightarrow> idempotency_table \<Rightarrow> bool \<times> idempotency_table" where
  "sql_finalize identity attemptId output =
     sql_update identity (owned_in_progress attemptId)
       (\<lambda>row. row\<lparr>ik_status := Completed, ik_response := Some output\<rparr>)"

definition sql_markFailed ::
  "row_identity \<Rightarrow> js_string \<Rightarrow> idempotency_table \<Rightarrow> bool \<times> idempotency_table" where
  "sql_markFailed identity attemptId =
     sql_update identity (owned_in_progress attemptId) (\<lambda>row. row\<lparr>ik_status := FailedAttempt\<rparr>)"

definition sql_cleanup :: "ms \<Rightarrow> idempotency_table \<Rightarrow> idempotency_table" where
  "sql_cleanup nowMs rows =
     (\<lambda>identity. case rows identity of
        None \<Rightarrow> None | Some row \<Rightarrow> if ik_expiresAt row \<le> nowMs then None else Some row)"

section \<open>The hook\<close>

record idempotency_reservation =
  rs_identity :: row_identity
  rs_attemptId :: js_string
  rs_leaseMs :: ms

datatype reserve_result = Execute idempotency_reservation | Replay json

datatype probe_result = Fresh | ProbeReplay json | Resume confirmation_grant

definition unexpiredGrant :: "idempotency_row \<Rightarrow> ms \<Rightarrow> confirmation_grant option" where
  "unexpiredGrant row nowMs =
     (case (ik_confirmationChallengeId row, ik_confirmedAt row, ik_confirmationExpiresAt row) of
        (Some challengeId, Some confirmedAt, Some expiresAt) \<Rightarrow>
          (if expiresAt \<le> nowMs then None
           else Some \<lparr>cg_challengeId = challengeId, cg_confirmedAt = confirmedAt,
                      cg_expiresAt = expiresAt\<rparr>)
      | _ \<Rightarrow> None)"

text \<open>The stored response of a completed row; \<open>null\<close> is what the column holds otherwise.\<close>

definition stored_response :: "idempotency_row \<Rightarrow> json" where
  "stored_response row = (case ik_response row of None \<Rightarrow> JNull | Some r \<Rightarrow> r)"

definition interpretProbeRow ::
  "idempotency_row \<Rightarrow> js_string \<Rightarrow> ms \<Rightarrow> core_error + probe_result" where
  "interpretProbeRow existing requestHash nowMs =
     (if ik_expiresAt existing \<le> nowMs then Inr Fresh
      else if ik_requestHash existing \<noteq> requestHash then Inl idempotency_conflict
      else case ik_status existing of
        Completed \<Rightarrow> Inr (ProbeReplay (stored_response existing))
      | OtherStatus _ \<Rightarrow> Inl (protocol_error UnknownRowStatus)
      | _ \<Rightarrow>
          (if ik_status existing = InProgress \<and> ik_leaseExpiresAt existing > nowMs
           then Inl (concurrent_retry (retryAfterSec (ik_leaseExpiresAt existing - nowMs)))
           else case unexpiredGrant existing nowMs of None \<Rightarrow> Inr Fresh | Some g \<Rightarrow> Inr (Resume g)))"

text \<open>The identity, the request hash and the lease of one invocation.\<close>

record reservation_request =
  rr_identity :: row_identity
  rr_companyId :: "js_string option"
  rr_requestHash :: js_string
  rr_leaseMs :: ms
  rr_grant :: "confirmation_grant option"

definition reservation_request_of ::
  "(js_string \<Rightarrow> js_string) \<Rightarrow> protocol_env \<Rightarrow> confirmation_grant option \<Rightarrow>
     core_error + reservation_request" where
  "reservation_request_of sha256 env grant =
     res_bind (requireIdempotencyKey (pe_request env)) (\<lambda>key.
     res_bind (principalKeyFor env) (\<lambda>principalKey.
     res_bind (scopeKeyFor env) (\<lambda>scopeKey.
     res_bind (requestHashOf sha256 env principalKey scopeKey) (\<lambda>requestHash.
       Inr \<lparr>rr_identity = \<lparr>ri_principalKey = principalKey, ri_scopeKey = scopeKey,
                ri_action = ac_name (pe_contract env), ri_key = key\<rparr>,
            rr_companyId = pa_companyId (pe_authorization env),
            rr_requestHash = requestHash,
            rr_leaseMs = js_int (ac_timeout (pe_contract env)) + IDEMPOTENCY_LEASE_MARGIN_MS,
            rr_grant = grant\<rparr>))))"

text \<open>
  The hook's functions, statement by statement. The await points of a function are numbered in
  order; point 0 lies between the first clock reading and the first statement.
\<close>

definition probe ::
  "(js_string \<Rightarrow> js_string) \<Rightarrow> 'a idem_world_scheme interference \<Rightarrow> protocol_env \<Rightarrow>
     ('a idem_world_scheme, core_error, probe_result) eff" where
  "probe sha256 between env w =
     (case reservation_request_of sha256 env None of
        Inl e \<Rightarrow> (Inl e, w)
      | Inr rr \<Rightarrow>
          (let w1 = between 0 w; w2 = between 1 w1 in
           (case iw_rows w1 (rr_identity rr) of
              None \<Rightarrow> Inr Fresh
            | Some existing \<Rightarrow> interpretProbeRow existing (rr_requestHash rr) (pr_now w2), w2)))"

definition resolveLostTakeover ::
  "reservation_request \<Rightarrow> idempotency_row option \<Rightarrow> ms \<Rightarrow> core_error + reserve_result" where
  "resolveLostTakeover rr row nowMs =
     (case row of
        None \<Rightarrow> Inl (concurrent_retry 1)
      | Some existing \<Rightarrow>
          (if ik_requestHash existing \<noteq> rr_requestHash rr then Inl idempotency_conflict
           else if ik_status existing = Completed then Inr (Replay (stored_response existing))
           else if ik_status existing = InProgress \<and> ik_leaseExpiresAt existing > nowMs
           then Inl (concurrent_retry (retryAfterSec (ik_leaseExpiresAt existing - nowMs)))
           else Inl (concurrent_retry (retryAfterSec (rr_leaseMs rr)))))"

definition takeover ::
  "(nat \<Rightarrow> js_string) \<Rightarrow> 'a idem_world_scheme interference \<Rightarrow> reservation_request \<Rightarrow> js_string \<Rightarrow>
     ms \<Rightarrow> bool \<Rightarrow> ('a idem_world_scheme, core_error, reserve_result) eff" where
  "takeover rnd between rr observedAttemptId nowMs reset w =
     (let (attemptId, w1) = randomUUID rnd w;
          w2 = between 3 w1;
          (updated, rows) = sql_takeover (rr_identity rr) observedAttemptId attemptId nowMs
            (rr_leaseMs rr) (if reset then Some (rr_requestHash rr) else None) (rr_grant rr)
            (iw_rows w2);
          w3 = w2\<lparr>iw_rows := rows\<rparr>
      in if updated
         then (Inr (Execute \<lparr>rs_identity = rr_identity rr, rs_attemptId = attemptId,
                             rs_leaseMs = rr_leaseMs rr\<rparr>), w3)
         else let w4 = between 4 w3; w5 = between 5 w4 in
           (resolveLostTakeover rr (iw_rows w4 (rr_identity rr)) (pr_now w5), w5))"

text \<open>What a round does with the row that kept its insert out, observed at \<open>nowAfterRead\<close>.\<close>

datatype row_decision = TakeOver bool | Decided "core_error + reserve_result"

definition decide_row :: "reservation_request \<Rightarrow> idempotency_row \<Rightarrow> ms \<Rightarrow> row_decision" where
  "decide_row rr existing nowAfterRead =
     (if ik_expiresAt existing \<le> nowAfterRead then TakeOver True
      else if ik_requestHash existing \<noteq> rr_requestHash rr then Decided (Inl idempotency_conflict)
      else case ik_status existing of
        Completed \<Rightarrow> Decided (Inr (Replay (stored_response existing)))
      | FailedAttempt \<Rightarrow> TakeOver False
      | InProgress \<Rightarrow>
          (if ik_leaseExpiresAt existing > nowAfterRead
           then Decided (Inl (concurrent_retry
                  (retryAfterSec (ik_leaseExpiresAt existing - nowAfterRead))))
           else TakeOver False)
      | OtherStatus _ \<Rightarrow> Decided (Inl (protocol_error UnknownRowStatus)))"

text \<open>One round of the loop; \<open>None\<close> is its \<open>continue\<close>.\<close>

definition reserve_round ::
  "(nat \<Rightarrow> js_string) \<Rightarrow> 'a idem_world_scheme interference \<Rightarrow> reservation_request \<Rightarrow>
     'a idem_world_scheme \<Rightarrow> (core_error + reserve_result) option \<times> 'a idem_world_scheme" where
  "reserve_round rnd between rr w =
     (let (attemptId, w1) = randomUUID rnd w;
          nowMs = pr_now w1;
          w2 = between 0 w1;
          (inserted, rows) = sql_insert (rr_identity rr)
            (fresh_row (rr_companyId rr) (rr_requestHash rr) attemptId nowMs (rr_leaseMs rr)
               (rr_grant rr)) (iw_rows w2);
          w3 = w2\<lparr>iw_rows := rows\<rparr>
      in if inserted
         then (Some (Inr (Execute \<lparr>rs_identity = rr_identity rr, rs_attemptId = attemptId,
                                   rs_leaseMs = rr_leaseMs rr\<rparr>)), w3)
         else let w4 = between 1 w3 in
           case iw_rows w4 (rr_identity rr) of
             None \<Rightarrow> (None, w4)
           | Some existing \<Rightarrow>
               (let w5 = between 2 w4; nowAfterRead = pr_now w5 in
                case decide_row rr existing nowAfterRead of
                  Decided r \<Rightarrow> (Some r, w5)
                | TakeOver reset \<Rightarrow>
                    (let (r, w6) = takeover rnd between rr (ik_attemptId existing) nowAfterRead
                           reset w5
                     in (Some r, w6))))"

fun reserve_rounds ::
  "nat \<Rightarrow> (nat \<Rightarrow> js_string) \<Rightarrow> 'a idem_world_scheme interference \<Rightarrow> reservation_request \<Rightarrow>
     ('a idem_world_scheme, core_error, reserve_result) eff" where
  "reserve_rounds 0 rnd between rr w = (Inl (concurrent_retry 1), w)"
| "reserve_rounds (Suc n) rnd between rr w =
     (case reserve_round rnd between rr w of
        (Some r, w') \<Rightarrow> (r, w')
      | (None, w') \<Rightarrow> reserve_rounds n rnd (\<lambda>k. between (k + 6)) rr w')"

definition reserve ::
  "(js_string \<Rightarrow> js_string) \<Rightarrow> (nat \<Rightarrow> js_string) \<Rightarrow> 'a idem_world_scheme interference \<Rightarrow>
     protocol_env \<Rightarrow> confirmation_grant option \<Rightarrow>
     ('a idem_world_scheme, core_error, reserve_result) eff" where
  "reserve sha256 rnd between env grant =
     eff_bind (eff_of (reservation_request_of sha256 env grant)) (reserve_rounds 2 rnd between)"

definition finalize ::
  "idempotency_reservation \<Rightarrow> json \<Rightarrow> ('a idem_world_scheme, core_error, unit) eff" where
  "finalize r output w =
     (let (updated, rows) = sql_finalize (rs_identity r) (rs_attemptId r) output (iw_rows w) in
      if updated then (Inr (), w\<lparr>iw_rows := rows\<rparr>)
      else (Inl (concurrent_retry (retryAfterSec (rs_leaseMs r))), w))"

definition markFailed :: "idempotency_reservation \<Rightarrow> 'a idem_world_scheme \<Rightarrow> 'a idem_world_scheme" where
  "markFailed r w = w\<lparr>iw_rows := snd (sql_markFailed (rs_identity r) (rs_attemptId r) (iw_rows w))\<rparr>"

definition cleanupExpiredIdempotencyKeys :: "'a idem_world_scheme \<Rightarrow> 'a idem_world_scheme" where
  "cleanupExpiredIdempotencyKeys w = w\<lparr>iw_rows := sql_cleanup (pr_now w) (iw_rows w)\<rparr>"

end
