(* ===== verification/Idempotency_Proofs.thy ===== *)
theory Idempotency_Proofs
  imports Idempotency
begin

text \<open>
  Correctness of the idempotency protocol. The first part is about the SQL statements as steps
  of any number of processes: the fencing contract of \<open>Process\<close> holds for them. The second is
  about the functions of the hook run among such steps.
\<close>

section \<open>Statements\<close>

lemma grantColumns_sel [simp]:
  "ik_companyId (grantColumns g row) = ik_companyId row"
  "ik_requestHash (grantColumns g row) = ik_requestHash row"
  "ik_status (grantColumns g row) = ik_status row"
  "ik_attemptId (grantColumns g row) = ik_attemptId row"
  "ik_leaseExpiresAt (grantColumns g row) = ik_leaseExpiresAt row"
  "ik_response (grantColumns g row) = ik_response row"
  "ik_expiresAt (grantColumns g row) = ik_expiresAt row"
  by (simp_all add: grantColumns_def split: option.split)

lemma fresh_row_sel [simp]:
  "ik_requestHash (fresh_row c h a n l g) = h"
  "ik_status (fresh_row c h a n l g) = InProgress"
  "ik_attemptId (fresh_row c h a n l g) = a"
  "ik_leaseExpiresAt (fresh_row c h a n l g) = n + l"
  "ik_expiresAt (fresh_row c h a n l g) = n + IDEMPOTENCY_RETENTION_MS"
  "ik_response (fresh_row c h a n l g) = None"
  by (simp_all add: fresh_row_def)

lemma takeover_row_sel [simp]:
  "ik_status (takeover_row a n l reset g row) = InProgress"
  "ik_attemptId (takeover_row a n l reset g row) = a"
  "ik_leaseExpiresAt (takeover_row a n l reset g row) = n + l"
  "ik_response (takeover_row a n l reset g row) = None"
  "ik_requestHash (takeover_row a n l reset g row) =
     (case reset of None \<Rightarrow> ik_requestHash row | Some h \<Rightarrow> h)"
  "ik_expiresAt (takeover_row a n l reset g row) =
     (case reset of None \<Rightarrow> ik_expiresAt row | Some h \<Rightarrow> n + IDEMPOTENCY_RETENTION_MS)"
  by (simp_all add: takeover_row_def reset_row_def split: option.split)

lemma sql_insert_iff:
  "sql_insert i row rows = (True, rows') \<longleftrightarrow> rows i = None \<and> rows' = rows(i \<mapsto> row)"
  "sql_insert i row rows = (False, rows') \<longleftrightarrow> rows i \<noteq> None \<and> rows' = rows"
  by (auto simp: sql_insert_def split: option.splits)

lemma sql_update_iff:
  "sql_update i guard change rows = (True, rows') \<longleftrightarrow>
     (\<exists>row. rows i = Some row \<and> guard row \<and> rows' = rows(i \<mapsto> change row))"
  "sql_update i guard change rows = (False, rows') \<longleftrightarrow>
     rows' = rows \<and> (\<forall>row. rows i = Some row \<longrightarrow> \<not> guard row)"
  by (auto simp: sql_update_def split: option.splits)

lemmas sql_defs = sql_takeover_def sql_finalize_def sql_markFailed_def

section \<open>Steps of any process\<close>

text \<open>
  A state is the table with the attempt ids installed so far. A step is one statement of some
  process; \<open>randomUUID\<close> is what makes an id new. Clock readings up to \<open>T\<close> occur.
\<close>

type_synonym idem_state = "idempotency_table \<times> js_string set"

inductive idem_step :: "ms \<Rightarrow> idem_state \<Rightarrow> idem_state \<Rightarrow> bool" for T where
  step_insert: "a \<notin> seen \<Longrightarrow> nowMs \<le> T \<Longrightarrow>
     sql_insert i (fresh_row c h a nowMs leaseMs g) rows = (True, rows') \<Longrightarrow>
     idem_step T (rows, seen) (rows', insert a seen)"
| step_takeover: "a \<notin> seen \<Longrightarrow> nowMs \<le> T \<Longrightarrow>
     sql_takeover i observed a nowMs leaseMs reset g rows = (True, rows') \<Longrightarrow>
     idem_step T (rows, seen) (rows', insert a seen)"
| step_finalize: "sql_finalize i a output rows = (True, rows') \<Longrightarrow>
     idem_step T (rows, seen) (rows', seen)"
| step_markFailed: "sql_markFailed i a rows = (True, rows') \<Longrightarrow>
     idem_step T (rows, seen) (rows', seen)"
| step_cleanup: "nowMs \<le> T \<Longrightarrow> idem_step T (rows, seen) (sql_cleanup nowMs rows, seen)"

inductive_cases idem_stepE: "idem_step T s s'"

definition idem_owner :: "idem_state \<Rightarrow> row_identity \<Rightarrow> js_string option" where
  "idem_owner s i = map_option ik_attemptId (fst s i)"

lemma idem_seen_mono: "idem_step T s s' \<Longrightarrow> snd s \<subseteq> snd s'"
  by (erule idem_stepE) auto

lemma idem_owner_step:
  assumes "idem_step T s s'" and "idem_owner s' k = Some a"
  shows "idem_owner s k = Some a \<or> a \<notin> snd s"
  using assms
  by (cases rule: idem_step.cases)
    (auto simp: idem_owner_def sql_defs sql_insert_iff sql_update_iff sql_cleanup_def
      split: if_splits option.splits)

interpretation idem_lease: lease_fencing idem_owner snd "idem_step T" for T
  by unfold_locales (auto intro: subsetD [OF idem_seen_mono] dest: idem_owner_step)

text \<open>A completed row is untouchable until its retention has passed.\<close>

lemma completed_step:
  assumes "idem_step T (rows, seen) (rows', seen')" and "rows i = Some row"
    and "ik_status row = Completed" and "T < ik_expiresAt row"
  shows "rows' i = Some row"
  using assms
  by (cases rule: idem_step.cases)
    (auto simp: sql_defs sql_insert_iff sql_update_iff sql_cleanup_def owned_in_progress_def
      reclaimableWhere_def split: if_splits)

lemma completed_steps:
  assumes "(idem_step T)\<^sup>*\<^sup>* s s'" and "fst s i = Some row"
    and "ik_status row = Completed" and "T < ik_expiresAt row"
  shows "fst s' i = Some row"
  using assms(1,2)
proof (induction rule: rtranclp_induct)
  case (step t u)
  then show ?case using completed_step [OF _ _ assms(3,4)] by (cases t; cases u) auto
qed simp

section \<open>The functions of the hook\<close>

definition acts_until :: "ms \<Rightarrow> 'a idem_world_scheme interference \<Rightarrow> bool" where
  "acts_until T between \<longleftrightarrow>
     (\<forall>k w. pr_now w \<le> T \<longrightarrow> pr_now (between k w) \<le> T \<and>
        (\<exists>seen seen'. (idem_step T)\<^sup>*\<^sup>* (iw_rows w, seen) (iw_rows (between k w), seen')))"

lemma acts_until_completed:
  assumes "acts_until T between" "iw_rows w i = Some row" "ik_status row = Completed"
    "T < ik_expiresAt row" "pr_now w \<le> T"
  shows "iw_rows (between k w) i = Some row" and "pr_now (between k w) \<le> T"
  using assms completed_steps [of T _ _ i row] by (fastforce simp: acts_until_def)+

lemma randomUUID_sel [simp]:
  "randomUUID rnd w = (a, w') \<longleftrightarrow> a = rnd (pr_uuids w) \<and> w' = w\<lparr>pr_uuids := Suc (pr_uuids w)\<rparr>"
  by (auto simp: randomUUID_def)

lemma reserve_round_inserted:
  assumes "iw_rows (between 0 (w\<lparr>pr_uuids := Suc (pr_uuids w)\<rparr>)) (rr_identity rr) = None"
  shows "\<exists>w'. reserve_round rnd between rr w = (Some (Inr (Execute \<lparr>rs_identity = rr_identity rr,
      rs_attemptId = rnd (pr_uuids w), rs_leaseMs = rr_leaseMs rr\<rparr>)), w')
    \<and> iw_rows w' (rr_identity rr) = Some (fresh_row (rr_companyId rr) (rr_requestHash rr)
        (rnd (pr_uuids w)) (pr_now w) (rr_leaseMs rr) (rr_grant rr))"
  using assms by (simp add: reserve_round_def Let_def randomUUID_def sql_insert_def)

text \<open>What each outcome of a function says about the table it leaves.\<close>

definition owns :: "idempotency_reservation \<Rightarrow> 'a idem_world_scheme \<Rightarrow> bool" where
  "owns r w \<longleftrightarrow> (\<exists>row. iw_rows w (rs_identity r) = Some row
     \<and> owned_in_progress (rs_attemptId r) row \<and> ik_response row = None)"

lemma takeover_owns:
  assumes "takeover rnd between rr observed nowMs reset w = (Inr (Execute r), w')"
  shows "owns r w' \<and> rs_identity r = rr_identity rr \<and> rs_attemptId r = rnd (pr_uuids w)"
  using assms
  by (auto simp: takeover_def Let_def randomUUID_def sql_defs sql_update_iff owns_def
      owned_in_progress_def resolveLostTakeover_def
      split: prod.splits if_splits option.splits)

lemma reserve_round_owns:
  assumes "reserve_round rnd between rr w = (Some (Inr (Execute r)), w')"
  shows "owns r w' \<and> rs_identity r = rr_identity rr"
proof (cases "iw_rows (between 0 (w\<lparr>pr_uuids := Suc (pr_uuids w)\<rparr>)) (rr_identity rr)")
  case None
  from reserve_round_inserted [of between w rr rnd, OF this] show ?thesis
    using assms by (auto simp: owns_def owned_in_progress_def)
next
  case (Some old)
  then have "\<exists>observed nowMs reset v. takeover rnd between rr observed nowMs reset v = (Inr (Execute r), w')"
    using assms
    by (auto simp: reserve_round_def Let_def randomUUID_def sql_insert_def decide_row_def
        split: option.splits if_splits row_status.splits prod.splits row_decision.splits)
  then show ?thesis using takeover_owns by blast
qed

lemma reserve_rounds_owns:
  "reserve_rounds n rnd between rr w = (Inr (Execute r), w') \<Longrightarrow>
     owns r w' \<and> rs_identity r = rr_identity rr"
proof (induction n arbitrary: between w)
  case (Suc n)
  then show ?case
    by (cases "reserve_round rnd between rr w"; cases "fst (reserve_round rnd between rr w)")
      (auto dest: reserve_round_owns)
qed simp

lemma reserve_owns:
  assumes "reserve sha256 rnd between env grant w = (Inr (Execute r), w')"
  shows "owns r w'"
  using assms reserve_rounds_owns by (fastforce simp: reserve_def eff_bind_Inr_iff)

definition carries :: "confirmation_grant \<Rightarrow> row_identity \<Rightarrow> 'a idem_world_scheme \<Rightarrow> bool" where
  "carries g i w \<longleftrightarrow> (\<exists>row. iw_rows w i = Some row
     \<and> ik_confirmationChallengeId row = Some (cg_challengeId g)
     \<and> ik_confirmedAt row = Some (cg_confirmedAt g)
     \<and> ik_confirmationExpiresAt row = Some (cg_expiresAt g))"

lemma grantColumns_carries:
  "ik_confirmationChallengeId (grantColumns (Some g) row) = Some (cg_challengeId g)"
  "ik_confirmedAt (grantColumns (Some g) row) = Some (cg_confirmedAt g)"
  "ik_confirmationExpiresAt (grantColumns (Some g) row) = Some (cg_expiresAt g)"
  by (simp_all add: grantColumns_def)

lemma takeover_carries:
  assumes "takeover rnd between rr observed nowMs reset w = (Inr (Execute r), w')" "rr_grant rr = Some g"
  shows "carries g (rr_identity rr) w'"
  using assms
  by (auto simp: takeover_def Let_def randomUUID_def sql_defs sql_update_iff carries_def
      takeover_row_def grantColumns_carries resolveLostTakeover_def
      split: prod.splits if_splits option.splits)

lemma reserve_round_carries:
  assumes "reserve_round rnd between rr w = (Some (Inr (Execute r)), w')" "rr_grant rr = Some g"
  shows "carries g (rr_identity rr) w'"
proof (cases "iw_rows (between 0 (w\<lparr>pr_uuids := Suc (pr_uuids w)\<rparr>)) (rr_identity rr)")
  case None
  from reserve_round_inserted [of between w rr rnd, OF this] show ?thesis
    using assms by (auto simp: carries_def fresh_row_def grantColumns_carries)
next
  case (Some old)
  then have "\<exists>observed nowMs reset v. takeover rnd between rr observed nowMs reset v = (Inr (Execute r), w')"
    using assms(1)
    by (auto simp: reserve_round_def Let_def randomUUID_def sql_insert_def decide_row_def
        split: option.splits if_splits row_status.splits prod.splits row_decision.splits)
  then show ?thesis using takeover_carries assms(2) by blast
qed

lemma reserve_rounds_carries:
  "reserve_rounds n rnd between rr w = (Inr (Execute r), w') \<Longrightarrow> rr_grant rr = Some g \<Longrightarrow>
     carries g (rr_identity rr) w'"
proof (induction n arbitrary: between w)
  case (Suc n)
  then show ?case
    by (cases "reserve_round rnd between rr w"; cases "fst (reserve_round rnd between rr w)")
      (auto dest: reserve_round_carries)
qed simp

lemma reserve_grants:
  assumes "reserve sha256 rnd between env (Some g) w = (Inr (Execute r), w')"
    and "reservation_request_of sha256 env (Some g) = Inr rr"
  shows "carries g (rr_identity rr) w' \<and> rs_identity r = rr_identity rr"
proof -
  have "rr_grant rr = Some g"
    using assms(2) by (auto simp: reservation_request_of_def res_bind_Inr_iff)
  then show ?thesis
    using assms reserve_rounds_carries reserve_rounds_owns
    by (fastforce simp: reserve_def eff_bind_Inr_iff)
qed

lemma finalize_cases:
  "finalize r output w =
     (if \<exists>row. iw_rows w (rs_identity r) = Some row \<and> owned_in_progress (rs_attemptId r) row
      then (Inr (), w\<lparr>iw_rows := (iw_rows w)(rs_identity r \<mapsto>
              (the (iw_rows w (rs_identity r)))\<lparr>ik_status := Completed, ik_response := Some output\<rparr>)\<rparr>)
      else (Inl (concurrent_retry (retryAfterSec (rs_leaseMs r))), w))"
  by (auto simp: finalize_def sql_finalize_def sql_update_def split: option.splits)

text \<open>
  C12: a lost lease never commits. Whatever the other processes did while \<open>reserve\<close> ran, an
  \<open>Execute\<close> outcome owns its row, and its \<open>finalize\<close> succeeds there. Once any later statement of
  any process has given the key to another attempt or removed the row, the \<open>finalize\<close> of the
  superseded attempt fails for ever and changes nothing, so its transaction rolls back.
\<close>

theorem lost_lease_never_commits:
  assumes "reserve sha256 rnd between env grant w0 = (Inr (Execute r), w1)"
    and "(idem_step T)\<^sup>*\<^sup>* (iw_rows w1, seen1) (rows2, seen2)" and "rs_attemptId r \<in> seen1"
    and "map_option ik_attemptId (rows2 (rs_identity r)) \<noteq> Some (rs_attemptId r)"
    and "(idem_step T)\<^sup>*\<^sup>* (rows2, seen2) (iw_rows w3, seen3)"
  shows "fst (finalize r output w1) = Inr ()
    \<and> finalize r output w3 = (Inl (concurrent_retry (retryAfterSec (rs_leaseMs r))), w3)"
proof
  show "fst (finalize r output w1) = Inr ()"
    using reserve_owns [OF assms(1)] by (auto simp: owns_def finalize_cases)
  have "rs_attemptId r \<in> seen2"
    using idem_lease.issued_reach [OF assms(2)] assms(3) by auto
  then have "idem_owner (iw_rows w3, seen3) (rs_identity r) \<noteq> Some (rs_attemptId r)"
    using idem_lease.lost_stays_lost [OF assms(5)] assms(4) by (simp add: idem_owner_def)
  then show "finalize r output w3 = (Inl (concurrent_retry (retryAfterSec (rs_leaseMs r))), w3)"
    by (auto simp: finalize_cases idem_owner_def owned_in_progress_def)
qed

lemma completed_round:
  assumes "acts_until T between" "iw_rows w (rr_identity rr) = Some row" "ik_status row = Completed"
    "T < ik_expiresAt row" "pr_now w \<le> T"
  shows "\<exists>w'. reserve_round rnd between rr w =
      (Some (if ik_requestHash row = rr_requestHash rr then Inr (Replay (stored_response row))
             else Inl idempotency_conflict), w') \<and> iw_rows w' (rr_identity rr) = Some row"
proof -
  let ?w1 = "w\<lparr>pr_uuids := Suc (pr_uuids w)\<rparr>"
  have keep: "iw_rows (between k v) (rr_identity rr) = Some row" "pr_now (between k v) \<le> T"
    if "iw_rows v (rr_identity rr) = Some row" "pr_now v \<le> T" for k v
    using acts_until_completed [OF assms(1) that(1) assms(3,4) that(2)] by auto
  have r1: "iw_rows (between 0 ?w1) (rr_identity rr) = Some row" "pr_now (between 0 ?w1) \<le> T"
    using keep [of ?w1 0] assms(2,5) by simp_all
  have r2: "iw_rows (between 1 (between 0 ?w1)) (rr_identity rr) = Some row"
    "pr_now (between 1 (between 0 ?w1)) \<le> T"
    using keep [OF r1, of 1] by simp_all
  have r3: "iw_rows (between 2 (between 1 (between 0 ?w1))) (rr_identity rr) = Some row"
    "\<not> ik_expiresAt row \<le> pr_now (between 2 (between 1 (between 0 ?w1)))"
    using keep [OF r2, of 2] assms(4) by simp_all
  have "(between 0 ?w1)\<lparr>iw_rows := iw_rows (between 0 ?w1)\<rparr> = between 0 ?w1" by simp
  then show ?thesis
    using r1 r2 r3 assms(3) by (simp add: reserve_round_def Let_def randomUUID_def sql_insert_def decide_row_def)
qed

text \<open>
  C13: a completed submit is replayed, never repeated. While no clock has reached the end of the
  retention of a completed row, and whatever statements the other processes run in between, the
  row stays as it is, a retry with the same payload gets the stored response, a different payload
  under the same key is refused, and no attempt can finalize or fail the row again.
\<close>

theorem completed_submit_replays:
  assumes "iw_rows w (rr_identity rr) = Some row" and "ik_status row = Completed"
    and "T < ik_expiresAt row" and "acts_until T between" and "pr_now w \<le> T"
    and "reservation_request_of sha256 env grant = Inr rr"
  shows "\<exists>w'. reserve sha256 rnd between env grant w =
      (if ik_requestHash row = rr_requestHash rr then Inr (Replay (stored_response row))
       else Inl idempotency_conflict, w') \<and> iw_rows w' (rr_identity rr) = Some row
    \<and> (\<forall>r out. rs_identity r = rr_identity rr \<longrightarrow> fst (finalize r out w') \<noteq> Inr ()
         \<and> iw_rows (markFailed r w') (rr_identity rr) = Some row)"
proof -
  obtain w' where w': "reserve_round rnd between rr w =
      (Some (if ik_requestHash row = rr_requestHash rr then Inr (Replay (stored_response row))
             else Inl idempotency_conflict), w')" "iw_rows w' (rr_identity rr) = Some row"
    using completed_round [OF assms(4,1,2,3,5)] by blast
  then have "reserve sha256 rnd between env grant w =
      (if ik_requestHash row = rr_requestHash rr then Inr (Replay (stored_response row))
       else Inl idempotency_conflict, w')"
    by (simp add: reserve_def eff_bind_def assms(6) numeral_2_eq_2)
  moreover have "fst (finalize r out w') \<noteq> Inr ()
      \<and> iw_rows (markFailed r w') (rr_identity rr) = Some row" if "rs_identity r = rr_identity rr" for r out
    using that w'(2) assms(2)
    by (simp add: finalize_cases markFailed_def sql_markFailed_def sql_update_def owned_in_progress_def)
  ultimately show ?thesis using w'(2) by blast
qed

text \<open>The outcome of a reservation that meets no interference, as a decision table.\<close>

definition reserve_spec :: "reservation_request \<Rightarrow> idempotency_row option \<Rightarrow> ms \<Rightarrow> js_string \<Rightarrow>
    core_error + reserve_result" where
  "reserve_spec rr row nowMs attemptId =
     (let go = Inr (Execute \<lparr>rs_identity = rr_identity rr, rs_attemptId = attemptId,
                             rs_leaseMs = rr_leaseMs rr\<rparr>) in
      case row of
        None \<Rightarrow> go
      | Some r \<Rightarrow>
          if ik_expiresAt r \<le> nowMs then go
          else if ik_requestHash r \<noteq> rr_requestHash rr then Inl idempotency_conflict
          else if ik_status r = Completed then Inr (Replay (stored_response r))
          else if ik_status r = FailedAttempt then go
          else if ik_status r = InProgress then
            (if ik_leaseExpiresAt r \<le> nowMs then go
             else Inl (concurrent_retry (retryAfterSec (ik_leaseExpiresAt r - nowMs))))
          else Inl (protocol_error UnknownRowStatus))"

lemma takeover_alone:
  assumes "iw_rows w (rr_identity rr) = Some row" and "ik_attemptId row = observed"
    and "reclaimableWhere nowMs row"
  shows "fst (takeover rnd alone rr observed nowMs reset w)
    = Inr (Execute \<lparr>rs_identity = rr_identity rr, rs_attemptId = rnd (pr_uuids w),
                    rs_leaseMs = rr_leaseMs rr\<rparr>)"
  using assms by (simp add: takeover_def Let_def randomUUID_def sql_takeover_def sql_update_def)

lemma decide_take_reclaimable:
  "decide_row rr row nowMs = TakeOver reset \<Longrightarrow> reclaimableWhere nowMs row"
  by (auto simp: decide_row_def reclaimableWhere_def split: if_splits row_status.splits)

lemma reserve_alone_outcome:
  assumes "reservation_request_of sha256 env grant = Inr rr"
  shows "fst (reserve sha256 rnd alone env grant w) = reserve_spec rr (iw_rows w (rr_identity rr)) (pr_now w)
     (rnd (pr_uuids w + (if iw_rows w (rr_identity rr) = None then 0 else 1)))"
proof (cases "iw_rows w (rr_identity rr)")
  case None
  then show ?thesis
    using reserve_round_inserted [of alone w rr rnd] assms
    by (auto simp: reserve_def eff_bind_def numeral_2_eq_2 reserve_spec_def Let_def)
next
  case (Some row)
  let ?w = "w\<lparr>pr_uuids := Suc (pr_uuids w)\<rparr>"
  have round: "reserve_round rnd alone rr w = (case decide_row rr row (pr_now w) of
      Decided r \<Rightarrow> (Some r, ?w)
    | TakeOver reset \<Rightarrow> (let (r, w6) = takeover rnd alone rr (ik_attemptId row) (pr_now w) reset ?w
        in (Some r, w6)))"
    using Some
    by (simp add: reserve_round_def Let_def randomUUID_def sql_insert_def split: row_decision.split)
  show ?thesis
  proof (cases "decide_row rr row (pr_now w)")
    case (Decided r)
    then have "r = reserve_spec rr (Some row) (pr_now w) (rnd (pr_uuids w + 1))"
      by (auto simp: decide_row_def reserve_spec_def Let_def split: if_splits row_status.splits)
    then show ?thesis
      using Some Decided round assms by (simp add: reserve_def eff_bind_def numeral_2_eq_2)
  next
    case (TakeOver reset)
    have "fst (takeover rnd alone rr (ik_attemptId row) (pr_now w) reset ?w)
        = reserve_spec rr (Some row) (pr_now w) (rnd (pr_uuids w + 1))"
      using takeover_alone [of ?w rr row, OF _ refl decide_take_reclaimable [OF TakeOver]] Some TakeOver
      by (auto simp: decide_row_def reserve_spec_def Let_def split: if_splits row_status.splits)
    then show ?thesis
      using Some TakeOver round assms
      by (simp add: reserve_def eff_bind_def numeral_2_eq_2 split: prod.splits)
  qed
qed

text \<open>
  What \<open>reserve\<close> does when no other process interferes, on every branch. It executes when
  there is no row, when the retention of the row has passed, when the last attempt failed and
  when its lease ran out; it replays a completed row; it refuses another payload; and against a
  live attempt it asks to retry after the rest of the lease, rounded up to whole seconds.
\<close>

theorem reserve_outcome_alone:
  assumes "reservation_request_of sha256 env grant = Inr rr"
  shows "fst (reserve sha256 rnd alone env grant w) =
     (let nowMs = pr_now w;
          attemptId = rnd (pr_uuids w + (if iw_rows w (rr_identity rr) = None then 0 else 1));
          go = Inr (Execute \<lparr>rs_identity = rr_identity rr, rs_attemptId = attemptId,
                             rs_leaseMs = rr_leaseMs rr\<rparr>) in
      case iw_rows w (rr_identity rr) of
        None \<Rightarrow> go
      | Some r \<Rightarrow>
          if ik_expiresAt r \<le> nowMs then go
          else if ik_requestHash r \<noteq> rr_requestHash rr then Inl idempotency_conflict
          else if ik_status r = Completed then Inr (Replay (stored_response r))
          else if ik_status r = FailedAttempt then go
          else if ik_status r = InProgress then
            (if ik_leaseExpiresAt r \<le> nowMs then go
             else Inl (concurrent_retry (retryAfterSec (ik_leaseExpiresAt r - nowMs))))
          else Inl (protocol_error UnknownRowStatus))"
  unfolding reserve_alone_outcome [OF assms] reserve_spec_def Let_def by (rule refl)

text \<open>
  A confirmed attempt that failed resumes without a new confirmation. When an attempt that
  carried a consumed grant is marked failed, then until the grant or the row expires a probe with
  the same payload returns that very grant; once the attempt has completed it never does.
\<close>

theorem failed_confirmed_attempt_resumes:
  assumes "reserve sha256 rnd between env (Some g) w0 = (Inr (Execute r), w1)"
    and "reservation_request_of sha256 env (Some g) = Inr rr"
    and "iw_rows w1 (rr_identity rr) = Some row" and "ik_requestHash row = rr_requestHash rr"
    and "nowMs < cg_expiresAt g" and "nowMs < ik_expiresAt row"
  shows "fst (probe sha256 alone env (markFailed r w1\<lparr>pr_now := nowMs\<rparr>)) = Inr (Resume g)
    \<and> fst (probe sha256 alone env ((snd (finalize r out w1))\<lparr>pr_now := nowMs\<rparr>)) = Inr (ProbeReplay out)"
proof -
  have grant: "ik_confirmationChallengeId row = Some (cg_challengeId g)
      \<and> ik_confirmedAt row = Some (cg_confirmedAt g)
      \<and> ik_confirmationExpiresAt row = Some (cg_expiresAt g)" and id: "rs_identity r = rr_identity rr"
    using reserve_grants [OF assms(1,2)] assms(3) by (auto simp: carries_def)
  have own: "owned_in_progress (rs_attemptId r) row"
    using reserve_owns [OF assms(1)] assms(3) id by (auto simp: owns_def)
  obtain rr' where rr': "reservation_request_of sha256 env None = Inr rr'"
    "rr_identity rr' = rr_identity rr" "rr_requestHash rr' = rr_requestHash rr"
    using assms(2) by (auto simp: reservation_request_of_def res_bind_Inr_iff)
  have "iw_rows (markFailed r w1) (rr_identity rr) = Some (row\<lparr>ik_status := FailedAttempt\<rparr>)"
    using own assms(3) id by (simp add: markFailed_def sql_markFailed_def sql_update_def)
  moreover have "unexpiredGrant (row\<lparr>ik_status := FailedAttempt\<rparr>) nowMs = Some g"
    using grant assms(5) by (simp add: unexpiredGrant_def)
  ultimately have "fst (probe sha256 alone env (markFailed r w1\<lparr>pr_now := nowMs\<rparr>)) = Inr (Resume g)"
    using rr' assms(4,6) by (simp add: probe_def Let_def interpretProbeRow_def)
  moreover have "iw_rows (snd (finalize r out w1)) (rr_identity rr)
      = Some (row\<lparr>ik_status := Completed, ik_response := Some out\<rparr>)"
    using own assms(3) id by (simp add: finalize_cases)
  then have "fst (probe sha256 alone env ((snd (finalize r out w1))\<lparr>pr_now := nowMs\<rparr>))
      = Inr (ProbeReplay out)"
    using rr' assms(4,6) by (simp add: probe_def Let_def interpretProbeRow_def stored_response_def)
  ultimately show ?thesis by blast
qed

text \<open>The identity that answers for an invocation.\<close>

definition accountable :: "protocol_env \<Rightarrow> js_string" where
  "accountable env =
     (case pe_principal env of
        InvokeSystem serviceName _ _ \<Rightarrow> serviceName
      | InvokeShare \<Rightarrow> (case pa_tokenHash (pe_authorization env) of None \<Rightarrow> [] | Some h \<Rightarrow> h)
      | _ \<Rightarrow> actor_id (pa_actor (pe_authorization env)))"

lemma principalKeyFor_eq:
  assumes "principalKeyFor env = Inr p"
  shows "p = (case invocation_mode (pe_principal env) of Staff \<Rightarrow> ''staff:'' | Customer \<Rightarrow> ''customer:''
      | Account \<Rightarrow> ''account:'' | System \<Rightarrow> ''system:'' | _ \<Rightarrow> ''share:'') @ accountable env
    \<and> invocation_mode (pe_principal env) \<notin> {Public, Consumer}"
  using assms by (cases "pe_principal env")
    (auto simp: principalKeyFor_def user_principal_key_def accountable_def
      split: actor.splits option.splits if_splits)

lemma scopeKeyFor_eq:
  assumes "scopeKeyFor env = Inr s" and "invocation_mode (pe_principal env) \<noteq> Account"
  shows "s = (case pa_companyId (pe_authorization env) of None \<Rightarrow> ''global'' | Some c \<Rightarrow> ''company:'' @ c)"
  using assms by (auto simp: scopeKeyFor_def split: option.splits if_splits)

text \<open>
  C16: reservations never cross identities. Two invocations that reserve under the same principal
  key and the same scope key are of the same principal mode, answer to the same user, service or
  share token, and, outside account mode, act in the same company or both in none: no caller can
  replay or block the stored response of another one or of another tenant.
\<close>

theorem reservations_never_cross_identities:
  assumes "principalKeyFor e1 = Inr p" and "principalKeyFor e2 = Inr p"
    and "scopeKeyFor e1 = Inr s" and "scopeKeyFor e2 = Inr s"
  shows "invocation_mode (pe_principal e1) = invocation_mode (pe_principal e2)
    \<and> accountable e1 = accountable e2
    \<and> (invocation_mode (pe_principal e1) \<noteq> Account \<longrightarrow>
         pa_companyId (pe_authorization e1) = pa_companyId (pe_authorization e2))"
proof -
  have same: "invocation_mode (pe_principal e1) = invocation_mode (pe_principal e2)
      \<and> accountable e1 = accountable e2"
    using principalKeyFor_eq [OF assms(1)] principalKeyFor_eq [OF assms(2)]
    by (cases "invocation_mode (pe_principal e1)"; cases "invocation_mode (pe_principal e2)") auto
  then show ?thesis
    using scopeKeyFor_eq [OF assms(3)] scopeKeyFor_eq [OF assms(4)]
    by (auto split: option.splits)
qed

section \<open>Witnesses\<close>

definition unary :: "nat \<Rightarrow> js_string" where
  "unary n = replicate n CHR ''x''"

definition sample_protocol_env :: protocol_env where
  "sample_protocol_env = \<lparr>pe_contract = sample_contract, pe_request = sample_hook_request,
     pe_principal = InvokeStaff (Some ''u1'') (Some sample_company), pe_input = JNull,
     pe_authorization = \<lparr>pa_actor = UserActor ''u1'', pa_companyId = Some sample_company,
       pa_target = None, pa_tokenHash = None\<rparr>\<rparr>"

definition empty_world :: idem_world where
  "empty_world = \<lparr>pr_now = 1000, pr_uuids = 0, iw_rows = Map.empty\<rparr>"

definition sample_grant :: confirmation_grant where
  "sample_grant = \<lparr>cg_challengeId = ''c1'', cg_confirmedAt = 900, cg_expiresAt = 300000\<rparr>"

lemma sample_keys:
  "principalKeyFor sample_protocol_env = Inr ''staff:u1''"
  "scopeKeyFor sample_protocol_env = Inr (''company:'' @ sample_company)"
  by (simp_all add: principalKeyFor_def scopeKeyFor_def user_principal_key_def sample_protocol_env_def)

lemma sample_reservation_request: "\<exists>rr. reservation_request_of id sample_protocol_env g = Inr rr"
proof -
  have "\<exists>h. requestHashOf id sample_protocol_env p s = Inr h" for p s
    by (simp add: requestHashOf_def canonicalJsonSha256OfUnknown_def canonicalJsonSha256_def
        canonicalJson_def sorted_members_def sample_protocol_env_def)
  then obtain h where "requestHashOf id sample_protocol_env ''staff:u1'' (''company:'' @ sample_company) = Inr h"
    by blast
  moreover have "requireIdempotencyKey (pe_request sample_protocol_env) = Inr ''k1''"
    by (simp add: requireIdempotencyKey_def sample_protocol_env_def sample_hook_request_def)
  ultimately show ?thesis by (simp add: reservation_request_of_def sample_keys)
qed

lemma sample_reserve:
  obtains r :: idempotency_reservation and w1 :: idem_world and rr :: reservation_request
  where "reserve id unary alone sample_protocol_env (Some sample_grant) empty_world
      = (Inr (Execute r), w1)"
    and "reservation_request_of id sample_protocol_env (Some sample_grant) = Inr rr"
    and "iw_rows w1 (rr_identity rr) = Some (fresh_row (rr_companyId rr) (rr_requestHash rr)
        (unary 0) 1000 (rr_leaseMs rr) (rr_grant rr))"
    and "rs_identity r = rr_identity rr" and "rs_attemptId r = unary 0"
proof -
  obtain rr where rr: "reservation_request_of id sample_protocol_env (Some sample_grant) = Inr rr"
    using sample_reservation_request by blast
  have "iw_rows (alone 0 (empty_world\<lparr>pr_uuids := Suc (pr_uuids empty_world)\<rparr>)) (rr_identity rr) = None"
    by (simp add: empty_world_def)
  from reserve_round_inserted [of alone empty_world rr unary, OF this]
  obtain w' where w': "reserve_round unary alone rr empty_world = (Some (Inr (Execute
      \<lparr>rs_identity = rr_identity rr, rs_attemptId = unary 0, rs_leaseMs = rr_leaseMs rr\<rparr>)), w')"
    "iw_rows w' (rr_identity rr) = Some (fresh_row (rr_companyId rr) (rr_requestHash rr)
        (unary 0) 1000 (rr_leaseMs rr) (rr_grant rr))"
    by (auto simp: empty_world_def)
  show ?thesis
  proof (rule that [OF _ rr w'(2)])
    show "reserve id unary alone sample_protocol_env (Some sample_grant) empty_world
        = (Inr (Execute \<lparr>rs_identity = rr_identity rr, rs_attemptId = unary 0,
             rs_leaseMs = rr_leaseMs rr\<rparr>), w')"
      using w'(1) rr by (simp add: reserve_def eff_bind_def numeral_2_eq_2)
  qed simp_all
qed

theorem lost_lease_never_commits_witness:
  "\<exists>r w1 (w3 :: idem_world). finalize r JNull w3 = (Inl (concurrent_retry (retryAfterSec (rs_leaseMs r))), w3)
     \<and> reserve id unary alone sample_protocol_env (Some sample_grant) empty_world = (Inr (Execute r), w1)"
proof (rule sample_reserve)
  fix r w1 rr
  assume r: "reserve id unary alone sample_protocol_env (Some sample_grant) empty_world = (Inr (Execute r), w1)"
    "iw_rows w1 (rr_identity rr) = Some (fresh_row (rr_companyId rr) (rr_requestHash rr)
        (unary 0) 1000 (rr_leaseMs rr) (rr_grant rr))"
    "rs_identity r = rr_identity rr" "rs_attemptId r = unary 0"
  let ?T = "1000 + IDEMPOTENCY_RETENTION_MS"
  let ?rows = "sql_cleanup ?T (iw_rows w1)"
  have gone: "?rows (rs_identity r) = None" using r(2,3) by (simp add: sql_cleanup_def)
  have "(idem_step ?T)\<^sup>*\<^sup>* (iw_rows w1, {unary 0}) (?rows, {unary 0})"
    by (rule r_into_rtranclp) (rule step_cleanup, simp)
  then have "finalize r JNull (w1\<lparr>iw_rows := ?rows\<rparr>)
      = (Inl (concurrent_retry (retryAfterSec (rs_leaseMs r))), w1\<lparr>iw_rows := ?rows\<rparr>)"
    using lost_lease_never_commits [OF r(1), of ?T "{unary 0}" ?rows "{unary 0}"
        "w1\<lparr>iw_rows := ?rows\<rparr>" "{unary 0}" JNull] r(4) gone
    by simp
  then show ?thesis using r(1) by blast
qed

theorem completed_submit_replays_witness:
  "\<exists>(w :: idem_world) w'. reserve id unary alone sample_protocol_env None w = (Inr (Replay (JNumber 7)), w')"
proof -
  obtain rr where rr: "reservation_request_of id sample_protocol_env None = Inr rr"
    using sample_reservation_request by blast
  let ?row = "(fresh_row None (rr_requestHash rr) ''a'' 0 0 None)
      \<lparr>ik_status := Completed, ik_response := Some (JNumber 7)\<rparr>"
  let ?w = "empty_world\<lparr>iw_rows := [rr_identity rr \<mapsto> ?row]\<rparr>"
  have "acts_until 2000 (alone :: idem_world interference)"
    by (auto simp: acts_until_def)
  moreover have "iw_rows ?w (rr_identity rr) = Some ?row" "ik_status ?row = Completed"
    "2000 < ik_expiresAt ?row" "pr_now ?w \<le> 2000" "stored_response ?row = JNumber 7"
    by (simp_all add: IDEMPOTENCY_RETENTION_MS_def empty_world_def stored_response_def)
  ultimately have "\<exists>w'. reserve id unary alone sample_protocol_env None ?w = (Inr (Replay (JNumber 7)), w')"
    using completed_submit_replays [of ?w rr ?row 2000 alone id sample_protocol_env None unary] rr
    by auto
  then show ?thesis by blast
qed

theorem reserve_outcome_alone_witness:
  "\<exists>rr :: reservation_request. fst (reserve id unary alone sample_protocol_env None empty_world)
     = Inr (Execute \<lparr>rs_identity = rr_identity rr, rs_attemptId = [], rs_leaseMs = rr_leaseMs rr\<rparr>)"
proof -
  obtain rr where rr: "reservation_request_of id sample_protocol_env None = Inr rr"
    using sample_reservation_request by blast
  have "fst (reserve id unary alone sample_protocol_env None empty_world)
     = Inr (Execute \<lparr>rs_identity = rr_identity rr, rs_attemptId = [], rs_leaseMs = rr_leaseMs rr\<rparr>)"
    using reserve_outcome_alone [OF rr, of unary empty_world]
    by (simp add: empty_world_def unary_def Let_def)
  then show ?thesis by blast
qed

theorem failed_confirmed_attempt_resumes_witness:
  "\<exists>r w1. fst (probe id alone sample_protocol_env (markFailed r w1\<lparr>pr_now := 2000\<rparr>)) = Inr (Resume sample_grant)
     \<and> reserve id unary alone sample_protocol_env (Some sample_grant) empty_world = (Inr (Execute r), w1)"
proof (rule sample_reserve)
  fix r w1 rr
  assume r: "reserve id unary alone sample_protocol_env (Some sample_grant) empty_world = (Inr (Execute r), w1)"
    "reservation_request_of id sample_protocol_env (Some sample_grant) = Inr rr"
    "iw_rows w1 (rr_identity rr) = Some (fresh_row (rr_companyId rr) (rr_requestHash rr)
        (unary 0) 1000 (rr_leaseMs rr) (rr_grant rr))"
  have "fst (probe id alone sample_protocol_env (markFailed r w1\<lparr>pr_now := 2000\<rparr>)) = Inr (Resume sample_grant)"
    using failed_confirmed_attempt_resumes [OF r, of 2000 JNull]
    by (simp add: sample_grant_def IDEMPOTENCY_RETENTION_MS_def)
  then show ?thesis using r(1) by blast
qed

theorem reservations_never_cross_identities_witness:
  "accountable sample_protocol_env
     = accountable (sample_protocol_env\<lparr>pe_principal := InvokeStaff None None\<rparr>)"
proof -
  let ?e = "sample_protocol_env\<lparr>pe_principal := InvokeStaff None None\<rparr>"
  have "principalKeyFor ?e = Inr ''staff:u1''" "scopeKeyFor ?e = Inr (''company:'' @ sample_company)"
    by (simp_all add: principalKeyFor_def scopeKeyFor_def user_principal_key_def sample_protocol_env_def)
  then show ?thesis
    using reservations_never_cross_identities [OF sample_keys(1) _ sample_keys(2)] by blast
qed

end
