(* ===== verification/Confirmation.thy ===== *)
theory Confirmation
  imports Idempotency
begin

text \<open>
  The confirmation protocol (\<open>runtime/confirmation/create-confirmation-hook.ts\<close>) over the
  storage seam of \<open>runtime/confirmation/store.ts\<close>, and the in-memory store of that file. A
  store is a record of two effects, each atomic, that may also throw when the storage is
  unavailable. The text a store keeps is the JSON of a challenge; the model keeps the challenge
  itself, and \<open>Garbage\<close> for a text that is no JSON. \<open>zod_uuid\<close> (the \<open>z.uuid()\<close> of the Zod
  package) and \<open>sha256\<close> are parameters.
\<close>

section \<open>The store\<close>

record stored_challenge =
  sc_challengeId :: js_string
  sc_actionName :: js_string
  sc_inputHash :: js_string
  sc_previewHash :: "js_string option"
  sc_principalKey :: js_string
  sc_companyId :: "js_string option"
  sc_idempotencyKey :: js_string
  sc_expiresAt :: ms

datatype stored_text = ChallengeText stored_challenge | Garbage

record 'w confirmation_store =
  cs_set :: "js_string \<Rightarrow> stored_text \<Rightarrow> ms \<Rightarrow> ('w, thrown, unit) eff"
  cs_getAndDelete :: "js_string \<Rightarrow> ('w, thrown, stored_text option) eff"

record store_entry =
  se_value :: stored_text
  se_expiresAtMs :: ms

record conf_world = idem_world +
  cw_entries :: "js_string \<Rightarrow> store_entry option"

definition memory_set ::
  "js_string \<Rightarrow> stored_text \<Rightarrow> ms \<Rightarrow> ('a conf_world_scheme, thrown, unit) eff" where
  "memory_set key val ttlMs w =
     (Inr (), w\<lparr>cw_entries := (cw_entries w)
        (key \<mapsto> \<lparr>se_value = val, se_expiresAtMs = pr_now w + ttlMs\<rparr>)\<rparr>)"

definition memory_getAndDelete ::
  "js_string \<Rightarrow> ('a conf_world_scheme, thrown, stored_text option) eff" where
  "memory_getAndDelete key w =
     (let entry = cw_entries w key; w' = w\<lparr>cw_entries := (cw_entries w)(key := None)\<rparr> in
      (case entry of
         None \<Rightarrow> Inr None
       | Some e \<Rightarrow> Inr (if se_expiresAtMs e \<le> pr_now w then None else Some (se_value e)), w'))"

definition createInMemoryConfirmationStore :: "'a conf_world_scheme confirmation_store" where
  "createInMemoryConfirmationStore =
     \<lparr>cs_set = memory_set, cs_getAndDelete = memory_getAndDelete\<rparr>"

section \<open>The hook\<close>

definition CONFIRMATION_TTL_MS :: ms where
  "CONFIRMATION_TTL_MS = 5 * 60 * 1000"

record challenge_summary =
  cm_summary :: js_string
  cm_preview :: "action_preview option"

definition challengeKey :: "js_string \<Rightarrow> js_string" where
  "challengeKey challengeId = ''confirm:'' @ challengeId"

definition canonicalPreviewLine :: "action_preview_line \<Rightarrow> json" where
  "canonicalPreviewLine line =
     JObject [(''label'', JString (pl_label line)), (''value'', JString (pl_value line))]"

definition canonicalPreview :: "action_preview \<Rightarrow> json" where
  "canonicalPreview preview = JObject [
     (''title'', JString (pv_title preview)),
     (''lines'', JArray (map canonicalPreviewLine (pv_lines preview))),
     (''notes'', JArray (map JString (case pv_notes preview of None \<Rightarrow> [] | Some ns \<Rightarrow> ns)))]"

definition previewHashOf ::
  "(js_string \<Rightarrow> js_string) \<Rightarrow> challenge_summary \<Rightarrow> core_error + js_string option" where
  "previewHashOf sha256 shown =
     (case cm_preview shown of
        None \<Rightarrow> Inr None
      | Some preview \<Rightarrow>
          res_bind (canonicalJsonSha256OfUnknown sha256 (canonicalPreview preview))
            (\<lambda>hash. Inr (Some hash)))"

record challenge_bindings =
  cb_inputHash :: js_string
  cb_principalKey :: js_string
  cb_companyId :: "js_string option"
  cb_idempotencyKey :: js_string

definition bindingsMatch ::
  "stored_challenge \<Rightarrow> protocol_env \<Rightarrow> js_string \<Rightarrow> challenge_bindings \<Rightarrow> bool" where
  "bindingsMatch stored env challengeId expected =
     (sc_challengeId stored = challengeId
      \<and> sc_actionName stored = ac_name (pe_contract env)
      \<and> sc_inputHash stored = cb_inputHash expected
      \<and> sc_principalKey stored = cb_principalKey expected
      \<and> sc_companyId stored = cb_companyId expected
      \<and> sc_idempotencyKey stored = cb_idempotencyKey expected)"

definition storedChallengeSchema :: "(js_string \<Rightarrow> bool) \<Rightarrow> stored_challenge \<Rightarrow> bool" where
  "storedChallengeSchema zod_uuid c =
     (zod_uuid (sc_challengeId c) \<and> sc_actionName c \<noteq> [] \<and> sc_inputHash c \<noteq> []
      \<and> sc_previewHash c \<noteq> Some [] \<and> sc_principalKey c \<noteq> []
      \<and> (case sc_companyId c of None \<Rightarrow> True | Some i \<Rightarrow> zod_uuid i) \<and> sc_idempotencyKey c \<noteq> [])"

definition parseChallenge ::
  "(js_string \<Rightarrow> bool) \<Rightarrow> stored_text option \<Rightarrow> stored_challenge option" where
  "parseChallenge zod_uuid raw =
     (case raw of
        Some (ChallengeText c) \<Rightarrow> if storedChallengeSchema zod_uuid c then Some c else None
      | _ \<Rightarrow> None)"

definition withStore :: "('w, thrown, 'a) eff \<Rightarrow> ('w, thrown, 'a) eff" where
  "withStore run w =
     (case run w of
        (Inl Foreign, w') \<Rightarrow> (Inl (Typed (protocol_error ConfirmationStoreUnavailable)), w')
      | r \<Rightarrow> r)"

definition issueChallenge ::
  "(js_string \<Rightarrow> js_string) \<Rightarrow> (nat \<Rightarrow> js_string) \<Rightarrow> 'a process_scheme confirmation_store \<Rightarrow>
     protocol_env \<Rightarrow> challenge_bindings \<Rightarrow> ('a process_scheme, thrown, challenge_summary) eff \<Rightarrow>
     ('a process_scheme, thrown, confirmation_grant) eff" where
  "issueChallenge sha256 rnd store env bindings present_card =
     eff_bind present_card (\<lambda>presented w.
       let (challengeId, w1) = randomUUID rnd w; expiresAt = pr_now w1 + CONFIRMATION_TTL_MS in
       eff_bind (eff_of (typed (previewHashOf sha256 presented))) (\<lambda>previewHash.
       eff_bind (withStore (cs_set store (challengeKey challengeId)
           (ChallengeText \<lparr>sc_challengeId = challengeId,
              sc_actionName = ac_name (pe_contract env),
              sc_inputHash = cb_inputHash bindings,
              sc_previewHash = previewHash,
              sc_principalKey = cb_principalKey bindings,
              sc_companyId = cb_companyId bindings,
              sc_idempotencyKey = cb_idempotencyKey bindings,
              sc_expiresAt = expiresAt\<rparr>) CONFIRMATION_TTL_MS)) (\<lambda>_.
         eff_throw (Typed (confirmation_required \<lparr>ch_challengeId = challengeId,
           ch_summary = cm_summary presented, ch_expiresAt = expiresAt,
           ch_preview = cm_preview presented\<rparr>)))) w1)"

definition challenge_bindings_of ::
  "(js_string \<Rightarrow> js_string) \<Rightarrow> protocol_env \<Rightarrow> core_error + challenge_bindings" where
  "challenge_bindings_of sha256 env =
     res_bind (requireIdempotencyKey (pe_request env)) (\<lambda>idempotencyKey.
     res_bind (principalKeyFor env) (\<lambda>principalKey.
     res_bind (canonicalJsonSha256OfUnknown sha256 (pe_input env)) (\<lambda>inputHash.
       Inr \<lparr>cb_inputHash = inputHash, cb_principalKey = principalKey,
            cb_companyId = pa_companyId (pe_authorization env),
            cb_idempotencyKey = idempotencyKey\<rparr>)))"

definition grant_of :: "stored_challenge \<Rightarrow> ms \<Rightarrow> confirmation_grant" where
  "grant_of stored nowMs = \<lparr>cg_challengeId = sc_challengeId stored, cg_confirmedAt = nowMs,
     cg_expiresAt = sc_expiresAt stored\<rparr>"

text \<open>What the gate does with the text it consumed under the challenge key.\<close>

definition redeem ::
  "(js_string \<Rightarrow> js_string) \<Rightarrow> (js_string \<Rightarrow> bool) \<Rightarrow> (nat \<Rightarrow> js_string) \<Rightarrow>
     'a process_scheme confirmation_store \<Rightarrow> protocol_env \<Rightarrow>
     ('a process_scheme, thrown, challenge_summary) eff \<Rightarrow> challenge_bindings \<Rightarrow> js_string \<Rightarrow>
     stored_text option \<Rightarrow> ('a process_scheme, thrown, confirmation_grant) eff" where
  "redeem sha256 zod_uuid rnd store env summarize bindings challengeId raw w =
     (case parseChallenge zod_uuid raw of
        None \<Rightarrow> issueChallenge sha256 rnd store env bindings summarize w
      | Some stored \<Rightarrow>
          (let nowMs = pr_now w in
           if sc_expiresAt stored > nowMs \<and> bindingsMatch stored env challengeId bindings
           then (case sc_previewHash stored of
              None \<Rightarrow> (Inr (grant_of stored nowMs), w)
            | Some previewHash \<Rightarrow>
                eff_bind summarize (\<lambda>presented.
                eff_bind (eff_of (typed (previewHashOf sha256 presented))) (\<lambda>hash.
                  if hash = Some previewHash then eff_return (grant_of stored nowMs)
                  else issueChallenge sha256 rnd store env bindings (eff_return presented))) w)
           else issueChallenge sha256 rnd store env bindings summarize w))"

definition gate ::
  "(js_string \<Rightarrow> js_string) \<Rightarrow> (js_string \<Rightarrow> bool) \<Rightarrow> (nat \<Rightarrow> js_string) \<Rightarrow>
     'a process_scheme confirmation_store \<Rightarrow> protocol_env \<Rightarrow>
     ('a process_scheme, thrown, challenge_summary) eff \<Rightarrow>
     ('a process_scheme, thrown, confirmation_grant) eff" where
  "gate sha256 zod_uuid rnd store env summarize =
     eff_bind (eff_of (typed (challenge_bindings_of sha256 env))) (\<lambda>bindings.
       if rq_confirmationOnly (pe_request env)
       then issueChallenge sha256 rnd store env bindings summarize
       else case rq_confirmationChallengeId (pe_request env) of
         None \<Rightarrow> issueChallenge sha256 rnd store env bindings summarize
       | Some challengeId \<Rightarrow>
           (if challengeId = [] then issueChallenge sha256 rnd store env bindings summarize
            else eff_bind (withStore (cs_getAndDelete store (challengeKey challengeId)))
                   (redeem sha256 zod_uuid rnd store env summarize bindings challengeId)))"

lemma issue_never_grants: "fst (issueChallenge sha256 rnd store env b run w) \<noteq> Inr g"
  by (auto simp: issueChallenge_def eff_bind_def Let_def randomUUID_def split: prod.splits sum.splits)

lemma redeem_grants:
  assumes "redeem sha256 zod_uuid rnd store env summarize b challengeId raw w = (Inr g, w')"
  shows "\<exists>stored. raw = Some (ChallengeText stored) \<and> pr_now w < sc_expiresAt stored
    \<and> bindingsMatch stored env challengeId b \<and> g = grant_of stored (pr_now w)
    \<and> (sc_previewHash stored = None \<and> w' = w
       \<or> (\<exists>shown. summarize w = (Inr shown, w')
             \<and> previewHashOf sha256 shown = Inr (sc_previewHash stored)))"
  using assms issue_never_grants [of sha256 rnd store env b summarize w g]
    issue_never_grants [of sha256 rnd store env b "eff_return _" _ g]
  by (auto simp: redeem_def parseChallenge_def Let_def eff_bind_def
      split: option.splits stored_text.splits if_splits sum.splits prod.splits)
    (metis fst_conv)+

text \<open>When the gate grants, it has consumed a live challenge that was issued for this very invocation.\<close>

lemma gate_grants:
  assumes "gate sha256 zod_uuid rnd store env summarize w = (Inr g, w')"
  shows "\<exists>b challengeId stored w1. challenge_bindings_of sha256 env = Inr b
    \<and> \<not> rq_confirmationOnly (pe_request env)
    \<and> rq_confirmationChallengeId (pe_request env) = Some challengeId
    \<and> cs_getAndDelete store (challengeKey challengeId) w = (Inr (Some (ChallengeText stored)), w1)
    \<and> pr_now w1 < sc_expiresAt stored \<and> bindingsMatch stored env challengeId b
    \<and> g = grant_of stored (pr_now w1)
    \<and> redeem sha256 zod_uuid rnd store env summarize b challengeId (Some (ChallengeText stored)) w1
        = (Inr g, w')
    \<and> (sc_previewHash stored = None \<or> (\<exists>shown. summarize w1 = (Inr shown, w')
          \<and> previewHashOf sha256 shown = Inr (sc_previewHash stored)))"
proof -
  obtain b where b: "challenge_bindings_of sha256 env = Inr b"
    using assms by (auto simp: gate_def eff_bind_def split: sum.splits)
  obtain c where c: "rq_confirmationChallengeId (pe_request env) = Some c"
    "\<not> rq_confirmationOnly (pe_request env)" "c \<noteq> []"
    using assms b issue_never_grants [of sha256 rnd store env b summarize w g]
    by (auto simp: gate_def eff_bind_def eff_of_def typed_def split: if_splits option.splits)
  obtain raw w1 where raw: "withStore (cs_getAndDelete store (challengeKey c)) w = (Inr raw, w1)"
    "redeem sha256 zod_uuid rnd store env summarize b c raw w1 = (Inr g, w')"
    using assms b c by (auto simp: gate_def eff_bind_def eff_of_def typed_def split: prod.splits sum.splits)
  obtain stored where st: "raw = Some (ChallengeText stored)" "pr_now w1 < sc_expiresAt stored"
    "bindingsMatch stored env c b" "g = grant_of stored (pr_now w1)"
    "sc_previewHash stored = None \<or> (\<exists>shown. summarize w1 = (Inr shown, w')
        \<and> previewHashOf sha256 shown = Inr (sc_previewHash stored))"
    using redeem_grants [OF raw(2)] by (elim exE conjE) blast
  have "cs_getAndDelete store (challengeKey c) w = (Inr (Some (ChallengeText stored)), w1)"
    using raw(1) st(1) by (auto simp: withStore_def split: prod.splits sum.splits thrown.splits)
  then show ?thesis using b c(1,2) st(2-5) raw(2) unfolding st(1) by (intro exI conjI)
qed

section \<open>Laws of a store\<close>

text \<open>
  What the hook relies on. \<open>present w key\<close> is what consuming the key would return in \<open>w\<close>. A consume
  returns it and leaves nothing; a value set under a key is present; other keys keep what they
  have or lose it to expiry; and a store draws no identifiers.
\<close>

locale challenge_store =
  fixes store :: "'a process_scheme confirmation_store"
    and present :: "'a process_scheme \<Rightarrow> js_string \<Rightarrow> stored_text option"
  assumes consume_value: "cs_getAndDelete store key w = (Inr raw, w') \<Longrightarrow> raw = present w key"
    and consume_spends: "cs_getAndDelete store key w = (r, w') \<Longrightarrow> present w' key = None"
    and consume_other: "cs_getAndDelete store key w = (r, w') \<Longrightarrow>
      present w' k = None \<or> present w' k = present w k"
    and consume_uuids: "cs_getAndDelete store key w = (r, w') \<Longrightarrow> pr_uuids w' = pr_uuids w"
    and set_value: "cs_set store key val ttl w = (Inr (), w') \<Longrightarrow> 0 < ttl \<Longrightarrow>
      present w' key = Some val"
    and set_other: "cs_set store key val ttl w = (r', w') \<Longrightarrow> k \<noteq> key \<Longrightarrow>
      present w' k = None \<or> present w' k = present w k"
    and set_uuids: "cs_set store key val ttl w = (r', w') \<Longrightarrow> pr_uuids w' = pr_uuids w"
    and present_draw: "present (w\<lparr>pr_uuids := n\<rparr>) k = present w k"
begin

text \<open>
  A spent challenge: nothing to consume, and no later challenge is stored there, because a new
  one takes an identifier that has not been drawn yet.
\<close>

definition spent :: "(nat \<Rightarrow> js_string) \<Rightarrow> 'a process_scheme \<Rightarrow> js_string \<Rightarrow> bool" where
  "spent rnd w challengeId \<longleftrightarrow> present w (challengeKey challengeId) = None
     \<and> (\<forall>n \<ge> pr_uuids w. rnd n \<noteq> challengeId)"

definition harmless :: "('a process_scheme, thrown, 'b) eff \<Rightarrow> bool" where
  "harmless run \<longleftrightarrow> (\<forall>w r w'. run w = (r, w') \<longrightarrow> pr_uuids w \<le> pr_uuids w' \<and>
     (\<forall>k. present w' k = None \<or> present w' k = present w k))"

definition keeps_spent :: "(nat \<Rightarrow> js_string) \<Rightarrow> js_string \<Rightarrow> ('a process_scheme, thrown, 'b) eff \<Rightarrow> bool" where
  "keeps_spent rnd c run \<longleftrightarrow> (\<forall>w r w'. run w = (r, w') \<longrightarrow> spent rnd w c \<longrightarrow> spent rnd w' c)"

lemma harmless_keeps: "harmless run \<Longrightarrow> keeps_spent rnd c run"
  unfolding harmless_def keeps_spent_def spent_def by (metis le_trans)

lemma keeps_bind:
  assumes "keeps_spent rnd c run" and "\<And>x. keeps_spent rnd c (f x)"
  shows "keeps_spent rnd c (eff_bind run f)"
  unfolding keeps_spent_def
proof (intro allI impI)
  fix w r w' assume a: "eff_bind run f w = (r, w')" "spent rnd w c"
  obtain r1 w1 where run: "run w = (r1, w1)" by fastforce
  then have "spent rnd w1 c" using assms(1) a(2) by (auto simp: keeps_spent_def)
  then show "spent rnd w' c"
    using a(1) run assms(2) by (cases r1) (auto simp: eff_bind_def keeps_spent_def)
qed

lemma keeps_pure [simp]:
  "keeps_spent rnd c (eff_of r)" "keeps_spent rnd c (eff_return x)" "keeps_spent rnd c (eff_throw e)"
  by (simp_all add: keeps_spent_def eff_of_def eff_return_def eff_throw_def)

lemma withStore_run:
  "withStore run w = (r, w') \<Longrightarrow> \<exists>r0. run w = (r0, w') \<and> (\<forall>x. r = Inr x \<longrightarrow> r0 = Inr x)"
  by (auto simp: withStore_def split: prod.splits sum.splits thrown.splits)

lemma keeps_consume: "keeps_spent rnd c (withStore (cs_getAndDelete store key))"
  unfolding keeps_spent_def spent_def
  by (metis consume_other consume_uuids withStore_run)

lemma spent_draw: "spent rnd w c \<Longrightarrow> spent rnd (w\<lparr>pr_uuids := Suc (pr_uuids w)\<rparr>) c
    \<and> rnd (pr_uuids w) \<noteq> c"
  by (auto simp: spent_def present_draw)

lemma keeps_set:
  assumes "withStore (cs_set store (challengeKey i) val ttl) w = (r, w')" "spent rnd w c" "i \<noteq> c"
  shows "spent rnd w' c"
proof -
  obtain r0 where r0: "cs_set store (challengeKey i) val ttl w = (r0, w')"
    using withStore_run [OF assms(1)] by blast
  have "challengeKey c \<noteq> challengeKey i" using assms(3) by (simp add: challengeKey_def)
  then have "present w' (challengeKey c) = None"
    using set_other [OF r0] assms(2) by (force simp: spent_def)
  then show ?thesis using set_uuids [OF r0] assms(2) by (simp add: spent_def)
qed

lemma keeps_issue:
  assumes "keeps_spent rnd c run"
  shows "keeps_spent rnd c (issueChallenge sha256 rnd store env b run)"
  unfolding issueChallenge_def
proof (rule keeps_bind [OF assms])
  fix shown
  show "keeps_spent rnd c (\<lambda>w. let (challengeId, w1) = randomUUID rnd w;
         expiresAt = pr_now w1 + CONFIRMATION_TTL_MS in
       eff_bind (eff_of (typed (previewHashOf sha256 shown))) (\<lambda>previewHash.
       eff_bind (withStore (cs_set store (challengeKey challengeId)
           (ChallengeText \<lparr>sc_challengeId = challengeId,
              sc_actionName = ac_name (pe_contract env), sc_inputHash = cb_inputHash b,
              sc_previewHash = previewHash, sc_principalKey = cb_principalKey b,
              sc_companyId = cb_companyId b, sc_idempotencyKey = cb_idempotencyKey b,
              sc_expiresAt = expiresAt\<rparr>) CONFIRMATION_TTL_MS)) (\<lambda>_.
         eff_throw (Typed (confirmation_required \<lparr>ch_challengeId = challengeId,
           ch_summary = cm_summary shown, ch_expiresAt = expiresAt,
           ch_preview = cm_preview shown\<rparr>)))) w1)"
    unfolding keeps_spent_def
    using spent_draw keeps_set
    by (fastforce simp: randomUUID_def eff_bind_def Let_def split: sum.splits prod.splits)
qed

lemma keeps_redeem:
  assumes "keeps_spent rnd c summarize"
  shows "keeps_spent rnd c (redeem sha256 zod_uuid rnd store env summarize b i raw)"
  unfolding keeps_spent_def
proof (intro allI impI)
  fix w r w'
  assume a: "redeem sha256 zod_uuid rnd store env summarize b i raw w = (r, w')" "spent rnd w c"
  have issue: "keeps_spent rnd c (issueChallenge sha256 rnd store env b summarize)"
    by (rule keeps_issue [OF assms])
  have drift: "keeps_spent rnd c (eff_bind summarize (\<lambda>presented.
      eff_bind (eff_of (typed (previewHashOf sha256 presented))) (\<lambda>hash.
        if hash = Some h then eff_return (grant_of stored (pr_now w))
        else issueChallenge sha256 rnd store env b (eff_return presented))))" for h stored
    by (intro keeps_bind assms keeps_pure) (simp add: keeps_issue)
  show "spent rnd w' c"
    using a issue drift
    by (auto simp: redeem_def Let_def keeps_spent_def split: option.splits if_splits)
qed

lemma keeps_gate:
  assumes "keeps_spent rnd c summarize"
  shows "keeps_spent rnd c (gate sha256 zod_uuid rnd store env summarize)"
  unfolding gate_def
proof (rule keeps_bind [OF keeps_pure(1)])
  fix b
  show "keeps_spent rnd c (if rq_confirmationOnly (pe_request env)
       then issueChallenge sha256 rnd store env b summarize
       else case rq_confirmationChallengeId (pe_request env) of
         None \<Rightarrow> issueChallenge sha256 rnd store env b summarize
       | Some challengeId \<Rightarrow>
           (if challengeId = [] then issueChallenge sha256 rnd store env b summarize
            else eff_bind (withStore (cs_getAndDelete store (challengeKey challengeId)))
                   (redeem sha256 zod_uuid rnd store env summarize b challengeId)))"
    using keeps_issue [OF assms] keeps_bind [OF keeps_consume keeps_redeem [OF assms]]
    by (auto split: option.splits)
qed

text \<open>A grant spends its challenge, and a spent challenge grants nothing.\<close>

lemma grant_spends:
  assumes "gate sha256 zod_uuid rnd store env summarize w = (Inr g, w')"
    and "harmless summarize" and "\<forall>n \<ge> pr_uuids w. rnd n \<noteq> cg_challengeId g"
  shows "spent rnd w' (cg_challengeId g)"
proof -
  obtain b c stored w1 where
    g: "cs_getAndDelete store (challengeKey c) w = (Inr (Some (ChallengeText stored)), w1)"
      "bindingsMatch stored env c b" "g = grant_of stored (pr_now w1)"
      "redeem sha256 zod_uuid rnd store env summarize b c (Some (ChallengeText stored)) w1 = (Inr g, w')"
    using gate_grants [OF assms(1)] by (elim exE conjE) rule
  have c: "cg_challengeId g = c" using g(2,3) by (simp add: bindingsMatch_def grant_of_def)
  have w1: "spent rnd w1 c"
    using consume_spends [OF g(1)] consume_uuids [OF g(1)] assms(3) c by (simp add: spent_def)
  show ?thesis
    using keeps_redeem [OF harmless_keeps [OF assms(2)]] g(4) w1 c unfolding keeps_spent_def by blast
qed

lemma spent_never_grants:
  assumes "spent rnd w c" and "rq_confirmationChallengeId (pe_request env) = Some c"
  shows "fst (gate sha256 zod_uuid rnd store env summarize w) \<noteq> Inr g"
proof
  assume "fst (gate sha256 zod_uuid rnd store env summarize w) = Inr g"
  then obtain w' where "gate sha256 zod_uuid rnd store env summarize w = (Inr g, w')"
    by (metis prod.collapse)
  from gate_grants [OF this] obtain stored w1 where
    "cs_getAndDelete store (challengeKey c) w = (Inr (Some (ChallengeText stored)), w1)"
    using assms(2) by auto
  from consume_value [OF this] show False using assms(1) by (simp add: spent_def)
qed

end

end
