(* ===== verification/Confirmation_Proofs.thy ===== *)
theory Confirmation_Proofs
  imports Confirmation Idempotency_Proofs
begin

text \<open>
  What the confirmation protocol guarantees over any history of the process. The in-memory store
  keeps the contract \<open>challenge_store\<close>; a history is a sequence of gate calls and of other steps
  of the process, which pass time and draw identifiers but do not touch the store.
\<close>

section \<open>The in-memory store keeps the contract\<close>

definition live_entry :: "'a conf_world_scheme \<Rightarrow> js_string \<Rightarrow> stored_text option" where
  "live_entry w key =
     (case cw_entries w key of
        None \<Rightarrow> None
      | Some e \<Rightarrow> if se_expiresAtMs e \<le> pr_now w then None else Some (se_value e))"

lemmas memory_store_defs = createInMemoryConfirmationStore_def memory_set_def
  memory_getAndDelete_def live_entry_def

interpretation mem: challenge_store createInMemoryConfirmationStore live_entry
  by unfold_locales
    (auto simp: memory_store_defs Let_def split: option.splits if_splits)

section \<open>Histories\<close>

text \<open>
  A gate call leaves its environment and its result in the history, newest first. The card of an
  action is computed by reads only.
\<close>

type_synonym gate_result = "thrown + confirmation_grant"

definition quiet :: "('a conf_world_scheme, thrown, 'b) eff \<Rightarrow> bool" where
  "quiet run \<longleftrightarrow> (\<forall>w r w'. run w = (r, w') \<longrightarrow>
     cw_entries w' = cw_entries w \<and> pr_uuids w \<le> pr_uuids w' \<and> pr_now w \<le> pr_now w')"

record 'w gate_call =
  gc_env :: protocol_env
  gc_summarize :: "('w, thrown, challenge_summary) eff"
  gc_result :: gate_result
  gc_time :: ms

inductive conf_history ::
  "(js_string \<Rightarrow> js_string) \<Rightarrow> (js_string \<Rightarrow> bool) \<Rightarrow> (nat \<Rightarrow> js_string) \<Rightarrow>
     conf_world \<Rightarrow> conf_world gate_call list \<Rightarrow> bool"
  for sha256 zod_uuid rnd where
  start: "cw_entries w = Map.empty \<Longrightarrow> conf_history sha256 zod_uuid rnd w []"
| elsewhere: "conf_history sha256 zod_uuid rnd w h \<Longrightarrow> cw_entries w' = cw_entries w \<Longrightarrow>
    pr_uuids w \<le> pr_uuids w' \<Longrightarrow> pr_now w \<le> pr_now w' \<Longrightarrow>
    conf_history sha256 zod_uuid rnd w' h"
| gated: "conf_history sha256 zod_uuid rnd w h \<Longrightarrow> quiet run \<Longrightarrow>
    gate sha256 zod_uuid rnd createInMemoryConfirmationStore env run w = (r, w') \<Longrightarrow>
    conf_history sha256 zod_uuid rnd w' (\<lparr>gc_env = env, gc_summarize = run, gc_result = r,
       gc_time = pr_now w'\<rparr> # h)"

text \<open>A call showed the challenge \<open>ch\<close>, and the stored challenge \<open>c\<close> binds it to that call.\<close>

definition shown_challenge :: "confirmation_challenge \<Rightarrow> challenge_summary" where
  "shown_challenge ch = \<lparr>cm_summary = ch_summary ch, cm_preview = ch_preview ch\<rparr>"

definition issued_by ::
  "(js_string \<Rightarrow> js_string) \<Rightarrow> protocol_env \<Rightarrow> confirmation_challenge \<Rightarrow> stored_challenge \<Rightarrow> bool" where
  "issued_by sha256 env ch c \<longleftrightarrow>
     (\<exists>b. challenge_bindings_of sha256 env = Inr b \<and> bindingsMatch c env (ch_challengeId ch) b)
     \<and> previewHashOf sha256 (shown_challenge ch) = Inr (sc_previewHash c)
     \<and> sc_expiresAt c = ch_expiresAt ch"

definition gate_effect ::
  "(js_string \<Rightarrow> js_string) \<Rightarrow> (nat \<Rightarrow> js_string) \<Rightarrow> protocol_env \<Rightarrow>
     conf_world \<Rightarrow> gate_result \<Rightarrow> conf_world \<Rightarrow> bool" where
  "gate_effect sha256 rnd env w r w' \<longleftrightarrow> pr_uuids w \<le> pr_uuids w' \<and> pr_now w \<le> pr_now w' \<and>
    (\<exists>m. m \<subseteq>\<^sub>m cw_entries w \<and> (cw_entries w' = m \<or>
     (\<exists>ch c t n. r = Inl (Typed (confirmation_required ch)) \<and> issued_by sha256 env ch c
        \<and> ch_expiresAt ch \<le> pr_now w' + CONFIRMATION_TTL_MS
        \<and> ch_challengeId ch = rnd n \<and> pr_uuids w \<le> n \<and> n < pr_uuids w'
        \<and> cw_entries w' = m(challengeKey (rnd n)
            \<mapsto> \<lparr>se_value = ChallengeText c, se_expiresAtMs = t\<rparr>))))"

lemma gate_effect_after:
  assumes "gate_effect sha256 rnd env w1 r w'" and "cw_entries w1 \<subseteq>\<^sub>m cw_entries w"
    and "pr_uuids w \<le> pr_uuids w1" and "pr_now w \<le> pr_now w1"
  shows "gate_effect sha256 rnd env w r w'"
proof -
  obtain m where m: "m \<subseteq>\<^sub>m cw_entries w1" "cw_entries w' = m \<or>
     (\<exists>ch c t n. r = Inl (Typed (confirmation_required ch)) \<and> issued_by sha256 env ch c
        \<and> ch_expiresAt ch \<le> pr_now w' + CONFIRMATION_TTL_MS
        \<and> ch_challengeId ch = rnd n \<and> pr_uuids w1 \<le> n \<and> n < pr_uuids w'
        \<and> cw_entries w' = m(challengeKey (rnd n)
            \<mapsto> \<lparr>se_value = ChallengeText c, se_expiresAtMs = t\<rparr>))"
    using assms(1) unfolding gate_effect_def by blast
  have clocks: "pr_uuids w \<le> pr_uuids w'" "pr_now w \<le> pr_now w'"
    using assms(1,3,4) by (simp_all add: gate_effect_def)
  have sub: "m \<subseteq>\<^sub>m cw_entries w" using m(1) assms(2) by (rule map_le_trans)
  from m(2) show ?thesis
  proof (elim disjE exE conjE)
    assume "cw_entries w' = m"
    then show ?thesis using clocks sub unfolding gate_effect_def by blast
  next
    fix ch c t n
    assume new: "r = Inl (Typed (confirmation_required ch))" "issued_by sha256 env ch c"
      "ch_expiresAt ch \<le> pr_now w' + CONFIRMATION_TTL_MS"
      "ch_challengeId ch = rnd n" "pr_uuids w1 \<le> n" "n < pr_uuids w'"
      "cw_entries w' = m(challengeKey (rnd n) \<mapsto> \<lparr>se_value = ChallengeText c, se_expiresAtMs = t\<rparr>)"
    have "pr_uuids w \<le> n" using new(5) assms(3) by simp
    then show ?thesis unfolding gate_effect_def
      by (intro conjI clocks exI [of _ m] sub disjI2 exI [of _ ch] exI [of _ c] exI [of _ t]
          exI [of _ n] new(1-4,6,7))
  qed
qed

lemma gate_effect_less:
  "cw_entries w' \<subseteq>\<^sub>m cw_entries w \<Longrightarrow> pr_uuids w \<le> pr_uuids w' \<Longrightarrow> pr_now w \<le> pr_now w' \<Longrightarrow>
     gate_effect sha256 rnd env w r w'"
  by (auto simp: gate_effect_def)

lemma issue_effect:
  assumes "issueChallenge sha256 rnd createInMemoryConfirmationStore env b run w = (r, w')"
    and "quiet run" and b: "challenge_bindings_of sha256 env = Inr b"
  shows "gate_effect sha256 rnd env w r w'"
proof (cases "run w")
  case (Pair r1 w1)
  then have q: "cw_entries w1 = cw_entries w" "pr_uuids w \<le> pr_uuids w1" "pr_now w \<le> pr_now w1"
    using assms(2) by (auto simp: quiet_def)
  show ?thesis
  proof (cases r1)
    case (Inl e)
    then show ?thesis using assms(1) Pair q
      by (auto simp: issueChallenge_def eff_bind_def intro: gate_effect_less)
  next
    case (Inr shown)
    show ?thesis
    proof (cases "previewHashOf sha256 shown")
      case (Inl e)
      then show ?thesis using assms(1) Pair \<open>r1 = Inr shown\<close> q
        by (auto simp: issueChallenge_def eff_bind_def randomUUID_def typed_def intro: gate_effect_less)
    next
      case (Inr hash)
      let ?id = "rnd (pr_uuids w1)" and ?exp = "pr_now w1 + CONFIRMATION_TTL_MS"
      let ?c = "\<lparr>sc_challengeId = ?id, sc_actionName = ac_name (pe_contract env),
              sc_inputHash = cb_inputHash b, sc_previewHash = hash,
              sc_principalKey = cb_principalKey b, sc_companyId = cb_companyId b,
              sc_idempotencyKey = cb_idempotencyKey b, sc_expiresAt = ?exp\<rparr>"
      let ?ch = "\<lparr>ch_challengeId = ?id, ch_summary = cm_summary shown, ch_expiresAt = ?exp,
              ch_preview = cm_preview shown\<rparr>"
      have "r = Inl (Typed (confirmation_required ?ch))"
        and w': "w' = w1\<lparr>pr_uuids := Suc (pr_uuids w1),
          cw_entries := (cw_entries w1)(challengeKey ?id
            \<mapsto> \<lparr>se_value = ChallengeText ?c, se_expiresAtMs = ?exp\<rparr>)\<rparr>"
        using assms(1) Pair \<open>r1 = Inr shown\<close> Inr
        by (auto simp: issueChallenge_def eff_bind_def randomUUID_def typed_def withStore_def
            memory_store_defs eff_throw_def Let_def)
      moreover have "issued_by sha256 env ?ch ?c"
        using b Inr by (simp add: issued_by_def bindingsMatch_def shown_challenge_def previewHashOf_def)
      moreover have "ch_challengeId ?ch = rnd (pr_uuids w1)" by simp
      ultimately show ?thesis using q unfolding gate_effect_def
        by (intro conjI exI [of _ "cw_entries w"] disjI2 exI [of _ ?ch] exI [of _ ?c]
            exI [of _ ?exp] exI [of _ "pr_uuids w1"]) simp_all
    qed
  qed
qed

lemma quiet_effect:
  "quiet run \<Longrightarrow> run w = (x, w1) \<Longrightarrow> gate_effect sha256 rnd env w1 r w' \<Longrightarrow>
     gate_effect sha256 rnd env w r w'"
  by (rule gate_effect_after) (auto simp: quiet_def)

lemma redeem_effect:
  assumes "redeem sha256 zod_uuid rnd createInMemoryConfirmationStore env run b i raw w = (r, w')"
    and q: "quiet run" and b: "challenge_bindings_of sha256 env = Inr b"
  shows "gate_effect sha256 rnd env w r w'"
proof -
  have unchanged: "gate_effect sha256 rnd env v x v" for v x by (simp add: gate_effect_less)
  have again: "gate_effect sha256 rnd env v x v'"
    if "issueChallenge sha256 rnd createInMemoryConfirmationStore env b (eff_return y) v = (x, v')"
    for v x v' y
    by (rule issue_effect [OF that _ b]) (simp add: quiet_def eff_return_def)
  show ?thesis
    using assms(1) issue_effect [OF _ q b] quiet_effect [OF q] unchanged again
    by (auto simp: redeem_def Let_def eff_bind_def eff_of_def eff_return_def typed_def
        split: option.splits if_splits prod.splits sum.splits)
qed

lemma gate_has_effect:
  assumes "gate sha256 zod_uuid rnd createInMemoryConfirmationStore env run w = (r, w')"
    and "quiet run"
  shows "gate_effect sha256 rnd env w r w'"
proof (cases "challenge_bindings_of sha256 env")
  case (Inl e)
  then show ?thesis using assms(1)
    by (auto simp: gate_def eff_bind_def eff_of_def typed_def intro: gate_effect_less)
next
  case (Inr b)
  have consumed: "gate_effect sha256 rnd env w r w'"
    if "redeem sha256 zod_uuid rnd createInMemoryConfirmationStore env run b i raw
          (w\<lparr>cw_entries := (cw_entries w)(k := None)\<rparr>) = (r, w')" for i raw k
    by (rule gate_effect_after [OF redeem_effect [OF that assms(2) Inr]])
      (auto simp: map_le_def)
  show ?thesis
    using assms(1) Inr issue_effect [OF _ assms(2) Inr] consumed
    by (auto simp: gate_def eff_bind_def eff_of_def typed_def withStore_def memory_store_defs Let_def
        split: option.splits if_splits)
qed

section \<open>The invariant of a history\<close>

definition entries_shown ::
  "(js_string \<Rightarrow> js_string) \<Rightarrow> (nat \<Rightarrow> js_string) \<Rightarrow> conf_world \<Rightarrow> conf_world gate_call list \<Rightarrow> bool" where
  "entries_shown sha256 rnd w h \<longleftrightarrow> (\<forall>k e. cw_entries w k = Some e \<longrightarrow>
     (\<exists>c call ch. se_value e = ChallengeText c \<and> k = challengeKey (ch_challengeId ch)
        \<and> call \<in> set h \<and> gc_result call = Inl (Typed (confirmation_required ch))
        \<and> issued_by sha256 (gc_env call) ch c \<and> ch_challengeId ch \<in> drawn rnd w
        \<and> ch_expiresAt ch \<le> gc_time call + CONFIRMATION_TTL_MS))"

text \<open>The call \<open>call\<close>, made after the calls \<open>h\<close>, got the grant \<open>g\<close> rightly.\<close>

definition confirms_shown ::
  "(js_string \<Rightarrow> js_string) \<Rightarrow> conf_world gate_call list \<Rightarrow> conf_world gate_call \<Rightarrow> confirmation_grant \<Rightarrow> bool" where
  "confirms_shown sha256 h call g \<longleftrightarrow>
     (\<exists>shown ch b. shown \<in> set h \<and> gc_result shown = Inl (Typed (confirmation_required ch))
        \<and> ch_challengeId ch = cg_challengeId g
        \<and> ac_name (pe_contract (gc_env shown)) = ac_name (pe_contract (gc_env call))
        \<and> challenge_bindings_of sha256 (gc_env shown) = Inr b
        \<and> challenge_bindings_of sha256 (gc_env call) = Inr b
        \<and> cg_expiresAt g = ch_expiresAt ch \<and> cg_confirmedAt g < ch_expiresAt ch
        \<and> ch_expiresAt ch \<le> gc_time shown + CONFIRMATION_TTL_MS
        \<and> (previewHashOf sha256 (shown_challenge ch) = Inr None
           \<or> (\<exists>v card v'. gc_summarize call v = (Inr card, v')
                 \<and> previewHashOf sha256 card = previewHashOf sha256 (shown_challenge ch))))"

definition first_grant :: "conf_world gate_call list \<Rightarrow> confirmation_grant \<Rightarrow> bool" where
  "first_grant h g \<longleftrightarrow> (\<forall>call g'. call \<in> set h \<longrightarrow> gc_result call = Inr g' \<longrightarrow>
     cg_challengeId g' \<noteq> cg_challengeId g)"

fun grants_sound :: "(js_string \<Rightarrow> js_string) \<Rightarrow> conf_world gate_call list \<Rightarrow> bool" where
  "grants_sound sha256 [] = True"
| "grants_sound sha256 (call # h) =
     ((\<forall>g. gc_result call = Inr g \<longrightarrow> confirms_shown sha256 h call g \<and> first_grant h g)
      \<and> grants_sound sha256 h)"

definition grants_spent :: "(nat \<Rightarrow> js_string) \<Rightarrow> conf_world \<Rightarrow> conf_world gate_call list \<Rightarrow> bool" where
  "grants_spent rnd w h \<longleftrightarrow> (\<forall>call g. call \<in> set h \<longrightarrow> gc_result call = Inr g \<longrightarrow>
     mem.spent rnd w (cg_challengeId g))"

lemma quiet_harmless: "quiet (run :: (conf_world, thrown, 'b) eff) \<Longrightarrow> mem.harmless run"
  by (auto simp: quiet_def mem.harmless_def live_entry_def split: option.splits if_splits)
    (meson order_trans)+

lemma spent_elsewhere:
  assumes "mem.spent rnd (w :: conf_world) c" "cw_entries w' = cw_entries w"
    "pr_uuids w \<le> pr_uuids w'" "pr_now w \<le> pr_now w'"
  shows "mem.spent rnd w' c"
  using assms by (auto simp: mem.spent_def live_entry_def split: option.splits if_splits)

lemma entries_shown_mono:
  assumes "entries_shown sha256 rnd w h" "cw_entries w' \<subseteq>\<^sub>m cw_entries w"
    "pr_uuids w \<le> pr_uuids w'" "set h \<subseteq> set h'"
  shows "entries_shown sha256 rnd w' h'"
  unfolding entries_shown_def
proof (intro allI impI)
  fix k e assume "cw_entries w' k = Some e"
  then have "cw_entries w k = Some e" using assms(2) by (force simp: map_le_def)
  then obtain c call ch where "se_value e = ChallengeText c \<and> k = challengeKey (ch_challengeId ch)
        \<and> call \<in> set h \<and> gc_result call = Inl (Typed (confirmation_required ch))
        \<and> issued_by sha256 (gc_env call) ch c \<and> ch_challengeId ch \<in> drawn rnd w
        \<and> ch_expiresAt ch \<le> gc_time call + CONFIRMATION_TTL_MS"
    using assms(1) unfolding entries_shown_def by blast
  moreover have "drawn rnd w \<subseteq> drawn rnd w'" using assms(3) by (rule drawn_mono)
  ultimately show "\<exists>c call ch. se_value e = ChallengeText c \<and> k = challengeKey (ch_challengeId ch)
        \<and> call \<in> set h' \<and> gc_result call = Inl (Typed (confirmation_required ch))
        \<and> issued_by sha256 (gc_env call) ch c \<and> ch_challengeId ch \<in> drawn rnd w'
        \<and> ch_expiresAt ch \<le> gc_time call + CONFIRMATION_TTL_MS"
    using assms(4) by (intro exI [of _ c] exI [of _ call] exI [of _ ch]) auto
qed

lemma entries_shownE:
  assumes "entries_shown sha256 rnd w h" "cw_entries w k = Some e" "se_value e = ChallengeText c"
  obtains call ch where "k = challengeKey (ch_challengeId ch)" "call \<in> set h"
    "gc_result call = Inl (Typed (confirmation_required ch))"
    "issued_by sha256 (gc_env call) ch c" "ch_challengeId ch \<in> drawn rnd w"
    "ch_expiresAt ch \<le> gc_time call + CONFIRMATION_TTL_MS"
proof -
  from assms(1,2) obtain c' call ch where "se_value e = ChallengeText c'"
    "k = challengeKey (ch_challengeId ch)" "call \<in> set h"
    "gc_result call = Inl (Typed (confirmation_required ch))"
    "issued_by sha256 (gc_env call) ch c'" "ch_challengeId ch \<in> drawn rnd w"
    "ch_expiresAt ch \<le> gc_time call + CONFIRMATION_TTL_MS"
    unfolding entries_shown_def by blast
  then show thesis using assms(3) that [of ch call] by simp
qed

lemma challengeKey_inj [simp]: "challengeKey a = challengeKey b \<longleftrightarrow> a = b"
  by (simp add: challengeKey_def)

lemma grant_confirms:
  assumes g: "gate sha256 zod_uuid rnd createInMemoryConfirmationStore env run w = (Inr g, w')"
    and inv: "entries_shown sha256 rnd w h"
  shows "confirms_shown sha256 h
      \<lparr>gc_env = env, gc_summarize = run, gc_result = Inr g, gc_time = t\<rparr> g
    \<and> cg_challengeId g \<in> drawn rnd w"
proof -
  obtain b i stored w1 where gr: "challenge_bindings_of sha256 env = Inr b"
    "cs_getAndDelete createInMemoryConfirmationStore (challengeKey i) w
       = (Inr (Some (ChallengeText stored)), w1)"
    "pr_now w1 < sc_expiresAt stored" "bindingsMatch stored env i b" "g = grant_of stored (pr_now w1)"
    "sc_previewHash stored = None \<or> (\<exists>shown. run w1 = (Inr shown, w')
        \<and> previewHashOf sha256 shown = Inr (sc_previewHash stored))"
    using gate_grants [OF g] by (elim exE conjE) rule
  obtain e where e: "cw_entries w (challengeKey i) = Some e" "se_value e = ChallengeText stored"
    using gr(2) by (auto simp: memory_store_defs Let_def split: option.splits if_splits)
  obtain call ch where sh: "challengeKey i = challengeKey (ch_challengeId ch)" "call \<in> set h"
    "gc_result call = Inl (Typed (confirmation_required ch))"
    "issued_by sha256 (gc_env call) ch stored" "ch_challengeId ch \<in> drawn rnd w"
    "ch_expiresAt ch \<le> gc_time call + CONFIRMATION_TTL_MS"
    by (rule entries_shownE [OF inv e])
  obtain b0 where b0: "challenge_bindings_of sha256 (gc_env call) = Inr b0"
    "bindingsMatch stored (gc_env call) (ch_challengeId ch) b0"
    "previewHashOf sha256 (shown_challenge ch) = Inr (sc_previewHash stored)"
    "sc_expiresAt stored = ch_expiresAt ch"
    using sh(4) unfolding issued_by_def by blast
  have bb: "b0 = b" using b0(2) gr(4) by (simp add: bindingsMatch_def)
  have name: "ac_name (pe_contract (gc_env call)) = ac_name (pe_contract env)"
    using b0(2) gr(4) by (simp add: bindingsMatch_def)
  have id: "ch_challengeId ch = cg_challengeId g"
    using b0(2) gr(5) by (simp add: bindingsMatch_def grant_of_def)
  have times: "cg_expiresAt g = ch_expiresAt ch" "cg_confirmedAt g < ch_expiresAt ch"
    using gr(3,5) b0(4) by (simp_all add: grant_of_def)
  have card: "previewHashOf sha256 (shown_challenge ch) = Inr None
      \<or> (\<exists>v card v'. run v = (Inr card, v')
            \<and> previewHashOf sha256 card = previewHashOf sha256 (shown_challenge ch))"
    using gr(6) b0(3) by metis
  show ?thesis
    unfolding confirms_shown_def
    using sh(2,3,5,6) name id times card b0(1) gr(1) bb
    by (intro conjI exI [of _ call] exI [of _ ch] exI [of _ b]) simp_all
qed

lemma gate_keeps_entries_shown:
  assumes "gate_effect sha256 rnd env w r w'" "entries_shown sha256 rnd w h"
  shows "entries_shown sha256 rnd w'
    (\<lparr>gc_env = env, gc_summarize = run, gc_result = r, gc_time = pr_now w'\<rparr> # h)" (is "entries_shown _ _ _ (?call # h)")
proof -
  obtain m where m: "m \<subseteq>\<^sub>m cw_entries w" and alt: "cw_entries w' = m \<or>
     (\<exists>ch c t n. r = Inl (Typed (confirmation_required ch)) \<and> issued_by sha256 env ch c
        \<and> ch_expiresAt ch \<le> pr_now w' + CONFIRMATION_TTL_MS
        \<and> ch_challengeId ch = rnd n \<and> pr_uuids w \<le> n \<and> n < pr_uuids w'
        \<and> cw_entries w' = m(challengeKey (rnd n)
            \<mapsto> \<lparr>se_value = ChallengeText c, se_expiresAtMs = t\<rparr>))"
    and le: "pr_uuids w \<le> pr_uuids w'"
    using assms(1) unfolding gate_effect_def by blast
  have old: "entries_shown sha256 rnd (w'\<lparr>cw_entries := m\<rparr>) (?call # h)"
    by (rule entries_shown_mono [OF assms(2)]) (use m le in auto)
  from alt show ?thesis
  proof (elim disjE exE conjE)
    assume "cw_entries w' = m"
    then show ?thesis using entries_shown_mono [OF assms(2), of w' "?call # h"] m le by auto
  next
    fix ch c t n
    assume new: "r = Inl (Typed (confirmation_required ch))" "issued_by sha256 env ch c"
      "ch_expiresAt ch \<le> pr_now w' + CONFIRMATION_TTL_MS"
      "ch_challengeId ch = rnd n" "n < pr_uuids w'"
      "cw_entries w' = m(challengeKey (rnd n) \<mapsto> \<lparr>se_value = ChallengeText c, se_expiresAtMs = t\<rparr>)"
    have "rnd n \<in> drawn rnd w'" using new(5) by (simp add: drawn_def)
    then have here: "\<exists>c' call ch. ChallengeText c = ChallengeText c' \<and> challengeKey (rnd n) = challengeKey (ch_challengeId ch)
        \<and> call \<in> set (?call # h) \<and> gc_result call = Inl (Typed (confirmation_required ch))
        \<and> issued_by sha256 (gc_env call) ch c' \<and> ch_challengeId ch \<in> drawn rnd w'
        \<and> ch_expiresAt ch \<le> gc_time call + CONFIRMATION_TTL_MS"
      using new(1-4) by (intro exI [of _ c] exI [of _ ?call] exI [of _ ch]) simp
    have "drawn rnd (w'\<lparr>cw_entries := m\<rparr>) = drawn rnd w'" by (simp add: drawn_def)
    then show ?thesis using old here new(6) unfolding entries_shown_def by auto
  qed
qed

lemma history_invariant:
  assumes "conf_history sha256 zod_uuid rnd w h" and "inj rnd"
  shows "entries_shown sha256 rnd w h \<and> grants_spent rnd w h \<and> grants_sound sha256 h"
  using assms(1)
proof induction
  case (start w)
  then show ?case by (simp add: entries_shown_def grants_spent_def)
next
  case (elsewhere w h w')
  then show ?case
    using entries_shown_mono [of sha256 rnd w h w' h] spent_elsewhere [of rnd w _ w']
    by (auto simp: grants_spent_def)
next
  case (gated w h run env r w')
  let ?call = "\<lparr>gc_env = env, gc_summarize = run, gc_result = r, gc_time = pr_now w'\<rparr>"
  have "mem.keeps_spent rnd c (gate sha256 zod_uuid rnd createInMemoryConfirmationStore env run)" for c
    using mem.keeps_gate mem.harmless_keeps quiet_harmless gated.hyps(2) by blast
  then have kept: "mem.spent rnd w c \<Longrightarrow> mem.spent rnd w' c" for c
    using gated.hyps(3) unfolding mem.keeps_spent_def by blast
  have granted: "confirms_shown sha256 h ?call g \<and> first_grant h g \<and> mem.spent rnd w' (cg_challengeId g)"
    if r: "r = Inr g" for g
  proof -
    have g: "gate sha256 zod_uuid rnd createInMemoryConfirmationStore env run w = (Inr g, w')"
      using gated.hyps(3) r by simp
    have c: "confirms_shown sha256 h ?call g" "cg_challengeId g \<in> drawn rnd w"
      using grant_confirms [OF g] gated.IH r by blast+
    have "\<forall>n \<ge> pr_uuids w. rnd n \<noteq> cg_challengeId g"
      using c(2) fresh_not_drawn [OF assms(2)] by metis
    then have "mem.spent rnd w' (cg_challengeId g)"
      by (rule mem.grant_spends [OF g quiet_harmless [OF gated.hyps(2)]])
    moreover have "rq_confirmationChallengeId (pe_request env) = Some (cg_challengeId g)"
      using gate_grants [OF g] by (auto simp: grant_of_def bindingsMatch_def)
    then have "\<not> mem.spent rnd w (cg_challengeId g)"
      using mem.spent_never_grants [of rnd w "cg_challengeId g" env sha256 zod_uuid run g] g by auto
    then have "first_grant h g"
      using gated.IH unfolding first_grant_def grants_spent_def by metis
    ultimately show ?thesis using c(1) by blast
  qed
  have "entries_shown sha256 rnd w' (?call # h)"
    using gate_keeps_entries_shown gate_has_effect gated.hyps(2,3) gated.IH by blast
  moreover have "grants_spent rnd w' (?call # h)"
    using gated.IH kept granted by (auto simp: grants_spent_def)
  ultimately show ?case using gated.IH granted by auto
qed

lemma grants_sound_split:
  "grants_sound sha256 (h1 @ call # h0) \<Longrightarrow> gc_result call = Inr g \<Longrightarrow>
     confirms_shown sha256 h0 call g \<and> first_grant h0 g"
  by (induction h1) auto

section \<open>What a confirmation means\<close>

text \<open>
  C14: nothing runs unconfirmed. In every history of the process, a call that is granted confirms
  a challenge that an earlier call showed for the same action, input, principal, company and
  idempotency key, no more than five minutes before, and when the challenge showed a preview,
  the card computed for the confirming call has the same preview hash as the one shown.
\<close>

theorem grant_confirms_what_was_shown:
  assumes "inj rnd" and "conf_history sha256 zod_uuid rnd w (later @ call # earlier)"
    and "gc_result call = Inr g"
  shows "\<exists>shown ch b. shown \<in> set earlier \<and> gc_result shown = Inl (Typed (confirmation_required ch))
        \<and> ch_challengeId ch = cg_challengeId g
        \<and> ac_name (pe_contract (gc_env shown)) = ac_name (pe_contract (gc_env call))
        \<and> challenge_bindings_of sha256 (gc_env shown) = Inr b
        \<and> challenge_bindings_of sha256 (gc_env call) = Inr b
        \<and> cg_expiresAt g = ch_expiresAt ch \<and> cg_confirmedAt g < ch_expiresAt ch
        \<and> ch_expiresAt ch \<le> gc_time shown + CONFIRMATION_TTL_MS
        \<and> (previewHashOf sha256 (shown_challenge ch) = Inr None
           \<or> (\<exists>v card v'. gc_summarize call v = (Inr card, v')
                 \<and> previewHashOf sha256 card = previewHashOf sha256 (shown_challenge ch)))"
  using grants_sound_split [of sha256 later call earlier g] history_invariant [OF assms(2,1)] assms(3)
  unfolding confirms_shown_def by blast

text \<open>
  C15: a challenge is single use. No two calls of a history are granted by the same challenge.
\<close>

theorem challenge_grants_once:
  assumes "inj rnd" and "conf_history sha256 zod_uuid rnd w (later @ call # earlier)"
    and "gc_result call = Inr g" and "call' \<in> set earlier" and "gc_result call' = Inr g'"
  shows "cg_challengeId g' \<noteq> cg_challengeId g"
  using grants_sound_split [of sha256 later call earlier g] history_invariant [OF assms(2,1)] assms(3-5)
  unfolding first_grant_def by blast

section \<open>The way through\<close>

lemma principal_key_nonempty: "principalKeyFor env = Inr key \<Longrightarrow> key \<noteq> []"
  by (auto simp: principalKeyFor_def user_principal_key_def
      split: principal_invocation.splits actor.splits option.splits if_splits)

lemma hash_nonempty:
  "canonicalJsonSha256OfUnknown sha256 v = Inr h \<Longrightarrow> (\<And>t. sha256 t \<noteq> []) \<Longrightarrow> h \<noteq> []"
  by (auto simp: canonicalJsonSha256OfUnknown_def canonicalJsonSha256_def res_bind_def split: sum.splits)

lemma bindings_nonempty:
  assumes "challenge_bindings_of sha256 env = Inr b" "\<And>t. sha256 t \<noteq> []"
  shows "cb_principalKey b \<noteq> [] \<and> cb_idempotencyKey b \<noteq> [] \<and> cb_inputHash b \<noteq> []
    \<and> cb_companyId b = pa_companyId (pe_authorization env)"
  using assms
  by (auto simp: challenge_bindings_of_def res_bind_def requireIdempotencyKey_def
      principal_key_nonempty dest: hash_nonempty split: sum.splits option.splits if_splits)

text \<open>The challenge that a call without one stores and shows.\<close>

definition new_challenge ::
  "protocol_env \<Rightarrow> challenge_bindings \<Rightarrow> js_string \<Rightarrow> js_string option \<Rightarrow> ms \<Rightarrow> stored_challenge" where
  "new_challenge env b challengeId hash expiresAt =
     \<lparr>sc_challengeId = challengeId, sc_actionName = ac_name (pe_contract env),
      sc_inputHash = cb_inputHash b, sc_previewHash = hash, sc_principalKey = cb_principalKey b,
      sc_companyId = cb_companyId b, sc_idempotencyKey = cb_idempotencyKey b, sc_expiresAt = expiresAt\<rparr>"

lemma gate_shows:
  assumes "challenge_bindings_of sha256 env = Inr b"
    and "rq_confirmationOnly (pe_request env) \<or> rq_confirmationChallengeId (pe_request env) = None"
    and "run w = (Inr shown, w0)" and "previewHashOf sha256 shown = Inr hash"
  shows "gate sha256 zod_uuid rnd createInMemoryConfirmationStore env run w
    = (Inl (Typed (confirmation_required
         \<lparr>ch_challengeId = rnd (pr_uuids w0), ch_summary = cm_summary shown,
          ch_expiresAt = pr_now w0 + CONFIRMATION_TTL_MS, ch_preview = cm_preview shown\<rparr>)),
       w0\<lparr>pr_uuids := Suc (pr_uuids w0), cw_entries := (cw_entries w0)
         (challengeKey (rnd (pr_uuids w0)) \<mapsto>
           \<lparr>se_value = ChallengeText (new_challenge env b (rnd (pr_uuids w0)) hash
               (pr_now w0 + CONFIRMATION_TTL_MS)),
            se_expiresAtMs = pr_now w0 + CONFIRMATION_TTL_MS\<rparr>)\<rparr>)"
proof -
  have "gate sha256 zod_uuid rnd createInMemoryConfirmationStore env run w
    = issueChallenge sha256 rnd createInMemoryConfirmationStore env b run w"
    using assms(1,2) by (auto simp: gate_def eff_bind_def typed_def)
  then show ?thesis
    using assms(3,4) by (simp add: issueChallenge_def eff_bind_def randomUUID_def typed_def
        withStore_def memory_store_defs eff_throw_def Let_def new_challenge_def)
qed

lemma gate_confirms:
  assumes "challenge_bindings_of sha256 env = Inr b"
    and "\<not> rq_confirmationOnly (pe_request env)"
    and "rq_confirmationChallengeId (pe_request env) = Some i" and "i \<noteq> []"
    and "ac_name (pe_contract env0) = ac_name (pe_contract env)"
    and entry: "cw_entries w (challengeKey i) = Some
       \<lparr>se_value = ChallengeText (new_challenge env0 b i hash t), se_expiresAtMs = t\<rparr>"
    and "pr_now w < t" and schema: "storedChallengeSchema zod_uuid (new_challenge env0 b i hash t)"
    and drift: "hash = None \<or> (\<exists>card w'. run (w\<lparr>cw_entries := (cw_entries w)(challengeKey i := None)\<rparr>)
        = (Inr card, w') \<and> previewHashOf sha256 card = Inr hash)"
  shows "fst (gate sha256 zod_uuid rnd createInMemoryConfirmationStore env run w)
    = Inr \<lparr>cg_challengeId = i, cg_confirmedAt = pr_now w, cg_expiresAt = t\<rparr>"
proof -
  let ?w = "w\<lparr>cw_entries := (cw_entries w)(challengeKey i := None)\<rparr>"
  let ?c = "new_challenge env0 b i hash t"
  have consume: "withStore (memory_getAndDelete (challengeKey i)) w = (Inr (Some (ChallengeText ?c)), ?w)"
    using entry assms(7) by (simp add: withStore_def memory_getAndDelete_def Let_def)
  have "gate sha256 zod_uuid rnd createInMemoryConfirmationStore env run w
    = redeem sha256 zod_uuid rnd createInMemoryConfirmationStore env run b i (Some (ChallengeText ?c)) ?w"
    using assms(1-4) consume
    by (simp add: gate_def eff_bind_def typed_def createInMemoryConfirmationStore_def)
  moreover have "bindingsMatch ?c env i b" using assms(5) by (simp add: bindingsMatch_def new_challenge_def)
  moreover have "parseChallenge zod_uuid (Some (ChallengeText ?c)) = Some ?c"
    using schema by (simp add: parseChallenge_def)
  moreover have "sc_expiresAt ?c = t" "sc_previewHash ?c = hash" "sc_challengeId ?c = i"
    by (simp_all add: new_challenge_def)
  ultimately show ?thesis
    using assms(7) drift
    by (cases hash) (auto simp: redeem_def Let_def grant_of_def eff_bind_def typed_def eff_return_def)
qed

text \<open>The request re-sent with the challenge.\<close>

definition confirming :: "protocol_env \<Rightarrow> js_string \<Rightarrow> protocol_env" where
  "confirming env challengeId = env\<lparr>pe_request := (pe_request env)
     \<lparr>rq_confirmationChallengeId := Some challengeId, rq_confirmationOnly := False\<rparr>\<rparr>"

lemma principalKeyFor_request [simp]: "principalKeyFor (env\<lparr>pe_request := q\<rparr>) = principalKeyFor env"
  by (cases "pe_principal env") (simp_all add: principalKeyFor_def)

lemma confirming_bindings [simp]:
  "challenge_bindings_of sha256 (confirming env i) = challenge_bindings_of sha256 env"
  "pe_contract (confirming env i) = pe_contract env"
  "rq_confirmationChallengeId (pe_request (confirming env i)) = Some i"
  "\<not> rq_confirmationOnly (pe_request (confirming env i))"
  by (simp_all add: confirming_def challenge_bindings_of_def requireIdempotencyKey_def)

lemma new_challenge_schema:
  assumes "challenge_bindings_of sha256 env = Inr b" and "\<And>t. sha256 t \<noteq> []"
    and "zod_uuid i" and "ac_name (pe_contract env) \<noteq> []"
    and "\<And>c. pa_companyId (pe_authorization env) = Some c \<Longrightarrow> zod_uuid c"
    and "previewHashOf sha256 shown = Inr hash"
  shows "storedChallengeSchema zod_uuid (new_challenge env b i hash t)"
proof -
  have "hash \<noteq> Some []"
    using assms(2,6)
    by (auto simp: previewHashOf_def res_bind_def dest: hash_nonempty split: option.splits sum.splits)
  then show ?thesis
    using bindings_nonempty [OF assms(1,2)] assms(3-5)
    by (simp add: storedChallengeSchema_def new_challenge_def split: option.split)
qed

text \<open>
  C17: the protocol has a way through. A call without a challenge shows its card in a challenge,
  and the same request re-sent with that challenge within five minutes is granted when its card
  still has the preview that was shown, whatever the process did meanwhile outside the store.
\<close>

theorem shown_challenge_can_be_confirmed:
  assumes "\<forall>t. sha256 t \<noteq> []" and "\<forall>n. rnd n \<noteq> [] \<and> zod_uuid (rnd n)"
    and "\<forall>c. pa_companyId (pe_authorization env) = Some c \<longrightarrow> zod_uuid c"
    and "ac_name (pe_contract env) \<noteq> []" and "challenge_bindings_of sha256 env = Inr b"
    and "rq_confirmationOnly (pe_request env) \<or> rq_confirmationChallengeId (pe_request env) = None"
    and "run w = (Inr shown, w0)" and "previewHashOf sha256 shown = Inr hash"
    and "gate sha256 zod_uuid rnd createInMemoryConfirmationStore env run w = (r, w1)"
    and "cw_entries w2 = cw_entries w1" and "pr_now w2 < pr_now w0 + CONFIRMATION_TTL_MS"
    and "\<forall>v. \<exists>now v'. run2 v = (Inr now, v') \<and> previewHashOf sha256 now = Inr hash"
  shows "r = Inl (Typed (confirmation_required
         \<lparr>ch_challengeId = rnd (pr_uuids w0), ch_summary = cm_summary shown,
          ch_expiresAt = pr_now w0 + CONFIRMATION_TTL_MS, ch_preview = cm_preview shown\<rparr>))
    \<and> fst (gate sha256 zod_uuid rnd createInMemoryConfirmationStore
         (confirming env (rnd (pr_uuids w0))) run2 w2)
      = Inr \<lparr>cg_challengeId = rnd (pr_uuids w0), cg_confirmedAt = pr_now w2,
             cg_expiresAt = pr_now w0 + CONFIRMATION_TTL_MS\<rparr>"
proof -
  let ?i = "rnd (pr_uuids w0)" and ?t = "pr_now w0 + CONFIRMATION_TTL_MS"
  note shows1 = gate_shows [of sha256 env b run w shown w0 hash zod_uuid rnd, OF assms(5-8)]
  have entry: "cw_entries w2 (challengeKey ?i) = Some
      \<lparr>se_value = ChallengeText (new_challenge env b ?i hash ?t), se_expiresAtMs = ?t\<rparr>"
    using shows1 assms(9,10) by simp
  have schema: "storedChallengeSchema zod_uuid (new_challenge env b ?i hash ?t)"
    by (rule new_challenge_schema [of sha256 env b zod_uuid ?i shown]) (use assms(1-5,8) in auto)
  have "fst (gate sha256 zod_uuid rnd createInMemoryConfirmationStore (confirming env ?i) run2 w2)
      = Inr \<lparr>cg_challengeId = ?i, cg_confirmedAt = pr_now w2, cg_expiresAt = ?t\<rparr>"
    by (rule gate_confirms [OF _ _ _ _ _ entry assms(11) schema]) (use assms(2,5,12) in auto)
  then show ?thesis using shows1 assms(9) by simp
qed

section \<open>Witnesses\<close>

definition sample_hash :: "js_string \<Rightarrow> js_string" where
  "sample_hash t = ''h''"

definition any_uuid :: "js_string \<Rightarrow> bool" where
  "any_uuid s = True"

definition sample_shown :: challenge_summary where
  "sample_shown = \<lparr>cm_summary = ''Confirm order 7'',
     cm_preview = Some \<lparr>pv_title = ''Order 7'',
       pv_lines = [\<lparr>pl_label = ''Total'', pl_value = ''100''\<rparr>], pv_notes = None\<rparr>\<rparr>"

definition sample_card :: "(conf_world, thrown, challenge_summary) eff" where
  "sample_card = eff_return sample_shown"

definition conf_start :: conf_world where
  "conf_start = \<lparr>pr_now = 1000, pr_uuids = 1, iw_rows = Map.empty, cw_entries = Map.empty\<rparr>"

definition sample_bindings :: challenge_bindings where
  "sample_bindings = \<lparr>cb_inputHash = ''h'', cb_principalKey = ''staff:u1'',
     cb_companyId = Some sample_company, cb_idempotencyKey = ''k1''\<rparr>"

lemma sample_challenge_bindings: "challenge_bindings_of sample_hash sample_protocol_env = Inr sample_bindings"
proof -
  have "requireIdempotencyKey (pe_request sample_protocol_env) = Inr ''k1''"
    "canonicalJsonSha256OfUnknown sample_hash (pe_input sample_protocol_env) = Inr ''h''"
    "pa_companyId (pe_authorization sample_protocol_env) = Some sample_company"
    by (simp_all add: requireIdempotencyKey_def canonicalJsonSha256OfUnknown_def
        canonicalJsonSha256_def canonicalJson_def sample_hash_def sample_protocol_env_def
        sample_hook_request_def)
  then show ?thesis by (simp add: challenge_bindings_of_def sample_keys sample_bindings_def)
qed

lemma sample_preview:
  "\<exists>shown. sample_card = eff_return shown \<and> previewHashOf sample_hash shown = Inr (Some ''h'')"
proof -
  have "previewHashOf sample_hash sample_shown = Inr (Some ''h'')"
    by (simp add: sample_shown_def previewHashOf_def canonicalPreview_def canonicalPreviewLine_def
        canonicalJsonSha256OfUnknown_def canonicalJsonSha256_def canonicalJson_def sample_hash_def
        sorted_members_def)
  then show ?thesis using sample_card_def by blast
qed

definition sample_show :: "conf_world \<Rightarrow> conf_world gate_call" where
  "sample_show w = \<lparr>gc_env = sample_protocol_env, gc_summarize = sample_card,
     gc_result = fst (gate sample_hash any_uuid unary createInMemoryConfirmationStore
       sample_protocol_env sample_card w), gc_time = pr_now w\<rparr>"

lemma unary_facts: "inj unary" "unary (Suc n) \<noteq> []"
  by (auto simp: unary_def inj_def)

lemma sample_request:
  "rq_confirmationChallengeId (pe_request sample_protocol_env) = None"
  "ac_name (pe_contract sample_protocol_env) \<noteq> []"
  by (simp_all add: sample_protocol_env_def sample_hook_request_def sample_contract_def)

text \<open>From any state the sample request can be shown and confirmed.\<close>

lemma sample_round:
  assumes "conf_history sample_hash any_uuid unary w h" and "0 < pr_uuids w"
  obtains w' confirm where "conf_history sample_hash any_uuid unary w' (confirm # sample_show w # h)"
    "gc_result confirm = Inr \<lparr>cg_challengeId = unary (pr_uuids w), cg_confirmedAt = pr_now w,
       cg_expiresAt = pr_now w + CONFIRMATION_TTL_MS\<rparr>" "pr_uuids w < pr_uuids w'"
proof -
  obtain shown where shown: "sample_card = eff_return shown"
    "previewHashOf sample_hash shown = Inr (Some ''h'')"
    using sample_preview by blast
  have quiet: "quiet sample_card" by (simp add: shown(1) quiet_def eff_return_def)
  have run: "sample_card v = (Inr shown, v)" for v by (simp add: shown(1))
  let ?gate = "gate sample_hash any_uuid unary createInMemoryConfirmationStore"
  let ?i = "unary (pr_uuids w)" and ?t = "pr_now w + CONFIRMATION_TTL_MS"
  let ?c = "new_challenge sample_protocol_env sample_bindings ?i (Some ''h'') ?t"
  obtain r w1 where w1: "?gate sample_protocol_env sample_card w = (r, w1)" by fastforce
  have e: "cw_entries w1 (challengeKey ?i) = Some \<lparr>se_value = ChallengeText ?c, se_expiresAtMs = ?t\<rparr>"
    and at: "pr_now w1 = pr_now w" "pr_uuids w1 = Suc (pr_uuids w)"
    using w1 gate_shows [OF sample_challenge_bindings, of sample_card w shown w "Some ''h''" any_uuid unary]
      run shown(2) sample_request by auto
  have show1: "conf_history sample_hash any_uuid unary w1 (sample_show w # h)"
    using conf_history.gated [OF assms(1) quiet w1] w1 at(1) by (simp add: sample_show_def)
  obtain r2 w2 where w2: "?gate (confirming sample_protocol_env ?i) sample_card w1 = (r2, w2)" by fastforce
  have schema: "storedChallengeSchema any_uuid ?c"
    by (simp add: storedChallengeSchema_def new_challenge_def any_uuid_def sample_bindings_def
        sample_request split: option.split)
  have "pr_now w1 < ?t" by (simp add: at CONFIRMATION_TTL_MS_def)
  from gate_confirms [OF _ _ _ _ _ e this schema, of sample_hash "confirming sample_protocol_env ?i" sample_card unary]
  have "r2 = Inr \<lparr>cg_challengeId = ?i, cg_confirmedAt = pr_now w, cg_expiresAt = ?t\<rparr>"
    using w2 run shown(2) assms(2) at(1) sample_challenge_bindings unary_facts(2) [of "pr_uuids w - 1"]
    by simp
  moreover have "pr_uuids w < pr_uuids w2"
    using gate_has_effect [OF w2 quiet] at(2) by (simp add: gate_effect_def)
  ultimately show thesis
    using that [OF conf_history.gated [OF show1 quiet w2]] by simp
qed

lemma conf_start_history: "conf_history sample_hash any_uuid unary conf_start []" "0 < pr_uuids conf_start"
  by (auto intro: conf_history.start simp: conf_start_def)

theorem grant_confirms_what_was_shown_witness:
  "\<exists>ch. gc_result (sample_show conf_start) = Inl (Typed (confirmation_required ch))
     \<and> ch_challengeId ch = ''x''"
proof -
  obtain w confirm where h: "conf_history sample_hash any_uuid unary w ([] @ confirm # [sample_show conf_start])"
    and r: "gc_result confirm = Inr \<lparr>cg_challengeId = unary (pr_uuids conf_start),
      cg_confirmedAt = pr_now conf_start, cg_expiresAt = pr_now conf_start + CONFIRMATION_TTL_MS\<rparr>"
    using sample_round [OF conf_start_history] by (metis append_Nil)
  from grant_confirms_what_was_shown [OF unary_facts(1) h r]
  show ?thesis by (auto simp: conf_start_def unary_def)
qed

theorem challenge_grants_once_witness:
  "\<exists>w' w second first g g'. conf_history sample_hash any_uuid unary w'
        [second, sample_show w, first, sample_show conf_start]
     \<and> gc_result second = Inr g \<and> gc_result first = Inr g' \<and> cg_challengeId g' \<noteq> cg_challengeId g"
proof -
  obtain w1 first g' where one: "conf_history sample_hash any_uuid unary w1 [first, sample_show conf_start]"
    "gc_result first = Inr g'" "pr_uuids conf_start < pr_uuids w1"
    using sample_round [OF conf_start_history] by metis
  have "0 < pr_uuids w1" using one(3) by simp
  then obtain w2 second g where
    two: "conf_history sample_hash any_uuid unary w2 ([] @ second # [sample_show w1, first, sample_show conf_start])"
      "gc_result second = Inr g"
    using sample_round [OF one(1)] by (metis append_Nil)
  have "cg_challengeId g' \<noteq> cg_challengeId g"
    using challenge_grants_once [OF unary_facts(1) two _ one(2)] by simp
  then show ?thesis using one(2) two by (metis append_Nil)
qed

theorem shown_challenge_can_be_confirmed_witness:
  "fst (gate sample_hash any_uuid (\<lambda>n. unary (Suc n)) createInMemoryConfirmationStore
         (confirming sample_protocol_env ''xx'') sample_card
         (snd (gate sample_hash any_uuid (\<lambda>n. unary (Suc n)) createInMemoryConfirmationStore
            sample_protocol_env sample_card conf_start)))
      = Inr \<lparr>cg_challengeId = ''xx'', cg_confirmedAt = 1000, cg_expiresAt = 301000\<rparr>"
proof -
  let ?rnd = "\<lambda>n. unary (Suc n)"
  obtain shown where shown: "sample_card = eff_return shown"
    "previewHashOf sample_hash shown = Inr (Some ''h'')"
    using sample_preview by blast
  have run: "sample_card v = (Inr shown, v)" for v by (simp add: shown(1))
  obtain r w1 where w1: "gate sample_hash any_uuid ?rnd createInMemoryConfirmationStore
      sample_protocol_env sample_card conf_start = (r, w1)" by fastforce
  have now: "pr_now w1 = 1000"
    using w1 gate_shows [OF sample_challenge_bindings, of sample_card conf_start shown conf_start
        "Some ''h''" any_uuid ?rnd] run shown(2) sample_request by (auto simp: conf_start_def)
  have "pr_now w1 < pr_now conf_start + CONFIRMATION_TTL_MS"
    using now by (simp add: conf_start_def CONFIRMATION_TTL_MS_def)
  from shown_challenge_can_be_confirmed [OF _ _ _ sample_request(2) sample_challenge_bindings _
      run shown(2) w1 refl this, of sample_card]
  show ?thesis
    using w1 now run shown(2) sample_request unary_facts(2)
    by (simp add: any_uuid_def sample_hash_def conf_start_def CONFIRMATION_TTL_MS_def unary_def)
qed

end
