(* ===== verification/Rate_Limit.thy ===== *)
theory Rate_Limit
  imports Confirmation Idempotency_Proofs Complex_Main
begin

text \<open>
  The rate-limit protocol (\<open>runtime/rate-limit/create-rate-limit-hook.ts\<close>) over the store seam of
  \<open>runtime/rate-limit/token-bucket.ts\<close>, and the token bucket of that file. Token counts are
  rational numbers: the rounding of the runtime's doubles is not modelled. \<open>hmac secret text\<close> is
  the hexadecimal HMAC-SHA256 digest. The error log line of the fail-open branch is left out.
\<close>

section \<open>The token bucket\<close>

record consume_request =
  cr_key :: js_string
  cr_limit :: int
  cr_windowSec :: int

datatype rate_decision = Allowed | Refused int

record bucket_state =
  bk_tokens :: rat
  bk_updatedAtMs :: ms

record rate_world = conf_world +
  rw_buckets :: "js_string \<Rightarrow> bucket_state option"

record 'w rate_limit_store =
  rs_consume :: "consume_request \<Rightarrow> ('w, thrown, rate_decision) eff"

definition bucket_consume ::
  "consume_request \<Rightarrow> ms \<Rightarrow> bucket_state option \<Rightarrow> rate_decision \<times> bucket_state" where
  "bucket_consume request nowMs stored =
     (let state = (case stored of
            None \<Rightarrow> \<lparr>bk_tokens = of_int (cr_limit request), bk_updatedAtMs = nowMs\<rparr>
          | Some s \<Rightarrow> s);
          elapsedMs = max 0 (nowMs - bk_updatedAtMs state);
          refill = (of_int elapsedMs / 1000) * (of_int (cr_limit request) / of_int (cr_windowSec request));
          tokens = min (of_int (cr_limit request)) (bk_tokens state + refill)
      in if tokens < 1
         then let secondsPerToken = of_int (cr_windowSec request) / of_int (cr_limit request) in
           (Refused (max 1 \<lceil>(1 - tokens) * secondsPerToken\<rceil>),
            \<lparr>bk_tokens = tokens, bk_updatedAtMs = nowMs\<rparr>)
         else (Allowed, \<lparr>bk_tokens = tokens - 1, bk_updatedAtMs = nowMs\<rparr>))"

definition memory_consume :: "consume_request \<Rightarrow> ('a rate_world_scheme, thrown, rate_decision) eff" where
  "memory_consume request w =
     (let (decision, state) = bucket_consume request (pr_now w) (rw_buckets w (cr_key request)) in
      (Inr decision, w\<lparr>rw_buckets := (rw_buckets w)(cr_key request \<mapsto> state)\<rparr>))"

definition createInMemoryRateLimitStore :: "'a rate_world_scheme rate_limit_store" where
  "createInMemoryRateLimitStore = \<lparr>rs_consume = memory_consume\<rparr>"

section \<open>The hook\<close>

text \<open>What every protocol hook receives about the invocation.\<close>

record hook_env =
  he_contract :: action_contract
  he_request :: hook_request_meta
  he_principal :: principal_invocation
  he_input :: json

definition rate_limit_of :: "int \<Rightarrow> rate_limit_scope \<Rightarrow> action_rate_limit" where
  "rate_limit_of limit scope =
     \<lparr>rl_limit = JsInt limit, rl_windowSec = JsInt 60, rl_scope = scope\<rparr>"

fun rateLimitDefaults :: "principal \<Rightarrow> action_rate_limit option" where
  "rateLimitDefaults Staff = Some (rate_limit_of 120 PerUser)"
| "rateLimitDefaults Customer = Some (rate_limit_of 120 PerUser)"
| "rateLimitDefaults Public = Some (rate_limit_of 30 PerIpHmac)"
| "rateLimitDefaults Consumer = Some (rate_limit_of 60 PerUser)"
| "rateLimitDefaults Account = Some (rate_limit_of 90 PerUser)"
| "rateLimitDefaults Share = Some (rate_limit_of 30 PerIpHmac)"
| "rateLimitDefaults System = None"

definition defaultPolicyFor :: "hook_env \<Rightarrow> action_rate_limit option" where
  "defaultPolicyFor env =
     (if ac_principal (he_contract env) = System then None
      else rateLimitDefaults (ac_principal (he_contract env)))"

definition IP_HMAC_ROTATION_MS :: ms where
  "IP_HMAC_ROTATION_MS = 24 * 60 * 60 * 1000"

definition failsOpen :: "hook_env \<Rightarrow> bool" where
  "failsOpen env =
     (let mode = invocation_mode (he_principal env) in
      if mode = System then True
      else if mode = Public \<or> mode = Share then False
      else ac_risk (he_contract env) = RiskRead)"

definition requireUserId :: "hook_env \<Rightarrow> core_error + js_string" where
  "requireUserId env =
     (let mode = invocation_mode (he_principal env) in
      if mode = Public \<or> mode = System \<or> mode = Share
      then Inl (protocol_error NoUserForRateLimit)
      else case invocation_session (he_principal env) of
        None \<Rightarrow> Inl (protocol_error NoSessionForRateLimit)
      | Some userId \<Rightarrow> Inr userId)"

definition limiter_requireClientIp :: "hook_env \<Rightarrow> core_error + js_string" where
  "limiter_requireClientIp env =
     (case rq_clientIp (he_request env) of
        None \<Rightarrow> Inl (protocol_error NoClientIpForRateLimit)
      | Some ip \<Rightarrow> Inr ip)"

definition resolveCompanyKey :: "hook_env \<Rightarrow> core_error + js_string" where
  "resolveCompanyKey env =
     (case he_principal env of
        InvokeSystem _ (TenantScope companyId) _ \<Rightarrow> Inr (''company:'' @ companyId)
      | _ \<Rightarrow> Inl (protocol_error NoTrustedCompany))"

definition rotatingIpHmac ::
  "(js_string \<Rightarrow> js_string \<Rightarrow> js_string) \<Rightarrow> js_string \<Rightarrow> ms \<Rightarrow> js_string \<Rightarrow> js_string" where
  "rotatingIpHmac hmac ipHmacSecret nowMs clientIp =
     (let rotationWindow = nowMs div IP_HMAC_ROTATION_MS in
      take 32 (hmac ipHmacSecret (show_int rotationWindow @ '':'' @ clientIp)))"

definition resolveScopeKey ::
  "(js_string \<Rightarrow> js_string \<Rightarrow> js_string) \<Rightarrow> js_string \<Rightarrow> ms \<Rightarrow> hook_env \<Rightarrow> rate_limit_scope \<Rightarrow>
     core_error + js_string" where
  "resolveScopeKey hmac ipHmacSecret nowMs env scope =
     (case scope of
        PerUser \<Rightarrow> res_bind (requireUserId env) (\<lambda>userId. Inr (''user:'' @ userId))
      | PerIpHmac \<Rightarrow> res_bind (limiter_requireClientIp env)
          (\<lambda>ip. Inr (''ipHmac:'' @ rotatingIpHmac hmac ipHmacSecret nowMs ip))
      | PerCompany \<Rightarrow> resolveCompanyKey env
      | PerGlobal \<Rightarrow> Inr ''global'')"

definition bucket_key :: "hook_env \<Rightarrow> js_string \<Rightarrow> js_string" where
  "bucket_key env scopeKey = ''rl:'' @ ac_name (he_contract env) @ '':'' @ scopeKey"

definition rate_policy :: "hook_env \<Rightarrow> action_rate_limit option" where
  "rate_policy env =
     (case ac_rateLimit (he_contract env) of Some rl \<Rightarrow> Some rl | None \<Rightarrow> defaultPolicyFor env)"

definition enforce ::
  "(js_string \<Rightarrow> js_string \<Rightarrow> js_string) \<Rightarrow> js_string \<Rightarrow> 'a process_scheme rate_limit_store \<Rightarrow>
     hook_env \<Rightarrow> ('a process_scheme, thrown, unit) eff" where
  "enforce hmac ipHmacSecret store env w =
     (case rate_policy env of
        None \<Rightarrow> (Inr (), w)
      | Some policy \<Rightarrow>
          (case resolveScopeKey hmac ipHmacSecret (pr_now w) env (rl_scope policy) of
             Inl e \<Rightarrow> (Inl (Typed e), w)
           | Inr scopeKey \<Rightarrow>
               (case rs_consume store \<lparr>cr_key = bucket_key env scopeKey,
                    cr_limit = js_int (rl_limit policy),
                    cr_windowSec = js_int (rl_windowSec policy)\<rparr> w of
                  (Inl _, w') \<Rightarrow>
                    (if failsOpen env then (Inr (), w')
                     else (Inl (Typed (rate_limited (js_int (rl_windowSec policy)))), w'))
                | (Inr Allowed, w') \<Rightarrow> (Inr (), w')
                | (Inr (Refused seconds), w') \<Rightarrow>
                    (Inl (Typed (rate_limited seconds)), w'))))"

definition createRateLimitHook ::
  "(js_string \<Rightarrow> js_string \<Rightarrow> js_string) \<Rightarrow> js_string \<Rightarrow> 'a process_scheme rate_limit_store \<Rightarrow>
     core_error + (hook_env \<Rightarrow> ('a process_scheme, thrown, unit) eff)" where
  "createRateLimitHook hmac ipHmacSecret store =
     (if length ipHmacSecret = 0 then Inl (protocol_error EmptyIpSecret)
      else Inr (enforce hmac ipHmacSecret store))"

section \<open>The bucket bounds the traffic\<close>

text \<open>The tokens in the bucket at a time, before the request is served.\<close>

definition available :: "consume_request \<Rightarrow> ms \<Rightarrow> bucket_state option \<Rightarrow> rat" where
  "available request nowMs stored =
     (case stored of
        None \<Rightarrow> of_int (cr_limit request)
      | Some s \<Rightarrow> min (of_int (cr_limit request)) (bk_tokens s
          + of_int (max 0 (nowMs - bk_updatedAtMs s)) / 1000
            * (of_int (cr_limit request) / of_int (cr_windowSec request))))"

lemma bucket_consume_eq:
  "bucket_consume request nowMs stored =
     (let tokens = available request nowMs stored in
      if tokens < 1
      then (Refused (max 1 \<lceil>(1 - tokens) * (of_int (cr_windowSec request) / of_int (cr_limit request))\<rceil>),
            \<lparr>bk_tokens = tokens, bk_updatedAtMs = nowMs\<rparr>)
      else (Allowed, \<lparr>bk_tokens = tokens - 1, bk_updatedAtMs = nowMs\<rparr>))"
  by (cases stored) (simp_all add: bucket_consume_def available_def Let_def)

definition refill_rate :: "int \<Rightarrow> int \<Rightarrow> rat" where
  "refill_rate limit windowSec = of_int limit / (1000 * of_int windowSec)"

lemma available_Some:
  "bk_updatedAtMs s \<le> nowMs \<Longrightarrow> available request nowMs (Some s) =
     min (of_int (cr_limit request)) (bk_tokens s
       + of_int (nowMs - bk_updatedAtMs s) * refill_rate (cr_limit request) (cr_windowSec request))"
  by (simp add: available_def refill_rate_def)

text \<open>A sequence of requests at given times, of any keys.\<close>

fun consume_run :: "(ms \<times> consume_request) list \<Rightarrow> (js_string \<Rightarrow> bucket_state option) \<Rightarrow>
    rate_decision list" where
  "consume_run [] buckets = []"
| "consume_run ((t, request) # rest) buckets =
     (let (decision, state) = bucket_consume request t (buckets (cr_key request)) in
      decision # consume_run rest (buckets(cr_key request \<mapsto> state)))"

definition served :: "js_string \<Rightarrow> (ms \<times> consume_request) list \<Rightarrow> rate_decision list \<Rightarrow> nat" where
  "served key requests decisions =
     length (filter (\<lambda>((t, request), decision). cr_key request = key \<and> decision = Allowed)
       (zip requests decisions))"

lemma served_simps [simp]:
  "served key [] ds = 0"
  "served key (r # rs) (d # ds) = (if cr_key (snd r) = key \<and> d = Allowed then 1 else 0) + served key rs ds"
  by (auto simp: served_def split: prod.splits)

lemma served_from_bucket:
  assumes "sorted (map fst requests)" and "\<forall>(t, r) \<in> set requests. from \<le> t \<and> t \<le> until"
    and "\<forall>(t, r) \<in> set requests. cr_key r = key \<longrightarrow> cr_limit r = limit \<and> cr_windowSec r = window"
    and "0 < limit" and "0 < window" and "from \<le> until"
    and "buckets key = Some s" and "bk_updatedAtMs s \<le> from" and "0 \<le> bk_tokens s"
  shows "of_nat (served key requests (consume_run requests buckets))
    \<le> bk_tokens s + of_int (until - bk_updatedAtMs s) * refill_rate limit window"
  using assms
proof (induction requests arbitrary: buckets s "from")
  case Nil
  then show ?case by (simp add: refill_rate_def)
next
  case (Cons tr rest)
  obtain t r where tr: "tr = (t, r)" by fastforce
  let ?rate = "refill_rate limit window"
  have rate: "0 \<le> ?rate" using Cons.prems(4,5) by (simp add: refill_rate_def)
  have t: "from \<le> t" "t \<le> until" using Cons.prems(2) tr by auto
  have sorted: "sorted (map fst rest)" "\<forall>(t', r) \<in> set rest. t \<le> t' \<and> t' \<le> until"
    using Cons.prems(1,2) tr by auto
  have same: "\<forall>(t, r) \<in> set rest. cr_key r = key \<longrightarrow> cr_limit r = limit \<and> cr_windowSec r = window"
    using Cons.prems(3) by auto
  note IH = Cons.IH [OF sorted same Cons.prems(4,5) t(2)]
  show ?case
  proof (cases "cr_key r = key")
    case False
    have "of_nat (served key rest (consume_run rest (buckets(cr_key r \<mapsto>
          snd (bucket_consume r t (buckets (cr_key r))))))) 
        \<le> bk_tokens s + of_int (until - bk_updatedAtMs s) * ?rate"
      by (rule IH) (use False Cons.prems(7-9) t in auto)
    then show ?thesis using False tr by (simp add: split_def Let_def)
  next
    case True
    have lw: "cr_limit r = limit" "cr_windowSec r = window" using Cons.prems(3) tr True by auto
    define a where "a = available r t (Some s)"
    have a: "a = min (of_int limit) (bk_tokens s + of_int (t - bk_updatedAtMs s) * ?rate)"
      using available_Some [of s t r] Cons.prems(8) t(1) lw by (simp add: a_def)
    have le: "a \<le> bk_tokens s + of_int (t - bk_updatedAtMs s) * ?rate" by (simp add: a)
    have pos: "0 \<le> a"
      using Cons.prems(4,8,9) t(1) rate by (simp add: a)
    let ?s = "snd (bucket_consume r t (Some s))"
    have s': "bk_updatedAtMs ?s = t" "bk_tokens ?s = (if a < 1 then a else a - 1)"
      "(fst (bucket_consume r t (Some s)) = Allowed) = (\<not> a < 1)"
      by (simp_all add: bucket_consume_eq Let_def a_def)
    have "of_nat (served key rest (consume_run rest (buckets(cr_key r \<mapsto> ?s))))
        \<le> bk_tokens ?s + of_int (until - bk_updatedAtMs ?s) * ?rate"
      by (rule IH) (use True pos s' in auto)
    then have "of_nat (served key rest (consume_run rest (buckets(cr_key r \<mapsto> ?s))))
        + (if a < 1 then 0 else 1) \<le> a + of_int (until - t) * ?rate"
      using s' by (auto split: if_splits)
    moreover have "a + of_int (until - t) * ?rate
        \<le> bk_tokens s + of_int (until - bk_updatedAtMs s) * ?rate"
      using le by (simp add: algebra_simps)
    ultimately have "of_nat (served key rest (consume_run rest (buckets(cr_key r \<mapsto> ?s))))
        + (if a < 1 then 0 else 1) \<le> bk_tokens s + of_int (until - bk_updatedAtMs s) * ?rate"
      by (rule order_trans)
    then show ?thesis
      using True tr s'(3) Cons.prems(7) by (simp add: split_def Let_def) (auto split: if_splits)
  qed
qed

text \<open>What happened to a bucket before a time is summed up in the tokens available then.\<close>

definition bucket_ok :: "ms \<Rightarrow> bucket_state option \<Rightarrow> bool" where
  "bucket_ok t stored = (case stored of None \<Rightarrow> True | Some s \<Rightarrow> bk_updatedAtMs s \<le> t \<and> 0 \<le> bk_tokens s)"

lemma available_rebase:
  assumes "start \<le> t" "bucket_ok start stored" "0 < cr_limit r" "0 < cr_windowSec r"
    and "cr_limit r' = cr_limit r" "cr_windowSec r' = cr_windowSec r"
  shows "available r t (Some \<lparr>bk_tokens = available r' start stored, bk_updatedAtMs = start\<rparr>)
    = available r t stored"
proof (cases stored)
  case None
  have "0 \<le> of_int (t - start) * refill_rate (cr_limit r) (cr_windowSec r)"
    using assms(1,3,4) by (simp add: refill_rate_def)
  then show ?thesis
    using None assms(1,5) by (subst available_Some) (simp_all add: available_def)
next
  case (Some s)
  let ?rate = "refill_rate (cr_limit r) (cr_windowSec r)"
  have "0 \<le> of_int (t - start) * ?rate" using assms(1,3,4) by (simp add: refill_rate_def)
  moreover have "(of_int (t - bk_updatedAtMs s) :: rat) * ?rate
      = of_int (start - bk_updatedAtMs s) * ?rate + of_int (t - start) * ?rate"
    by (simp add: algebra_simps)
  moreover have "bk_updatedAtMs s \<le> start" using assms(2) Some by (simp add: bucket_ok_def)
  ultimately show ?thesis
    using Some assms(1,5,6) by (simp add: available_Some)
qed

lemma available_bounds:
  assumes "bucket_ok t stored" "0 < cr_limit r" "0 < cr_windowSec r"
  shows "0 \<le> available r t stored" "available r t stored \<le> of_int (cr_limit r)"
  using assms by (auto simp: available_def bucket_ok_def split: option.splits)

lemma run_rebase:
  assumes "\<forall>(t, r) \<in> set requests. start \<le> t"
    and "\<forall>(t, r) \<in> set requests. cr_key r = key \<longrightarrow> cr_limit r = limit \<and> cr_windowSec r = window"
    and "0 < limit" "0 < window" "bucket_ok start (buckets key)"
    and "cr_limit r0 = limit" "cr_windowSec r0 = window"
  shows "consume_run requests
      (buckets(key \<mapsto> \<lparr>bk_tokens = available r0 start (buckets key), bk_updatedAtMs = start\<rparr>))
    = consume_run requests buckets"
  using assms
proof (induction requests arbitrary: buckets)
  case (Cons tr rest)
  obtain t r where tr: "tr = (t, r)" by fastforce
  let ?base = "\<lparr>bk_tokens = available r0 start (buckets key), bk_updatedAtMs = start\<rparr>"
  show ?case
  proof (cases "cr_key r = key")
    case True
    have "available r t (Some ?base) = available r t (buckets key)"
      by (rule available_rebase) (use Cons.prems True tr in auto)
    then have eq: "bucket_consume r t (Some ?base) = bucket_consume r t (buckets key)"
      by (simp only: bucket_consume_eq)
    then show ?thesis using True tr by (simp add: split_def Let_def del: fun_upd_apply add: fun_upd_same)
  next
    case False
    let ?s = "snd (bucket_consume r t (buckets (cr_key r)))"
    have keep: "(buckets(cr_key r \<mapsto> ?s)) key = buckets key" using False by simp
    have "consume_run rest ((buckets(cr_key r \<mapsto> ?s))(key \<mapsto>
          \<lparr>bk_tokens = available r0 start ((buckets(cr_key r \<mapsto> ?s)) key), bk_updatedAtMs = start\<rparr>))
        = consume_run rest (buckets(cr_key r \<mapsto> ?s))"
      by (rule Cons.IH) (use Cons.prems keep in auto)
    then have "consume_run rest ((buckets(cr_key r \<mapsto> ?s))(key \<mapsto> ?base))
        = consume_run rest (buckets(cr_key r \<mapsto> ?s))"
      unfolding keep .
    then show ?thesis
      using False tr by (simp add: split_def Let_def fun_upd_twist [OF False] fun_upd_other del: fun_upd_apply)
  qed
qed simp


lemma reach_iff: "0 < p \<Longrightarrow> 1 \<le> a + x / p \<longleftrightarrow> (1 - a) * p \<le> x" for p :: rat
  by (simp add: field_simps)

text \<open>
  The retry hint is right to the second. A refused request that is repeated after the hinted
  number of seconds is served, if no other request took the token; repeated a second earlier it
  is refused again, unless the hint was the minimum of one second.
\<close>

theorem retry_hint_is_exact:
  assumes "bucket_consume r t stored = (Refused seconds, s)"
    and "0 < cr_limit r" and "0 < cr_windowSec r" and "bucket_ok t stored"
  shows "1 \<le> seconds
    \<and> fst (bucket_consume r (t + 1000 * seconds) (Some s)) = Allowed
    \<and> (1 < seconds \<longrightarrow> fst (bucket_consume r (t + 1000 * (seconds - 1)) (Some s)) \<noteq> Allowed)"
proof -
  define a where "a = available r t stored"
  let ?spt = "of_int (cr_windowSec r) / of_int (cr_limit r) :: rat"
  have lt: "a < 1" and s: "s = \<lparr>bk_tokens = a, bk_updatedAtMs = t\<rparr>"
    and sec: "seconds = max 1 \<lceil>(1 - a) * ?spt\<rceil>"
    using assms(1) by (auto simp: bucket_consume_eq a_def Let_def split: if_splits)
  have spt: "0 < ?spt" using assms(2,3) by simp
  have av: "available r (t + 1000 * k) (Some s) = min (of_int (cr_limit r)) (a + of_int k / ?spt)" if "0 \<le> k" for k
    using that assms(2,3) by (subst available_Some) (simp_all add: s refill_rate_def field_simps)
  have reach: "1 \<le> a + of_int k / ?spt \<longleftrightarrow> \<lceil>(1 - a) * ?spt\<rceil> \<le> k" for k
  proof -
    have "1 \<le> a + of_int k / ?spt \<longleftrightarrow> (1 - a) * ?spt \<le> of_int k"
      by (rule reach_iff [OF spt])
    then show ?thesis by (simp add: ceiling_le_iff)
  qed
  have one: "(1 :: rat) \<le> of_int (cr_limit r)" using assms(2) by simp
  have "1 \<le> seconds" using sec by simp
  moreover have "1 \<le> available r (t + 1000 * seconds) (Some s)"
    using av [of seconds] reach [of seconds] sec one by simp
  moreover have "available r (t + 1000 * (seconds - 1)) (Some s) < 1" if "1 < seconds"
    using av [of "seconds - 1"] reach [of "seconds - 1"] sec that by (auto simp: not_le min_less_iff_disj)
  ultimately show ?thesis by (simp add: bucket_consume_eq Let_def not_less)
qed

section \<open>The hook\<close>

text \<open>What the hook asks of the store.\<close>

definition request_of :: "hook_env \<Rightarrow> action_rate_limit \<Rightarrow> js_string \<Rightarrow> consume_request" where
  "request_of env policy scopeKey = \<lparr>cr_key = bucket_key env scopeKey,
     cr_limit = js_int (rl_limit policy), cr_windowSec = js_int (rl_windowSec policy)\<rparr>"

lemma rate_policy_None:
  "rate_policy env = None \<longleftrightarrow>
     ac_rateLimit (he_contract env) = None \<and> ac_principal (he_contract env) = System"
  by (cases "ac_principal (he_contract env)")
    (auto simp: rate_policy_def defaultPolicyFor_def split: option.splits)

text \<open>
  No request runs unmetered. A request passes the limiter exactly when it is a system action
  without a declared limit, when its bucket gave it a token, or when the store failed and the
  action is a system action or an authenticated read: with the store down, every mutation and
  every public or share request is refused.
\<close>

theorem passes_only_metered:
  assumes "assertPrincipalShape (he_contract env) (he_principal env) = Inr ()"
  shows "fst (enforce hmac secret store env w) = Inr () \<longleftrightarrow>
    (let mode = ac_principal (he_contract env) in
     mode = System \<and> ac_rateLimit (he_contract env) = None
     \<or> (\<exists>policy scopeKey. rate_policy env = Some policy
          \<and> resolveScopeKey hmac secret (pr_now w) env (rl_scope policy) = Inr scopeKey
          \<and> (fst (rs_consume store (request_of env policy scopeKey) w) = Inr Allowed
             \<or> isl (fst (rs_consume store (request_of env policy scopeKey) w))
               \<and> (mode = System
                  \<or> mode \<in> {Staff, Customer, Consumer, Account} \<and> ac_risk (he_contract env) = RiskRead))))"
proof -
  have mode: "invocation_mode (he_principal env) = ac_principal (he_contract env)"
    using assms by (simp add: assertPrincipalShape_def split: if_splits)
  have open_iff: "failsOpen env \<longleftrightarrow> ac_principal (he_contract env) = System
      \<or> ac_principal (he_contract env) \<in> {Staff, Customer, Consumer, Account}
        \<and> ac_risk (he_contract env) = RiskRead"
    by (cases "ac_principal (he_contract env)") (simp_all add: failsOpen_def mode Let_def)
  show ?thesis
  proof (cases "rate_policy env")
    case None
    then show ?thesis using rate_policy_None [of env] by (simp add: enforce_def Let_def)
  next
    case (Some policy)
    then have limited: "\<not> (ac_principal (he_contract env) = System \<and> ac_rateLimit (he_contract env) = None)"
      using rate_policy_None [of env] by auto
    show ?thesis
    proof (cases "resolveScopeKey hmac secret (pr_now w) env (rl_scope policy)")
      case (Inl e)
      then show ?thesis using Some limited by (simp add: enforce_def Let_def)
    next
      case (Inr scopeKey)
      obtain d w' where d: "rs_consume store (request_of env policy scopeKey) w = (d, w')" by fastforce
      then have "fst (enforce hmac secret store env w) = Inr () \<longleftrightarrow>
          d = Inr Allowed \<or> isl d \<and> failsOpen env"
        using Some Inr
        by (cases d) (auto simp: enforce_def request_of_def split: rate_decision.splits)
      then show ?thesis using Some Inr limited d open_iff unfolding Let_def by auto
    qed
  qed
qed

lemma action_name_no_colon:
  assumes "ACTION_NAME_PATTERN s"
  shows "CHR '':'' \<notin> set s"
proof -
  obtain m v where "s = m @ CHR ''.'' # v" "camel_segment m" "camel_segment v"
    using assms by (auto simp: ACTION_NAME_PATTERN_def camel_pair_iff)
  then show ?thesis
    using camel_segment_alnum [of m "CHR '':''"] camel_segment_alnum [of v "CHR '':''"] by auto
qed

lemma split_at_colon:
  assumes "a @ CHR '':'' # x = b @ CHR '':'' # y" "CHR '':'' \<notin> set a" "CHR '':'' \<notin> set b"
  shows "a = b \<and> x = y"
proof -
  have tw: "takeWhile (\<lambda>c. c \<noteq> CHR '':'') (l @ CHR '':'' # r) = l" if "CHR '':'' \<notin> set l" for l r
    using that by (subst takeWhile_append2) auto
  have "a = b" using tw [OF assms(2), of x] tw [OF assms(3), of y] assms(1) by simp
  then show ?thesis using assms(1) by simp
qed

text \<open>
  Callers never share a bucket. Two invocations of validated actions have the same bucket key
  only for the same action and scope, and then only for the same user, the same trusted company or
  the same digest of the client address in the rotation window.
\<close>

theorem buckets_are_private:
  assumes "ACTION_NAME_PATTERN (ac_name (he_contract e1))" and "ACTION_NAME_PATTERN (ac_name (he_contract e2))"
    and "resolveScopeKey hmac secret t1 e1 s1 = Inr k1" and "resolveScopeKey hmac secret t2 e2 s2 = Inr k2"
    and "bucket_key e1 k1 = bucket_key e2 k2"
  shows "ac_name (he_contract e1) = ac_name (he_contract e2) \<and> s1 = s2
    \<and> (s1 = PerUser \<longrightarrow> invocation_session (he_principal e1) = invocation_session (he_principal e2)
         \<and> invocation_session (he_principal e1) \<noteq> None)
    \<and> (s1 = PerCompany \<longrightarrow> (\<exists>c. resolveCompanyKey e1 = Inr (''company:'' @ c)
         \<and> resolveCompanyKey e2 = Inr (''company:'' @ c)))
    \<and> (s1 = PerIpHmac \<longrightarrow> (\<exists>ip1 ip2. rq_clientIp (he_request e1) = Some ip1
         \<and> rq_clientIp (he_request e2) = Some ip2
         \<and> rotatingIpHmac hmac secret t1 ip1 = rotatingIpHmac hmac secret t2 ip2))"
proof -
  have same: "ac_name (he_contract e1) = ac_name (he_contract e2)" "k1 = k2"
    using split_at_colon [of "ac_name (he_contract e1)" k1 "ac_name (he_contract e2)" k2]
      action_name_no_colon [OF assms(1)] action_name_no_colon [OF assms(2)] assms(5)
    by (auto simp: bucket_key_def)
  show ?thesis
    using same assms(3,4)
    by (cases s1; cases s2)
      (auto simp: resolveScopeKey_def res_bind_def requireUserId_def limiter_requireClientIp_def
        resolveCompanyKey_def Let_def
        split: option.splits if_splits sum.splits principal_invocation.splits system_scope_input.splits)
qed

section \<open>Witnesses\<close>

definition sample_consume :: consume_request where
  "sample_consume = \<lparr>cr_key = ''k'', cr_limit = 2, cr_windowSec = 60\<rparr>"

definition sample_requests :: "(ms \<times> consume_request) list" where
  "sample_requests = [(0, sample_consume), (10, sample_consume), (10, sample_consume\<lparr>cr_key := ''l''\<rparr>),
     (500, sample_consume), (1000, sample_consume)]"


theorem retry_hint_is_exact_witness:
  "fst (bucket_consume sample_consume 30000 (Some \<lparr>bk_tokens = 0, bk_updatedAtMs = 0\<rparr>)) = Allowed"
proof -
  have "bucket_consume sample_consume 0 (Some \<lparr>bk_tokens = 0, bk_updatedAtMs = 0\<rparr>)
      = (Refused 30, \<lparr>bk_tokens = 0, bk_updatedAtMs = 0\<rparr>)"
    by (simp add: bucket_consume_def sample_consume_def Let_def)
  from retry_hint_is_exact [OF this] show ?thesis
    by (simp add: sample_consume_def bucket_ok_def)
qed

definition sample_hook_env :: hook_env where
  "sample_hook_env = \<lparr>he_contract = sample_contract, he_request = sample_hook_request,
     he_principal = InvokeStaff (Some ''u1'') (Some sample_company), he_input = JNull\<rparr>"

definition broken_store :: "idem_world rate_limit_store" where
  "broken_store = \<lparr>rs_consume = (\<lambda>_. eff_throw Foreign)\<rparr>"

theorem passes_only_metered_witness:
  "fst (enforce (\<lambda>k t. t) ''s'' broken_store sample_hook_env empty_world) \<noteq> Inr ()"
proof -
  have "assertPrincipalShape (he_contract sample_hook_env) (he_principal sample_hook_env) = Inr ()"
    by (simp add: assertPrincipalShape_def sample_hook_env_def sample_contract_def)
  from passes_only_metered [OF this, of "\<lambda>k t. t" "''s''" broken_store empty_world]
  show ?thesis
    by (simp add: Let_def sample_hook_env_def sample_contract_def broken_store_def eff_throw_def)
qed

theorem buckets_are_private_witness:
  "invocation_session (he_principal sample_hook_env) \<noteq> None
   \<and> bucket_key sample_hook_env ''user:u1'' = ''rl:orders.confirm:user:u1''"
proof -
  have name: "ACTION_NAME_PATTERN (ac_name (he_contract sample_hook_env))"
    by (simp add: sample_hook_env_def sample_contract_def name_eval_simps)
  have key: "resolveScopeKey (\<lambda>k t. t) ''s'' 0 sample_hook_env PerUser = Inr ''user:u1''"
    by (simp add: resolveScopeKey_def requireUserId_def sample_hook_env_def Let_def)
  from buckets_are_private [OF name name key key refl] show ?thesis
    by (simp add: bucket_key_def sample_hook_env_def sample_contract_def)
qed

end
