(* ===== verification/Uuid7.thy ===== *)
theory Uuid7
  imports Contexts Process "HOL-Library.Word" "HOL-Library.Char_ord" "HOL-Library.List_Lexorder"
begin

unbundle bit_operations_syntax

text \<open>
  Time-ordered identifiers (\<open>runtime/events/uuidv7.ts\<close>). A byte is an \<open>8 word\<close>; the bitwise
  operators of the source work on 32-bit values, so a quotient is first cut to 32 bits. The
  random bytes are the parameter \<open>randomBytes\<close>, drawn from the same supply as other identifiers.
\<close>

type_synonym byte = "8 word"

definition MAX_TIMESTAMP_MS :: int where
  "MAX_TIMESTAMP_MS = 2 ^ 48 - 1"

text \<open>\<open>Math.floor(timestampMs / 2 ** k) & 0xff\<close>, stored in a byte.\<close>

definition time_byte :: "ms \<Rightarrow> nat \<Rightarrow> byte" where
  "time_byte timestampMs k = ucast ((word_of_int (timestampMs div 2 ^ k) :: 32 word) AND 0xff)"

definition uuidv7_bytes :: "byte list \<Rightarrow> ms \<Rightarrow> byte list" where
  "uuidv7_bytes bytes timestampMs =
     bytes[0 := time_byte timestampMs 40, 1 := time_byte timestampMs 32,
           2 := time_byte timestampMs 24, 3 := time_byte timestampMs 16,
           4 := time_byte timestampMs 8, 5 := time_byte timestampMs 0,
           6 := ((bytes ! 6) AND 0x0f) OR 0x70,
           8 := ((bytes ! 8) AND 0x3f) OR 0x80]"

definition byte_hex :: "byte \<Rightarrow> js_string" where
  "byte_hex b = [hex_digit (unat b div 16), hex_digit (unat b mod 16)]"

definition uuid_text :: "byte list \<Rightarrow> js_string" where
  "uuid_text bytes =
     (let hex = concat (map byte_hex bytes) in
      take 8 hex @ ''-'' @ take 4 (drop 8 hex) @ ''-'' @ take 4 (drop 12 hex) @ ''-''
        @ take 4 (drop 16 hex) @ ''-'' @ drop 20 hex)"

definition uuidv7 ::
  "(nat \<Rightarrow> byte list) \<Rightarrow> ms \<Rightarrow> ('a process_scheme, core_error, js_string) eff" where
  "uuidv7 randomBytes timestampMs w =
     (if timestampMs < 0 \<or> timestampMs > MAX_TIMESTAMP_MS
      then (Inl (event_error UuidTimestampRange), w)
      else (Inr (uuid_text (uuidv7_bytes (randomBytes (pr_uuids w)) timestampMs)),
            w\<lparr>pr_uuids := Suc (pr_uuids w)\<rparr>))"

section \<open>Digits\<close>

text \<open>The last \<open>n\<close> digits of a number to the base 16, the highest first.\<close>

definition nibbles :: "nat \<Rightarrow> nat \<Rightarrow> nat list" where
  "nibbles n x = map (\<lambda>i. x div 16 ^ i mod 16) (rev [0..<n])"

lemma nibbles_Suc: "nibbles (Suc n) x = x div 16 ^ n mod 16 # nibbles n x"
  by (simp add: nibbles_def)

lemma nibbles_mod: "nibbles n (x mod 16 ^ n) = nibbles n x"
proof -
  have "x mod 16 ^ n div 16 ^ i mod 16 = x div 16 ^ i mod 16" if lt: "i < n" for i
  proof -
    obtain k where k: "n = i + Suc k" using less_imp_Suc_add [OF lt] by auto
    have "x mod (16 ^ i * 16 ^ Suc k) div 16 ^ i = x div 16 ^ i mod 16 ^ Suc k"
      by (subst mod_mult2_eq) simp
    moreover have "(16 :: nat) ^ n = 16 ^ i * 16 ^ Suc k" by (simp only: k power_add)
    ultimately have "x mod 16 ^ n div 16 ^ i mod 16 = x div 16 ^ i mod 16 ^ Suc k mod 16" by metis
    also have "\<dots> = x div 16 ^ i mod 16" by (rule mod_mod_cancel) simp
    finally show ?thesis .
  qed
  then show ?thesis by (simp add: nibbles_def)
qed

lemma mod_less_if_div_eq:
  fixes x :: nat
  assumes "x < y" and "x div p = y div p"
  shows "x mod p < y mod p"
proof -
  have "x div p * p + x mod p < x div p * p + y mod p"
    using assms by (metis div_mult_mod_eq)
  then show ?thesis by (simp only: add_less_cancel_left)
qed

lemma nibbles_less:
  assumes "x < y" and "y < 16 ^ n"
  shows "nibbles n x < nibbles n y"
  using assms
proof (induction n arbitrary: x y)
  case (Suc n)
  let ?p = "16 ^ n :: nat"
  have top: "x div ?p < 16" "y div ?p < 16"
    using Suc.prems by (simp_all add: div_less_iff_less_mult mult.commute)
  have le: "x div ?p \<le> y div ?p" using Suc.prems(1) by (simp add: div_le_mono)
  show ?case
  proof (cases "x div ?p = y div ?p")
    case True
    have "x mod ?p < y mod ?p" by (rule mod_less_if_div_eq [OF Suc.prems(1) True])
    then have "nibbles n (x mod ?p) < nibbles n (y mod ?p)" by (rule Suc.IH) simp
    then show ?thesis using True by (simp add: nibbles_Suc nibbles_mod)
  next
    case False
    then show ?thesis using top le by (simp add: nibbles_Suc)
  qed
qed simp

lemma hex_digit_code: "d < 16 \<Longrightarrow> char_code (hex_digit d) = (if d < 10 then 48 + d else 87 + d)"
  by (simp add: hex_digit_def char_code_def of_char_of)

lemma hex_digit_less: "a < 16 \<Longrightarrow> b < 16 \<Longrightarrow> hex_digit a < hex_digit b \<longleftrightarrow> a < b"
  using hex_digit_code [of a] hex_digit_code [of b]
  by (auto simp: less_char_def char_code_def split: if_splits)

lemma hex_digit_eq: "a < 16 \<Longrightarrow> b < 16 \<Longrightarrow> hex_digit a = hex_digit b \<longleftrightarrow> a = b"
  using hex_digit_code [of a] hex_digit_code [of b] by (metis hex_digit_less less_irrefl linorder_neqE_nat)

lemma append_same_less: "(zs :: js_string) @ xs < zs @ ys \<longleftrightarrow> xs < ys"
  by (induction zs) simp_all

lemma map_hex_less:
  assumes "xs < ys" "length xs = length ys" "\<forall>x \<in> set xs. x < 16" "\<forall>y \<in> set ys. y < 16"
  shows "map hex_digit xs @ r < map hex_digit ys @ r'"
  using assms(2,1,3,4)
proof (induction xs ys rule: list_induct2)
  case (Cons x xs y ys)
  then show ?case by (auto simp: hex_digit_less hex_digit_eq)
qed simp

lemma unat_time_byte:
  assumes "0 \<le> ts"
  shows "unat (time_byte ts k) = nat ts div 2 ^ k mod 256"
proof -
  have mask: "(255 :: int) = mask 8" by (simp add: mask_eq_exp_minus_1)
  have "uint (time_byte ts k) = take_bit 8 (take_bit 32 (ts div 2 ^ k) AND 255)"
    by (simp add: time_byte_def unsigned_ucast_eq unsigned_and_eq uint_word_of_int_eq)
  also have "\<dots> = take_bit 8 (ts div 2 ^ k)"
    by (simp add: mask flip: take_bit_eq_mask)
  finally have "unat (time_byte ts k) = nat (ts div 2 ^ k mod 256)"
    by (simp add: unat_eq_nat_uint take_bit_eq_mod)
  moreover obtain n where "ts = int n" using assms nonneg_int_cases by blast
  moreover have "int n div 2 ^ k mod 256 = int (n div 2 ^ k mod 256)"
    by (simp add: zdiv_int zmod_int)
  ultimately show ?thesis by simp
qed

lemma byte_hex_time:
  assumes "0 \<le> ts"
  shows "byte_hex (time_byte ts (8 * j))
    = [hex_digit (nat ts div 16 ^ (2 * j + 1) mod 16), hex_digit (nat ts div 16 ^ (2 * j) mod 16)]"
proof -
  have split: "x mod 256 div 16 = x div 16 mod 16" "x mod 256 mod 16 = x mod 16" for x :: nat
  proof -
    have "x mod 256 = 16 * (x div 16 mod 16) + x mod 16" using mod_mult2_eq [of x 16 16] by simp
    then show "x mod 256 div 16 = x div 16 mod 16" "x mod 256 mod 16 = x mod 16" by simp_all
  qed
  have "(2 :: nat) ^ (8 * j) = 16 ^ (2 * j)" by (simp add: power_mult)
  then show ?thesis
    using unat_time_byte [OF assms, of "8 * j"] split [of "nat ts div 16 ^ (2 * j)"]
    by (simp add: byte_hex_def div_mult2_eq [symmetric] mult.commute)
qed

text \<open>The text of an identifier: the 48 bits of the time, then the random rest.\<close>

lemma uuid_text_time:
  assumes "0 \<le> ts" and "length bytes = 16"
  shows "\<exists>rest. uuid_text (uuidv7_bytes bytes ts)
    = map hex_digit (nibbles 8 (nat ts div 16 ^ 4)) @ ''-'' @ map hex_digit (nibbles 4 (nat ts)) @ rest"
proof -
  obtain b0 b1 b2 b3 b4 b5 b6 b7 b8 b9 b10 b11 b12 b13 b14 b15
    where b: "bytes = [b0, b1, b2, b3, b4, b5, b6, b7, b8, b9, b10, b11, b12, b13, b14, b15]"
    using assms(2) by (auto simp: length_Suc_conv numeral_eq_Suc)
  note hex = byte_hex_time [OF assms(1), of 5] byte_hex_time [OF assms(1), of 4]
    byte_hex_time [OF assms(1), of 3] byte_hex_time [OF assms(1), of 2]
    byte_hex_time [OF assms(1), of 1] byte_hex_time [OF assms(1), of 0]
  have high: "nibbles 8 (nat ts div 16 ^ 4) = map (\<lambda>i. nat ts div 16 ^ i mod 16) [11, 10, 9, 8, 7, 6, 5, 4]"
    by (simp add: nibbles_def upt_rec div_mult2_eq [symmetric])
  have low: "nibbles 4 (nat ts) = map (\<lambda>i. nat ts div 16 ^ i mod 16) [3, 2, 1, 0]"
    by (simp add: nibbles_def upt_rec)
  show ?thesis
    unfolding high low using hex
    by (simp add: b uuidv7_bytes_def uuid_text_def Let_def byte_hex_def)
qed

lemma hex_digit_hex: "d < 16 \<Longrightarrow> is_hex_digit (hex_digit d)"
  using hex_digit_code [of d] by (auto simp: is_hex_digit_def is_digit_def split: if_splits)

lemma byte_hex_shape: "list_all is_hex_digit (byte_hex b)" "length (byte_hex b) = 2"
proof -
  have "unat b < 256" using unsigned_less [of b] by simp
  then show "list_all is_hex_digit (byte_hex b)" by (simp add: byte_hex_def hex_digit_hex)
  show "length (byte_hex b) = 2" by (simp add: byte_hex_def)
qed

lemma uuid_text_eq:
  "uuid_text [b0, b1, b2, b3, b4, b5, b6, b7, b8, b9, b10, b11, b12, b13, b14, b15] =
     (byte_hex b0 @ byte_hex b1 @ byte_hex b2 @ byte_hex b3) @ CHR ''-'' #
     (byte_hex b4 @ byte_hex b5) @ CHR ''-'' # (byte_hex b6 @ byte_hex b7) @ CHR ''-'' #
     (byte_hex b8 @ byte_hex b9) @ CHR ''-'' #
     (byte_hex b10 @ byte_hex b11 @ byte_hex b12 @ byte_hex b13 @ byte_hex b14 @ byte_hex b15)"
  by (simp add: uuid_text_def Let_def byte_hex_def)

lemma uuidv7_bytes_eq:
  "uuidv7_bytes [b0, b1, b2, b3, b4, b5, b6, b7, b8, b9, b10, b11, b12, b13, b14, b15] t =
     [time_byte t 40, time_byte t 32, time_byte t 24, time_byte t 16, time_byte t 8, time_byte t 0,
      (b6 AND 0x0f) OR 0x70, b7, (b8 AND 0x3f) OR 0x80, b9, b10, b11, b12, b13, b14, b15]"
  by (simp add: uuidv7_bytes_def)

lemma uuid_text_digits:
  "uuid_text [b0, b1, b2, b3, b4, b5, b6, b7, b8, b9, b10, b11, b12, b13, b14, b15] ! 14
     = hex_digit (unat b6 div 16)"
  "uuid_text [b0, b1, b2, b3, b4, b5, b6, b7, b8, b9, b10, b11, b12, b13, b14, b15] ! 19
     = hex_digit (unat b8 div 16)"
  by (simp_all add: uuid_text_eq byte_hex_def)

lemma hyphen_not_hex: "\<not> is_hex_digit CHR ''-''"
  by (simp add: is_hex_digit_def is_digit_def char_code_def)

lemma list16:
  assumes "length bytes = 16"
  obtains b0 b1 b2 b3 b4 b5 b6 b7 b8 b9 b10 b11 b12 b13 b14 b15
  where "bytes = [b0, b1, b2, b3, b4, b5, b6, b7, b8, b9, b10, b11, b12, b13, b14, b15]"
  using assms by (auto simp: length_Suc_conv numeral_eq_Suc)

lemma uuid_text_pattern:
  assumes "length bytes = 16"
  shows "UUID_PATTERN (uuid_text bytes)"
proof -
  obtain b0 b1 b2 b3 b4 b5 b6 b7 b8 b9 b10 b11 b12 b13 b14 b15
    where b: "bytes = [b0, b1, b2, b3, b4, b5, b6, b7, b8, b9, b10, b11, b12, b13, b14, b15]"
    using assms by (rule list16)
  have no_hyphen: "CHR ''-'' \<notin> set (byte_hex x)" for x
    using byte_hex_shape(1) [of x] hyphen_not_hex by (auto simp: list_all_iff)
  have "split_on CHR ''-'' (uuid_text bytes) =
     [byte_hex b0 @ byte_hex b1 @ byte_hex b2 @ byte_hex b3, byte_hex b4 @ byte_hex b5,
      byte_hex b6 @ byte_hex b7, byte_hex b8 @ byte_hex b9,
      byte_hex b10 @ byte_hex b11 @ byte_hex b12 @ byte_hex b13 @ byte_hex b14 @ byte_hex b15]"
    unfolding b uuid_text_eq
    by (subst split_on_append, use no_hyphen in simp)+ (subst split_on_whole, use no_hyphen in simp_all)
  then show ?thesis by (simp add: UUID_PATTERN_def byte_hex_shape)
qed

lemma unat_high_nibble: "unat b div 16 = unat (drop_bit 4 b)" for b :: byte
  by (simp add: drop_bit_eq_div unat_div_distrib)

lemma version_digit: "hex_digit (unat ((b AND 0x0f) OR 0x70 :: byte) div 16) = CHR ''7''"
proof -
  have "drop_bit 4 ((b AND 0x0f) OR 0x70 :: byte) = 7" by simp
  then show ?thesis unfolding unat_high_nibble by (simp add: hex_digit_def char_of_eq_iff)
qed

lemma variant_digit: "hex_digit (unat ((b AND 0x3f) OR 0x80 :: byte) div 16) \<in> set ''89ab''"
proof -
  have "drop_bit 4 ((b AND 0x3f) OR 0x80 :: byte) = (drop_bit 4 b AND 3) OR 8" by simp
  moreover have "(x AND 3) OR 8 \<in> {8, 9, 10, 11 :: byte}" for x
  proof -
    have "x AND 3 = take_bit 2 x" by (simp add: take_bit_eq_mask mask_eq_exp_minus_1)
    moreover have "take_bit 2 x \<in> {0, 1, 2, 3}"
    proof -
      have "unat (take_bit 2 x) < 4" by (simp add: take_bit_eq_mod unat_mod_distrib)
      then have "unat (take_bit 2 x) \<in> {0, 1, 2, 3}" by auto
      then show ?thesis by (auto simp: word_unat_eq_iff)
    qed
    ultimately show ?thesis by auto
  qed
  ultimately have "drop_bit 4 ((b AND 0x3f) OR 0x80 :: byte) \<in> {8, 9, 10, 11}" by metis
  then show ?thesis unfolding unat_high_nibble by (auto simp: hex_digit_def char_of_eq_iff)
qed

lemma uuidv7_Inr:
  "fst (uuidv7 randomBytes t w) = Inr i \<Longrightarrow>
     0 \<le> t \<and> t < 2 ^ 48 \<and> i = uuid_text (uuidv7_bytes (randomBytes (pr_uuids w)) t)"
  by (auto simp: uuidv7_def MAX_TIMESTAMP_MS_def split: if_splits)

text \<open>
  Event identifiers are UUIDs of version 7 that sort by their time stamp. For a time in the
  48-bit range the result is a UUID with the version digit 7 and an RFC variant digit, and the
  identifier of an earlier millisecond is lexicographically smaller whatever the random bytes;
  outside the range the call throws.
\<close>

theorem event_ids_are_time_ordered:
  assumes "\<forall>n. length (randomBytes n) = 16"
  shows "fst (uuidv7 randomBytes t w) =
      (if 0 \<le> t \<and> t < 2 ^ 48
       then Inr (uuid_text (uuidv7_bytes (randomBytes (pr_uuids w)) t))
       else Inl (event_error UuidTimestampRange))
    \<and> (fst (uuidv7 randomBytes t w) = Inr i \<longrightarrow>
        UUID_PATTERN i \<and> i ! 14 = CHR ''7'' \<and> i ! 19 \<in> set ''89ab'')
    \<and> (fst (uuidv7 randomBytes t w) = Inr i \<longrightarrow> fst (uuidv7 randomBytes t' w') = Inr i' \<longrightarrow>
        t < t' \<longrightarrow> i < i')"
proof -
  have len: "length (uuidv7_bytes (randomBytes n) x) = 16" for n x
    using assms by (simp add: uuidv7_bytes_def)
  have shape: "UUID_PATTERN i \<and> i ! 14 = CHR ''7'' \<and> i ! 19 \<in> set ''89ab''"
    if "fst (uuidv7 randomBytes t w) = Inr i"
  proof -
    have l: "length (randomBytes (pr_uuids w)) = 16" using assms by simp
    obtain b0 b1 b2 b3 b4 b5 b6 b7 b8 b9 b10 b11 b12 b13 b14 b15
      where b: "randomBytes (pr_uuids w) = [b0, b1, b2, b3, b4, b5, b6, b7, b8, b9, b10, b11, b12, b13, b14, b15]"
      by (rule list16 [OF l])
    have i: "i = uuid_text (uuidv7_bytes (randomBytes (pr_uuids w)) t)" using uuidv7_Inr [OF that] by simp
    have "i ! 14 = hex_digit (unat ((b6 AND 0x0f) OR 0x70) div 16)"
      "i ! 19 = hex_digit (unat ((b8 AND 0x3f) OR 0x80) div 16)"
      unfolding i b uuidv7_bytes_eq uuid_text_digits by (rule refl)+
    moreover have "UUID_PATTERN i" unfolding i by (rule uuid_text_pattern [OF len])
    ultimately show ?thesis using version_digit [of b6] variant_digit [of b8] by simp
  qed
  have order: "i < i'"
    if r: "fst (uuidv7 randomBytes t w) = Inr i" "fst (uuidv7 randomBytes t' w') = Inr i'" and lt: "t < t'"
  proof -
    note r1 = uuidv7_Inr [OF r(1)] and r2 = uuidv7_Inr [OF r(2)]
    obtain x y where x: "i = map hex_digit (nibbles 8 (nat t div 16 ^ 4)) @ ''-'' @ map hex_digit (nibbles 4 (nat t)) @ x"
      and y: "i' = map hex_digit (nibbles 8 (nat t' div 16 ^ 4)) @ ''-'' @ map hex_digit (nibbles 4 (nat t')) @ y"
      using uuid_text_time [of t "randomBytes (pr_uuids w)"] uuid_text_time [of t' "randomBytes (pr_uuids w')"]
        r1 r2 assms by metis
    have small: "\<forall>d \<in> set (nibbles n v). d < 16" "length (nibbles n v) = n" for n v
      by (auto simp: nibbles_def)
    have top: "nat t' div 16 ^ 4 < 16 ^ 8" using r2 by (simp add: div_less_iff_less_mult nat_less_iff)
    show ?thesis
    proof (cases "nat t div 16 ^ 4 = nat t' div 16 ^ 4")
      case True
      have "nat t < nat t'" using lt r1 by simp
      then have "nat t mod 16 ^ 4 < nat t' mod 16 ^ 4" using True by (rule mod_less_if_div_eq)
      then have "nibbles 4 (nat t mod 16 ^ 4) < nibbles 4 (nat t' mod 16 ^ 4)" by (rule nibbles_less) simp
      then have "map hex_digit (nibbles 4 (nat t)) @ x < map hex_digit (nibbles 4 (nat t')) @ y"
        unfolding nibbles_mod by (intro map_hex_less) (simp_all add: small)
      then show ?thesis using True x y by (simp add: append_same_less)
    next
      case False
      have "nat t div 16 ^ 4 \<le> nat t' div 16 ^ 4" using lt by (simp add: div_le_mono)
      then have "nibbles 8 (nat t div 16 ^ 4) < nibbles 8 (nat t' div 16 ^ 4)"
        using False top by (intro nibbles_less) simp_all
      then show ?thesis unfolding x y by (intro map_hex_less) (simp_all add: small)
    qed
  qed
  have "fst (uuidv7 randomBytes t w) =
      (if 0 \<le> t \<and> t < 2 ^ 48
       then Inr (uuid_text (uuidv7_bytes (randomBytes (pr_uuids w)) t))
       else Inl (event_error UuidTimestampRange))"
    by (auto simp: uuidv7_def MAX_TIMESTAMP_MS_def)
  then show ?thesis using shape order by blast
qed

theorem event_ids_are_time_ordered_witness:
  "\<exists>i i'. fst (uuidv7 (\<lambda>n. replicate 16 255) 1000 \<lparr>pr_now = 0, pr_uuids = 0\<rparr>) = Inr i
     \<and> fst (uuidv7 (\<lambda>n. replicate 16 255) 1001 \<lparr>pr_now = 0, pr_uuids = 0\<rparr>) = Inr i'
     \<and> UUID_PATTERN i \<and> i < i'"
proof -
  let ?rb = "\<lambda>n :: nat. replicate 16 (255 :: byte)" and ?w = "\<lparr>pr_now = 0, pr_uuids = 0\<rparr> :: process"
  have len: "\<forall>n. length (?rb n) = 16" by simp
  obtain i i' where i: "fst (uuidv7 ?rb 1000 ?w) = Inr i" "fst (uuidv7 ?rb 1001 ?w) = Inr i'"
    by (simp add: uuidv7_def MAX_TIMESTAMP_MS_def)
  then show ?thesis using event_ids_are_time_ordered [OF len, of 1000 ?w i 1001 ?w i'] by auto
qed

end
