(* ===== verification/Outbox.thy ===== *)
theory Outbox
  imports Uuid7 Rate_Limit
begin

text \<open>
  The outbox: event definitions (\<open>runtime/events/define-event.ts\<close>), the emission buffer behind
  \<open>ctx.emit\<close> and its flush into \<open>domain_events\<close> and \<open>event_aggregate_sequences\<close>
  (\<open>runtime/events/emit.ts\<close>, the tables of \<open>db/src/schema/foundation.ts\<close>). \<open>zod schema value\<close> is
  the \<open>safeParse\<close> of the Zod package. A uuid column stores the lower-case spelling. Sequences
  are unbounded: the 64-bit range of the column is not modelled.
\<close>

section \<open>Definitions\<close>

datatype event_scope = EventTenant | EventGlobal

record event_definition =
  ed_name :: js_string
  ed_version :: js_number
  ed_scope :: event_scope
  ed_payload :: zod_schema

datatype event_problem = BadEventName js_string | BadEventVersion

text \<open>The scope and the payload schema are right by their types here.\<close>

definition defineEvent :: "event_definition \<Rightarrow> event_problem list + event_definition" where
  "defineEvent definition' =
     (let problems =
        push_if (\<not> EVENT_NAME_PATTERN (ed_name definition')) (BadEventName (ed_name definition'))
        @ push_if (\<not> positive_integer (ed_version definition')) BadEventVersion
      in if length problems > 0 then Inl problems else Inr definition')"

section \<open>Tables\<close>

definition pg_uuid :: "js_string \<Rightarrow> js_string" where
  "pg_uuid s = map to_lower s"

record outbox_row =
  oe_id :: js_string
  oe_name :: js_string
  oe_version :: int
  oe_occurredAt :: ms
  oe_companyId :: "js_string option"
  oe_aggregateType :: js_string
  oe_aggregateId :: js_string
  oe_aggregateSequence :: int
  oe_actorType :: js_string
  oe_actorId :: js_string
  oe_channel :: channel
  oe_requestId :: js_string
  oe_correlationId :: js_string
  oe_causationId :: js_string
  oe_payload :: json
  oe_claimedAt :: "ms option"
  oe_claimedBy :: "js_string option"
  oe_dispatchedAt :: "ms option"

type_synonym aggregate_key = "js_string \<times> js_string"

definition row_aggregate :: "outbox_row \<Rightarrow> aggregate_key" where
  "row_aggregate row = (oe_aggregateType row, oe_aggregateId row)"

record sequence_row =
  sq_companyId :: "js_string option"
  sq_lastSequence :: int

record outbox_world = rate_world +
  ow_events :: "outbox_row list"
  ow_sequences :: "aggregate_key \<Rightarrow> sequence_row option"

text \<open>
  The primary key, the unique index on aggregate and sequence, and the check on the actor type;
  a violated constraint is an error of the driver.
\<close>

definition sql_insert_events :: "outbox_row list \<Rightarrow> outbox_row list \<Rightarrow> outbox_row list option" where
  "sql_insert_events rows table =
     (if distinct (map oe_id (table @ rows))
         \<and> distinct (map (\<lambda>row. (row_aggregate row, oe_aggregateSequence row)) (table @ rows))
         \<and> list_all (\<lambda>row. oe_actorType row \<in> {''user'', ''system''}) rows
      then Some (table @ rows) else None)"

definition sql_advance_sequence ::
  "aggregate_key \<Rightarrow> js_string option \<Rightarrow> int \<Rightarrow> (aggregate_key \<Rightarrow> sequence_row option) \<Rightarrow>
     int \<times> (aggregate_key \<Rightarrow> sequence_row option)" where
  "sql_advance_sequence key companyId count sequences =
     (case sequences key of
        None \<Rightarrow> (count, sequences(key \<mapsto> \<lparr>sq_companyId = map_option pg_uuid companyId, sq_lastSequence = count\<rparr>))
      | Some row \<Rightarrow> (sq_lastSequence row + count,
          sequences(key \<mapsto> row\<lparr>sq_lastSequence := sq_lastSequence row + count\<rparr>)))"

section \<open>The emission buffer\<close>

record event_aggregate_ref =
  ea_type :: js_string
  ea_id :: js_string

record buffered_emission =
  be_definition :: event_definition
  be_aggregate :: event_aggregate_ref
  be_eventId :: js_string
  be_occurredAt :: ms
  be_payload :: json

record emit_buffer =
  eb_buffered :: "buffered_emission list"
  eb_sealed :: bool

definition createEmitBuffer :: emit_buffer where
  "createEmitBuffer = \<lparr>eb_buffered = [], eb_sealed = False\<rparr>"

definition emit ::
  "(zod_schema \<Rightarrow> json \<Rightarrow> zod_issue list + json) \<Rightarrow> (nat \<Rightarrow> byte list) \<Rightarrow> action_contract \<Rightarrow>
     event_definition \<Rightarrow> event_aggregate_ref \<Rightarrow> json \<Rightarrow> emit_buffer \<Rightarrow>
     ('a process_scheme, core_error, emit_buffer) eff" where
  "emit zod randomBytes contract definition' aggregate payload buffer w =
     (if eb_sealed buffer then (Inl (event_error EmitAfterFlush), w)
      else if ac_risk contract = RiskRead then (Inl (event_error EmitFromRead), w)
      else if ed_name definition' \<notin> set (ac_emits contract) then (Inl (event_error EmitUndeclared), w)
      else if js_trim (ea_type aggregate) = [] then (Inl (event_error EmitEmptyAggregateType), w)
      else if \<not> UUID_PATTERN (ea_id aggregate) then (Inl (event_error EmitMalformedAggregateId), w)
      else case zod (ed_payload definition') payload of
        Inl _ \<Rightarrow> (Inl (event_error EmitPayloadMismatch), w)
      | Inr parsed \<Rightarrow>
          (let nowMs = pr_now w in
           case uuidv7 randomBytes nowMs w of
             (Inl e, w1) \<Rightarrow> (Inl e, w1)
           | (Inr eventId, w1) \<Rightarrow>
               (Inr (buffer\<lparr>eb_buffered := eb_buffered buffer @ [\<lparr>be_definition = definition',
                  be_aggregate = aggregate, be_eventId = eventId, be_occurredAt = nowMs,
                  be_payload = parsed\<rparr>]\<rparr>), w1)))"

section \<open>The flush\<close>

definition resolveEventCompanyId :: "event_definition \<Rightarrow> action_ctx \<Rightarrow> core_error + js_string option" where
  "resolveEventCompanyId definition' ctx =
     (if ed_scope definition' = EventGlobal then Inr None
      else case effectiveCompanyId ctx of
        None \<Rightarrow> Inl (event_error TenantEventWithoutCompany)
      | Some companyId \<Rightarrow> Inr (Some companyId))"

record aggregate_group =
  ag_aggregate :: event_aggregate_ref
  ag_companyId :: "js_string option"
  ag_emissions :: "(buffered_emission \<times> js_string option) list"

definition group_key :: "event_aggregate_ref \<Rightarrow> js_string" where
  "group_key aggregate = ea_type aggregate @ [CHR 0x00] @ ea_id aggregate"

text \<open>The \<open>Map\<close> of the source keeps its keys in the order of their first insertion.\<close>

fun add_to_group ::
  "buffered_emission \<Rightarrow> js_string option \<Rightarrow> (js_string \<times> aggregate_group) list \<Rightarrow>
     (js_string \<times> aggregate_group) list" where
  "add_to_group emission companyId [] =
     [(group_key (be_aggregate emission), \<lparr>ag_aggregate = be_aggregate emission,
        ag_companyId = companyId, ag_emissions = [(emission, companyId)]\<rparr>)]"
| "add_to_group emission companyId ((key, grp) # groups) =
     (if key = group_key (be_aggregate emission)
      then (key, grp\<lparr>ag_emissions := ag_emissions grp @ [(emission, companyId)]\<rparr>) # groups
      else (key, grp) # add_to_group emission companyId groups)"

fun group_emissions ::
  "action_ctx \<Rightarrow> buffered_emission list \<Rightarrow> (js_string \<times> aggregate_group) list \<Rightarrow>
     core_error + (js_string \<times> aggregate_group) list" where
  "group_emissions ctx [] groups = Inr groups"
| "group_emissions ctx (emission # rest) groups =
     res_bind (resolveEventCompanyId (be_definition emission) ctx) (\<lambda>companyId.
       group_emissions ctx rest (add_to_group emission companyId groups))"

definition groupByAggregate :: "buffered_emission list \<Rightarrow> action_ctx \<Rightarrow> core_error + aggregate_group list" where
  "groupByAggregate buffered ctx =
     res_bind (group_emissions ctx buffered []) (\<lambda>groups. Inr (map snd groups))"

definition event_row ::
  "actor \<Rightarrow> action_ctx \<Rightarrow> js_string \<Rightarrow> int \<Rightarrow> buffered_emission \<times> js_string option \<Rightarrow> outbox_row" where
  "event_row actor' ctx causationId sequence ec =
     (let emission = fst ec in
      \<lparr>oe_id = be_eventId emission, oe_name = ed_name (be_definition emission),
       oe_version = js_int (ed_version (be_definition emission)),
       oe_occurredAt = be_occurredAt emission, oe_companyId = map_option pg_uuid (snd ec),
       oe_aggregateType = ea_type (be_aggregate emission),
       oe_aggregateId = pg_uuid (ea_id (be_aggregate emission)),
       oe_aggregateSequence = sequence, oe_actorType = actor_type actor',
       oe_actorId = actor_id actor', oe_channel = bc_channel (ctx_base ctx),
       oe_requestId = bc_requestId (ctx_base ctx),
       oe_correlationId = bc_correlationId (ctx_base ctx), oe_causationId = causationId,
       oe_payload = be_payload emission, oe_claimedAt = None, oe_claimedBy = None,
       oe_dispatchedAt = None\<rparr>)"

fun number_rows ::
  "actor \<Rightarrow> action_ctx \<Rightarrow> js_string \<Rightarrow> int \<Rightarrow> (buffered_emission \<times> js_string option) list \<Rightarrow>
     outbox_row list" where
  "number_rows actor' ctx causationId sequence [] = []"
| "number_rows actor' ctx causationId sequence (ec # rest) =
     event_row actor' ctx causationId (sequence + 1) ec
       # number_rows actor' ctx causationId (sequence + 1) rest"

definition advanceAggregateSequence ::
  "event_aggregate_ref \<Rightarrow> js_string option \<Rightarrow> int \<Rightarrow> (aggregate_key \<Rightarrow> sequence_row option) \<Rightarrow>
     int \<times> (aggregate_key \<Rightarrow> sequence_row option)" where
  "advanceAggregateSequence aggregate companyId count =
     sql_advance_sequence (ea_type aggregate, pg_uuid (ea_id aggregate)) companyId count"

fun flush_groups ::
  "actor \<Rightarrow> action_ctx \<Rightarrow> js_string \<Rightarrow> aggregate_group list \<Rightarrow>
     (aggregate_key \<Rightarrow> sequence_row option) \<Rightarrow>
     outbox_row list \<times> (aggregate_key \<Rightarrow> sequence_row option)" where
  "flush_groups actor' ctx causationId [] sequences = ([], sequences)"
| "flush_groups actor' ctx causationId (grp # groups) sequences =
     (let count = int (length (ag_emissions grp));
          (lastSequence, sequences1) =
            advanceAggregateSequence (ag_aggregate grp) (ag_companyId grp) count sequences;
          rows = number_rows actor' ctx causationId (lastSequence - count) (ag_emissions grp);
          (rest, sequences2) = flush_groups actor' ctx causationId groups sequences1
      in (rows @ rest, sequences2))"

definition event_actor :: "action_ctx \<Rightarrow> actor" where
  "event_actor ctx =
     (if ctx_principal ctx = Share then SHARE_DURABLE_ACTOR else bc_actor (ctx_base ctx))"

definition flush ::
  "action_ctx \<Rightarrow> js_string \<Rightarrow> emit_buffer \<Rightarrow> ('a outbox_world_scheme, thrown, emit_buffer) eff" where
  "flush ctx causationId buffer w =
     (let sealed = buffer\<lparr>eb_sealed := True\<rparr> in
      if eb_buffered buffer = [] then (Inr sealed, w)
      else if event_actor ctx = AnonymousActor
      then (Inl (Typed (event_error AnonymousEventActor)), w)
      else case groupByAggregate (eb_buffered buffer) ctx of
        Inl e \<Rightarrow> (Inl (Typed e), w)
      | Inr groups \<Rightarrow>
          (let (rows, sequences) =
             flush_groups (event_actor ctx) ctx causationId groups (ow_sequences w) in
           case sql_insert_events rows (ow_events w) of
             None \<Rightarrow> (Inl Foreign, w\<lparr>ow_sequences := sequences\<rparr>)
           | Some table \<Rightarrow> (Inr sealed, w\<lparr>ow_sequences := sequences, ow_events := table\<rparr>)))"

end
