(* ===== verification/Outbox_Proofs.thy ===== *)
theory Outbox_Proofs
  imports Outbox
begin

text \<open>
  What the flush guarantees: the sequences of every aggregate are \<open>1, 2, ..., last\<close> without a gap
  or a repetition, in the order of emission, and each row names an accountable actor and the
  verified company.
\<close>

section \<open>Aggregates\<close>

lemma length_split_on: "Suc (length s) = sum_list (map (\<lambda>p. Suc (length p)) (split_on c s))"
proof (induction s)
  case (Cons x s)
  then show ?case by (cases "split_on c s") auto
qed simp

lemma uuid_length: "UUID_PATTERN s \<Longrightarrow> length s = 36"
proof -
  assume "UUID_PATTERN s"
  then have "map length (split_on CHR ''-'' s) = [8, 4, 4, 4, 12]" by (simp add: UUID_PATTERN_def)
  then have "sum_list (map Suc (map length (split_on CHR ''-'' s))) = 37" by simp
  then show ?thesis using length_split_on [of s "CHR ''-''"] by (simp add: o_def)
qed

lemma group_key_inj:
  assumes "group_key a = group_key b" "UUID_PATTERN (ea_id a)" "UUID_PATTERN (ea_id b)"
  shows "a = (b :: event_aggregate_ref)"
proof -
  have "length (ea_id a) = length (ea_id b)" using assms(2,3) uuid_length by simp
  then have "ea_type a @ [CHR 0x00] = ea_type b @ [CHR 0x00] \<and> ea_id a = ea_id b"
    using assms(1) unfolding group_key_def append.assoc [symmetric] by (simp add: append_eq_append_conv)
  then show ?thesis by simp
qed

definition buffer_ok :: "action_contract \<Rightarrow> emit_buffer \<Rightarrow> bool" where
  "buffer_ok contract buffer \<longleftrightarrow> (\<forall>e \<in> set (eb_buffered buffer).
     UUID_PATTERN (ea_id (be_aggregate e)) \<and> ed_name (be_definition e) \<in> set (ac_emits contract))
     \<and> (eb_buffered buffer \<noteq> [] \<longrightarrow> ac_risk contract \<noteq> RiskRead)"

lemma createEmitBuffer_ok [simp]: "buffer_ok contract createEmitBuffer"
  by (simp add: buffer_ok_def createEmitBuffer_def)

lemma emit_Inr:
  assumes "emit zod randomBytes contract d a payload buffer w = (Inr buffer', w')"
  shows "\<exists>i parsed. \<not> eb_sealed buffer \<and> ac_risk contract \<noteq> RiskRead \<and> ed_name d \<in> set (ac_emits contract)
    \<and> UUID_PATTERN (ea_id a) \<and> zod (ed_payload d) payload = Inr parsed
    \<and> uuidv7 randomBytes (pr_now w) w = (Inr i, w')
    \<and> buffer' = buffer\<lparr>eb_buffered := eb_buffered buffer @ [\<lparr>be_definition = d, be_aggregate = a,
        be_eventId = i, be_occurredAt = pr_now w, be_payload = parsed\<rparr>]\<rparr>"
  using assms by (auto simp: emit_def Let_def split: if_splits sum.splits prod.splits)

lemma emit_ok:
  assumes "emit zod randomBytes contract d a payload buffer w = (Inr buffer', w')" "buffer_ok contract buffer"
  shows "buffer_ok contract buffer'"
  using emit_Inr [OF assms(1)] assms(2) by (auto simp: buffer_ok_def)

section \<open>Groups\<close>

definition group_ok :: "js_string \<times> aggregate_group \<Rightarrow> bool" where
  "group_ok kg \<longleftrightarrow> fst kg = group_key (ag_aggregate (snd kg)) \<and> UUID_PATTERN (ea_id (ag_aggregate (snd kg)))
     \<and> (\<forall>ec \<in> set (ag_emissions (snd kg)). be_aggregate (fst ec) = ag_aggregate (snd kg))"

lemma add_to_group_ok:
  "list_all group_ok groups \<Longrightarrow> UUID_PATTERN (ea_id (be_aggregate e)) \<Longrightarrow>
     list_all group_ok (add_to_group e companyId groups)"
  by (induction e companyId groups rule: add_to_group.induct)
    (auto simp: group_ok_def dest: group_key_inj)

lemma group_emissions_ok:
  "group_emissions ctx es groups = Inr groups' \<Longrightarrow> list_all group_ok groups \<Longrightarrow>
     \<forall>e \<in> set es. UUID_PATTERN (ea_id (be_aggregate e)) \<Longrightarrow> list_all group_ok groups'"
  by (induction ctx es groups rule: group_emissions.induct)
    (auto simp: res_bind_def add_to_group_ok split: sum.splits)

text \<open>All emissions of the groups, in the order of the groups.\<close>

definition grouped :: "(js_string \<times> aggregate_group) list \<Rightarrow> (buffered_emission \<times> js_string option) list" where
  "grouped groups = concat (map (\<lambda>kg. ag_emissions (snd kg)) groups)"

definition of_aggregate :: "event_aggregate_ref \<Rightarrow> (buffered_emission \<times> js_string option) \<Rightarrow> bool" where
  "of_aggregate a ec \<longleftrightarrow> be_aggregate (fst ec) = a"

lemma of_aggregate_pair [simp]: "of_aggregate a (e, c) \<longleftrightarrow> be_aggregate e = a"
  by (simp add: of_aggregate_def)

definition groups_ok :: "(js_string \<times> aggregate_group) list \<Rightarrow> bool" where
  "groups_ok groups \<longleftrightarrow> list_all group_ok groups \<and> distinct (map fst groups)"

lemma add_to_group_keys:
  "set (map fst (add_to_group e c groups)) = insert (group_key (be_aggregate e)) (set (map fst groups))"
  by (induction e c groups rule: add_to_group.induct) auto

lemma add_to_groups_ok:
  "groups_ok groups \<Longrightarrow> UUID_PATTERN (ea_id (be_aggregate e)) \<Longrightarrow> groups_ok (add_to_group e c groups)"
proof (induction e c groups rule: add_to_group.induct)
  case (2 e c key grp groups)
  have keys: "fst ` set (add_to_group e c groups) = insert (group_key (be_aggregate e)) (fst ` set groups)"
    using add_to_group_keys [of e c groups] by simp
  have ok: "list_all group_ok (add_to_group e c ((key, grp) # groups))"
    using add_to_group_ok [of "(key, grp) # groups" e c] 2(2,3) by (simp add: groups_ok_def)
  show ?case
  proof (cases "key = group_key (be_aggregate e)")
    case True
    then show ?thesis using ok 2(2) by (simp add: groups_ok_def)
  next
    case False
    then have "groups_ok (add_to_group e c groups)" using 2 by (simp add: groups_ok_def)
    then show ?thesis using ok False keys 2(2) by (simp add: groups_ok_def)
  qed
qed (simp add: groups_ok_def group_ok_def)

lemma no_emission_elsewhere:
  assumes "list_all group_ok groups" "group_key a \<notin> fst ` set groups"
  shows "filter (of_aggregate a) (grouped groups) = []"
  using assms
  by (induction groups) (auto simp: grouped_def group_ok_def of_aggregate_def filter_empty_conv)

lemma filter_add_to_group:
  assumes "groups_ok groups" "UUID_PATTERN (ea_id (be_aggregate e))"
  shows "filter (of_aggregate a) (grouped (add_to_group e c groups))
    = filter (of_aggregate a) (grouped groups) @ (if be_aggregate e = a then [(e, c)] else [])"
  using assms
proof (induction e c groups rule: add_to_group.induct)
  case (2 e c key grp groups)
  have ok: "group_ok (key, grp)" "list_all group_ok groups" "key \<notin> fst ` set groups" "groups_ok groups"
    using 2(2) by (auto simp: groups_ok_def)
  show ?case
  proof (cases "key = group_key (be_aggregate e)")
    case True
    then have "be_aggregate e = ag_aggregate grp"
      using ok(1) 2(3) group_key_inj by (auto simp: group_ok_def)
    moreover have "filter (of_aggregate (be_aggregate e)) (grouped groups) = []"
      using no_emission_elsewhere [OF ok(2), of "be_aggregate e"] ok(3) True by simp
    ultimately show ?thesis using True by (auto simp: grouped_def)
  next
    case False
    then show ?thesis using 2(1) ok(4) 2(3) by (simp add: grouped_def)
  qed
qed (simp add: grouped_def of_aggregate_def)

lemma group_emissions_spec:
  assumes "group_emissions ctx es groups = Inr groups'" "groups_ok groups"
    "\<forall>e \<in> set es. UUID_PATTERN (ea_id (be_aggregate e))"
  shows "groups_ok groups'
    \<and> (\<exists>cs. map Inr cs = map (\<lambda>e. resolveEventCompanyId (be_definition e) ctx) es
         \<and> (\<forall>a. filter (of_aggregate a) (grouped groups')
              = filter (of_aggregate a) (grouped groups) @ filter (of_aggregate a) (zip es cs)))"
  using assms
proof (induction ctx es groups rule: group_emissions.induct)
  case (2 ctx e es groups)
  obtain c where c: "resolveEventCompanyId (be_definition e) ctx = Inr c"
    "group_emissions ctx es (add_to_group e c groups) = Inr groups'"
    using 2(2) by (auto simp: res_bind_def split: sum.splits)
  have ok: "groups_ok (add_to_group e c groups)" using add_to_groups_ok 2(3,4) by simp
  from 2(1) [of c, OF c(2) ok] 2(4) obtain cs where cs: "groups_ok groups'"
    "map Inr cs = map (\<lambda>e. resolveEventCompanyId (be_definition e) ctx) es"
    "\<forall>a. filter (of_aggregate a) (grouped groups')
       = filter (of_aggregate a) (grouped (add_to_group e c groups)) @ filter (of_aggregate a) (zip es cs)"
    by auto
  then show ?case
    using c(1) filter_add_to_group [OF 2(3), of e _ c] 2(4)
    by (intro conjI exI [of _ "c # cs"]) auto
qed simp

section \<open>Rows\<close>

lemma number_rows_length [simp]: "length (number_rows a ctx k s ecs) = length ecs"
  by (induction ecs arbitrary: s) simp_all

lemma number_rows_sequence:
  "map oe_aggregateSequence (number_rows a ctx k s ecs) = [s + 1..s + int (length ecs)]"
proof (induction ecs arbitrary: s)
  case (Cons ec ecs)
  have "[s + 1..s + int (length (ec # ecs))] = (s + 1) # [s + 1 + 1..s + 1 + int (length ecs)]"
    by (subst upto_rec1) (simp_all add: algebra_simps)
  then show ?case using Cons.IH [of "s + 1"] by (simp add: event_row_def Let_def)
qed simp

lemma number_rows_rows:
  "list_all2 (\<lambda>row ec. \<exists>s. row = event_row a ctx k s ec) (number_rows a ctx k s ecs) ecs"
  by (induction ecs arbitrary: s) auto

lemma flush_groups_rows:
  "list_all2 (\<lambda>row ec. \<exists>s. row = event_row a ctx k s ec) (fst (flush_groups a ctx k groups sequences))
     (concat (map ag_emissions groups))"
proof (induction groups arbitrary: sequences)
  case (Cons g groups)
  then show ?case
    by (auto simp: Let_def split_def intro!: list_all2_appendI number_rows_rows)
qed simp

definition last_sequence :: "(aggregate_key \<Rightarrow> sequence_row option) \<Rightarrow> aggregate_key \<Rightarrow> int" where
  "last_sequence sequences key = (case sequences key of None \<Rightarrow> 0 | Some row \<Rightarrow> sq_lastSequence row)"

definition of_key :: "aggregate_key \<Rightarrow> outbox_row \<Rightarrow> bool" where
  "of_key key row \<longleftrightarrow> row_aggregate row = key"

text \<open>The events of an aggregate are numbered \<open>1, 2, ..., last\<close> in the order of insertion.\<close>

definition dense :: "outbox_row list \<Rightarrow> (aggregate_key \<Rightarrow> sequence_row option) \<Rightarrow> bool" where
  "dense table sequences \<longleftrightarrow> (\<forall>key. 0 \<le> last_sequence sequences key
     \<and> map oe_aggregateSequence (filter (of_key key) table) = [1..last_sequence sequences key])"

lemma denseD:
  assumes "dense table sequences"
  shows "0 \<le> last_sequence sequences key"
    "map oe_aggregateSequence (filter (of_key key) table) = [1..last_sequence sequences key]"
  using assms unfolding dense_def by blast+

definition aggregate_key_of :: "event_aggregate_ref \<Rightarrow> aggregate_key" where
  "aggregate_key_of a = (ea_type a, pg_uuid (ea_id a))"

lemma event_row_aggregate [simp]: "row_aggregate (event_row a ctx k s ec) = aggregate_key_of (be_aggregate (fst ec))"
  by (simp add: row_aggregate_def event_row_def Let_def aggregate_key_of_def)

lemma advance_last:
  "advanceAggregateSequence a companyId n sequences = (l, sequences') \<Longrightarrow>
     l = last_sequence sequences (aggregate_key_of a) + n \<and>
     last_sequence sequences' key = (if key = aggregate_key_of a then l else last_sequence sequences key)"
  by (auto simp: advanceAggregateSequence_def sql_advance_sequence_def last_sequence_def
      aggregate_key_of_def split: option.splits)

lemma number_rows_of_key:
  assumes "\<forall>ec \<in> set ecs. be_aggregate (fst ec) = a"
  shows "filter (of_key key) (number_rows actor' ctx k s ecs)
    = (if key = aggregate_key_of a then number_rows actor' ctx k s ecs else [])"
  using assms by (induction ecs arbitrary: s) (auto simp: of_key_def)

lemma dense_append:
  assumes "dense table sequences" "\<forall>ec \<in> set ecs. be_aggregate (fst ec) = a"
    "advanceAggregateSequence a companyId (int (length ecs)) sequences = (l, sequences')"
  shows "dense (table @ number_rows actor' ctx k (l - int (length ecs)) ecs) sequences'"
proof -
  let ?n = "int (length ecs)" and ?old = "last_sequence sequences (aggregate_key_of a)"
  have l: "l = ?old + ?n" using advance_last [OF assms(3)] by simp
  have "0 \<le> ?old" using assms(1) by (rule denseD)
  then have "[1..?old] @ [?old + 1..?old + ?n] = [1..?old + ?n]"
    using upto_split1 [of 1 "?old + 1" "?old + ?n"] by (cases ecs) auto
  then show ?thesis
    using denseD [OF assms(1)] advance_last [OF assms(3)] l unfolding dense_def
    by (simp add: number_rows_of_key [OF assms(2)] number_rows_sequence del: split_paired_All)
qed

lemma flush_groups_dense:
  assumes "dense table sequences" "\<forall>g \<in> set groups. \<forall>ec \<in> set (ag_emissions g). be_aggregate (fst ec) = ag_aggregate g"
    "flush_groups actor' ctx k groups sequences = (rows, sequences')"
  shows "dense (table @ rows) sequences'"
  using assms
proof (induction groups arbitrary: table sequences rows)
  case (Cons g groups)
  let ?n = "int (length (ag_emissions g))"
  obtain l sequences1 where adv: "advanceAggregateSequence (ag_aggregate g) (ag_companyId g) ?n sequences = (l, sequences1)"
    by fastforce
  obtain rest where rest: "flush_groups actor' ctx k groups sequences1 = (rest, sequences')"
    "rows = number_rows actor' ctx k (l - ?n) (ag_emissions g) @ rest"
    using Cons.prems(3) adv by (auto simp: Let_def split: prod.splits)
  have "dense (table @ number_rows actor' ctx k (l - ?n) (ag_emissions g)) sequences1"
    using dense_append [OF Cons.prems(1) _ adv] Cons.prems(2) by simp
  from Cons.IH [OF this _ rest(1)] Cons.prems(2) show ?case by (simp add: rest(2))
qed simp

lemma distinct_by_key:
  "(\<And>k. distinct (map f (filter (\<lambda>x. g x = k) xs))) \<Longrightarrow> distinct (map (\<lambda>x. (g x, f x)) xs)"
proof (induction xs)
  case (Cons x xs)
  have "distinct (map f (filter (\<lambda>y. g y = k) xs))" for k
    using Cons.prems [of k] by (auto split: if_splits)
  moreover have "(g x, f x) \<notin> set (map (\<lambda>y. (g y, f y)) xs)"
    using Cons.prems [of "g x"] by auto
  ultimately show ?case using Cons.IH by simp
qed simp

lemma dense_distinct:
  assumes "dense table sequences"
  shows "distinct (map (\<lambda>row. (row_aggregate row, oe_aggregateSequence row)) table)"
proof (rule distinct_by_key)
  fix k
  have "(\<lambda>row. row_aggregate row = k) = of_key k" by (auto simp: of_key_def)
  then show "distinct (map oe_aggregateSequence (filter (\<lambda>row. row_aggregate row = k) table))"
    using denseD(2) [OF assms, of k] by simp
qed

text \<open>What a flush appends.\<close>

lemma flush_Inr:
  assumes "flush ctx k buffer w = (Inr buffer', w')" and "buffer_ok contract buffer"
    and "dense (ow_events w) (ow_sequences w)" and "eb_buffered buffer \<noteq> []"
  shows "\<exists>groups cs rows. groupByAggregate (eb_buffered buffer) ctx = Inr (map snd groups) \<and> groups_ok groups
    \<and> map Inr cs = map (\<lambda>e. resolveEventCompanyId (be_definition e) ctx) (eb_buffered buffer)
    \<and> (\<forall>a. filter (of_aggregate a) (grouped groups) = filter (of_aggregate a) (zip (eb_buffered buffer) cs))
    \<and> list_all2 (\<lambda>row ec. \<exists>s. row = event_row (event_actor ctx) ctx k s ec) rows (grouped groups)
    \<and> sql_insert_events rows (ow_events w) = Some (ow_events w @ rows)
    \<and> ow_events w' = ow_events w @ rows \<and> dense (ow_events w') (ow_sequences w')
    \<and> event_actor ctx \<noteq> AnonymousActor \<and> buffer' = buffer\<lparr>eb_sealed := True\<rparr>"
proof -
  let ?es = "eb_buffered buffer"
  obtain gs where gs: "groupByAggregate ?es ctx = Inr gs" and actor: "event_actor ctx \<noteq> AnonymousActor"
    using assms(1,4) by (auto simp: flush_def Let_def split: if_splits sum.splits)
  then obtain groups where groups: "group_emissions ctx ?es [] = Inr groups" "gs = map snd groups"
    by (auto simp: groupByAggregate_def res_bind_def split: sum.splits)
  have uuid: "\<forall>e \<in> set ?es. UUID_PATTERN (ea_id (be_aggregate e))" using assms(2) by (simp add: buffer_ok_def)
  obtain cs where cs: "groups_ok groups" "map Inr cs = map (\<lambda>e. resolveEventCompanyId (be_definition e) ctx) ?es"
    "\<forall>a. filter (of_aggregate a) (grouped groups) = filter (of_aggregate a) (zip ?es cs)"
    using group_emissions_spec [OF groups(1) _ uuid] by (auto simp: groups_ok_def grouped_def)
  obtain rows sequences where rows: "flush_groups (event_actor ctx) ctx k gs (ow_sequences w) = (rows, sequences)"
    by fastforce
  have homog: "\<forall>g \<in> set gs. \<forall>ec \<in> set (ag_emissions g). be_aggregate (fst ec) = ag_aggregate g"
    using cs(1) by (auto simp: groups(2) groups_ok_def group_ok_def list_all_iff)
  have dense: "dense (ow_events w @ rows) sequences"
    by (rule flush_groups_dense [OF assms(3) homog rows])
  have shape: "list_all2 (\<lambda>row ec. \<exists>s. row = event_row (event_actor ctx) ctx k s ec) rows (grouped groups)"
    using flush_groups_rows [of "event_actor ctx" ctx k gs "ow_sequences w"] rows
    by (simp add: groups(2) grouped_def o_def)
  have ins: "sql_insert_events rows (ow_events w) = Some (ow_events w @ rows)"
    and w': "w' = w\<lparr>ow_sequences := sequences, ow_events := ow_events w @ rows\<rparr>"
    and sealed: "buffer' = buffer\<lparr>eb_sealed := True\<rparr>"
    using assms(1,4) gs actor rows
    by (auto simp: flush_def Let_def sql_insert_events_def split: option.splits if_splits)
  have "ow_events w' = ow_events w @ rows" "dense (ow_events w') (ow_sequences w')"
    using w' dense by simp_all
  then show ?thesis using gs groups(2) cs shape ins actor sealed by blast
qed

section \<open>What the flush guarantees\<close>

lemma list_all2_filter_map:
  assumes "list_all2 R rows ecs" "\<And>row ec. R row ec \<Longrightarrow> P row = Q ec" "\<And>row ec. R row ec \<Longrightarrow> f row = g ec"
  shows "map f (filter P rows) = map g (filter Q ecs)"
  using assms(1) by (induction rule: list_all2_induct) (auto simp: assms(2,3))

lemma list_all2_mem: "list_all2 R xs ys \<Longrightarrow> x \<in> set xs \<Longrightarrow> \<exists>y \<in> set ys. R x y"
  by (induction rule: list_all2_induct) auto

lemma map_filter_zip:
  "length es = length cs \<Longrightarrow> map (g \<circ> fst) (filter (of_aggregate a) (zip es cs))
     = map g (filter (\<lambda>e. be_aggregate e = a) es)"
  by (induction es cs rule: list_induct2) auto


lemma group_emissions_total:
  "\<forall>e \<in> set es. \<exists>c. resolveEventCompanyId (be_definition e) ctx = Inr c \<Longrightarrow>
     \<exists>groups'. group_emissions ctx es groups = Inr groups'"
proof (induction es arbitrary: groups)
  case (Cons e es)
  then obtain c where "resolveEventCompanyId (be_definition e) ctx = Inr c" by auto
  then show ?case using Cons by simp
qed simp

lemma distinct_drop_key:
  assumes "distinct (map (\<lambda>x. (g x, f x)) xs)"
    and "\<forall>x \<in> set xs. \<forall>y \<in> set xs. f x = f y \<longrightarrow> g x = g y"
  shows "distinct (map f xs)"
proof -
  have "distinct xs" "inj_on (\<lambda>x. (g x, f x)) (set xs)" using assms(1) by (simp_all add: distinct_map)
  then have "inj_on f (set xs)" using assms(2) unfolding inj_on_def by blast
  then show ?thesis using \<open>distinct xs\<close> by (simp add: distinct_map)
qed

lemma grouped_ids_distinct:
  assumes "distinct (map be_eventId es)" "length es = length cs"
    and "\<forall>a. filter (of_aggregate a) gs = filter (of_aggregate a) (zip es cs)"
  shows "distinct (map (be_eventId \<circ> fst) gs) \<and> fst ` set gs \<subseteq> set es"
proof -
  have mem: "ec \<in> set (zip es cs)" if "ec \<in> set gs" for ec
  proof -
    have "ec \<in> set (filter (of_aggregate (be_aggregate (fst ec))) gs)"
      using that by (simp add: of_aggregate_def)
    then show ?thesis using assms(3) by auto
  qed
  then have sub: "fst ` set gs \<subseteq> set es" using set_zip_leftD by fastforce
  have "distinct (map (be_eventId \<circ> fst) (filter (\<lambda>ec. be_aggregate (fst ec) = a) gs))" for a
  proof -
    have "(\<lambda>ec. be_aggregate (fst ec) = a) = of_aggregate a" by (auto simp: of_aggregate_def)
    then have "map (be_eventId \<circ> fst) (filter (\<lambda>ec. be_aggregate (fst ec) = a) gs)
        = map be_eventId (filter (\<lambda>e. be_aggregate e = a) es)"
      using assms(3) map_filter_zip [OF assms(2), of be_eventId a] by simp
    then show ?thesis using assms(1) distinct_map_filter by metis
  qed
  then have pairs: "distinct (map (\<lambda>ec. (be_aggregate (fst ec), (be_eventId \<circ> fst) ec)) gs)"
    by (rule distinct_by_key)
  have inj: "inj_on be_eventId (set es)" using assms(1) by (simp add: distinct_map)
  have "\<forall>x \<in> set gs. \<forall>y \<in> set gs. (be_eventId \<circ> fst) x = (be_eventId \<circ> fst) y \<longrightarrow>
      be_aggregate (fst x) = be_aggregate (fst y)"
  proof (intro ballI impI)
    fix x y assume xy: "x \<in> set gs" "y \<in> set gs" "(be_eventId \<circ> fst) x = (be_eventId \<circ> fst) y"
    have "fst x \<in> set es" "fst y \<in> set es" using xy(1,2) sub by auto
    then have "fst x = fst y" using inj_onD [OF inj, of "fst x" "fst y"] xy(3) by simp
    then show "be_aggregate (fst x) = be_aggregate (fst y)" by simp
  qed
  from distinct_drop_key [OF pairs this] sub show ?thesis by blast
qed

text \<open>
  An emission that was accepted also commits. With fresh event identifiers, an accountable
  actor and a company for every tenant event, no constraint of the outbox can fail the flush.
\<close>

theorem accepted_emissions_commit:
  assumes "buffer_ok contract buffer" and "dense (ow_events w) (ow_sequences w)"
    and "distinct (map oe_id (ow_events w) @ map be_eventId (eb_buffered buffer))"
    and "event_actor ctx \<noteq> AnonymousActor"
    and "\<forall>e \<in> set (eb_buffered buffer). ed_scope (be_definition e) = EventGlobal \<or> effectiveCompanyId ctx \<noteq> None"
  shows "\<exists>w'. flush ctx k buffer w = (Inr (buffer\<lparr>eb_sealed := True\<rparr>), w')"
proof (cases "eb_buffered buffer = []")
  case False
  let ?es = "eb_buffered buffer"
  have "\<forall>e \<in> set ?es. \<exists>c. resolveEventCompanyId (be_definition e) ctx = Inr c"
    using assms(5) by (auto simp: resolveEventCompanyId_def)
  then obtain groups where groups: "group_emissions ctx ?es [] = Inr groups"
    using group_emissions_total [of ?es ctx] by fastforce
  have uuid: "\<forall>e \<in> set ?es. UUID_PATTERN (ea_id (be_aggregate e))" using assms(1) by (simp add: buffer_ok_def)
  obtain cs where cs: "groups_ok groups" "map Inr cs = map (\<lambda>e. resolveEventCompanyId (be_definition e) ctx) ?es"
    "\<forall>a. filter (of_aggregate a) (grouped groups) = filter (of_aggregate a) (zip ?es cs)"
    using group_emissions_spec [OF groups _ uuid] by (auto simp: groups_ok_def grouped_def)
  have len: "length ?es = length cs" using cs(2) map_eq_imp_length_eq by metis
  obtain rows sequences where rows: "flush_groups (event_actor ctx) ctx k (map snd groups) (ow_sequences w) = (rows, sequences)"
    by fastforce
  have homog: "\<forall>g \<in> set (map snd groups). \<forall>ec \<in> set (ag_emissions g). be_aggregate (fst ec) = ag_aggregate g"
    using cs(1) by (auto simp: groups_ok_def group_ok_def list_all_iff)
  have shape: "list_all2 (\<lambda>row ec. \<exists>s. row = event_row (event_actor ctx) ctx k s ec) rows (grouped groups)"
    using flush_groups_rows [of "event_actor ctx" ctx k "map snd groups" "ow_sequences w"] rows
    by (simp add: grouped_def o_def)
  have "map oe_id (filter (\<lambda>_. True) rows) = map (be_eventId \<circ> fst) (filter (\<lambda>_. True) (grouped groups))"
    by (rule list_all2_filter_map [OF shape]) (auto simp: event_row_def Let_def)
  then have ids: "map oe_id rows = map (be_eventId \<circ> fst) (grouped groups)" by simp
  have "distinct (map (be_eventId \<circ> fst) (grouped groups)) \<and> fst ` set (grouped groups) \<subseteq> set ?es"
    using grouped_ids_distinct [OF _ len cs(3)] assms(3) by simp
  then have "distinct (map oe_id (ow_events w @ rows))" using assms(3) ids by auto
  moreover have "distinct (map (\<lambda>row. (row_aggregate row, oe_aggregateSequence row)) (ow_events w @ rows))"
    by (rule dense_distinct [OF flush_groups_dense [OF assms(2) homog rows]])
  moreover have "list_all (\<lambda>row. oe_actorType row \<in> {''user'', ''system''}) rows"
  proof -
    have "actor_type (event_actor ctx) \<in> {''user'', ''system''}"
      using assms(4) by (cases "event_actor ctx") simp_all
    then show ?thesis using list_all2_mem [OF shape] by (fastforce simp: list_all_iff event_row_def Let_def)
  qed
  ultimately have "sql_insert_events rows (ow_events w) = Some (ow_events w @ rows)"
    by (simp add: sql_insert_events_def)
  then show ?thesis
    using False assms(4) groups rows
    by (simp add: flush_def groupByAggregate_def)
qed (simp add: flush_def Let_def)

section \<open>Witnesses\<close>

definition sample_event :: event_definition where
  "sample_event = \<lparr>ed_name = ''orders.confirmed'', ed_version = JsInt 1, ed_scope = EventTenant,
     ed_payload = \<lparr>zs_key = ''p'', zs_type = ZObject [(''orderId'', ZString)]\<rparr>\<rparr>"

definition sample_emission :: "js_string \<Rightarrow> buffered_emission" where
  "sample_emission i = \<lparr>be_definition = sample_event,
     be_aggregate = \<lparr>ea_type = ''order'', ea_id = sample_company\<rparr>, be_eventId = i,
     be_occurredAt = 1000, be_payload = JNull\<rparr>"

definition sample_buffer :: emit_buffer where
  "sample_buffer = \<lparr>eb_buffered = [sample_emission ''e1'', sample_emission ''e2''], eb_sealed = False\<rparr>"

definition sample_system_ctx :: action_ctx where
  "sample_system_ctx = SystemTenantCtx
     (buildBase sample_request sample_runtime WritableTx (SystemActor ''s'') (Some sample_company))
     ''s'' sample_company"

definition outbox_start :: outbox_world where
  "outbox_start = \<lparr>pr_now = 1000, pr_uuids = 1, iw_rows = Map.empty, cw_entries = Map.empty,
     rw_buckets = Map.empty, ow_events = [], ow_sequences = Map.empty\<rparr>"

lemma sample_buffer_ok: "buffer_ok sample_contract sample_buffer"
  by (simp add: buffer_ok_def sample_buffer_def sample_emission_def sample_event_def
      sample_contract_def sample_company_def UUID_PATTERN_def is_hex_digit_def is_digit_def char_code_def)

lemma outbox_start_dense: "dense (ow_events outbox_start) (ow_sequences outbox_start)"
  by (simp add: dense_def last_sequence_def outbox_start_def)

lemma sample_event_actor:
  "event_actor sample_system_ctx = SystemActor ''s''" "effectiveCompanyId sample_system_ctx = Some sample_company"
  by (simp_all add: event_actor_def sample_system_ctx_def)

theorem accepted_emissions_commit_witness:
  "\<exists>w'. flush sample_system_ctx ''r'' sample_buffer outbox_start = (Inr (sample_buffer\<lparr>eb_sealed := True\<rparr>), w')"
  by (rule accepted_emissions_commit [OF sample_buffer_ok outbox_start_dense])
    (simp_all add: sample_event_actor outbox_start_def sample_buffer_def sample_emission_def)


end
