(* ===== verification/Delivery.thy ===== *)
theory Delivery
  imports Outbox
begin

text \<open>
  Event delivery (\<open>runtime/events/delivery-*.ts\<close>, \<open>define-event-handler.ts\<close>,
  \<open>replay-dead-deliveries.ts\<close>): the dispatcher that fans outbox rows out into
  \<open>event_deliveries\<close>, the claim, execution, retry and dead-lettering of a delivery, and the
  replay of dead ones. Every database transaction that locks the delivery row is one atomic
  step: the row lock of \<open>lockDeliveryRow\<close> and the advisory lock are held to its end. Other
  processes act between the transactions, as an \<open>interference\<close>. The bound action runs inside the
  second transaction as the parameter \<open>invoke\<close>; the log line of a dead letter is left out.
\<close>

section \<open>Subscriptions\<close>

text \<open>\<open>[a-z][a-zA-Z0-9]*\.[a-z][a-z0-9]*(?:-[a-z0-9]+)*\<close>\<close>

definition is_lower_alnum :: "char \<Rightarrow> bool" where
  "is_lower_alnum c = (is_lower c \<or> is_digit c)"

definition CONSUMER_NAME_PATTERN :: "js_string \<Rightarrow> bool" where
  "CONSUMER_NAME_PATTERN s =
     (case split_on CHR ''.'' s of
        [m, k] \<Rightarrow> camel_segment m
          \<and> (case split_on CHR ''-'' k of
               [] \<Rightarrow> False
             | p # ps \<Rightarrow> p \<noteq> [] \<and> is_lower (hd p)
                 \<and> list_all (\<lambda>q. q \<noteq> [] \<and> list_all is_lower_alnum q) (p # ps))
      | _ \<Rightarrow> False)"

record event_subscription =
  es_event :: event_definition
  es_consumer :: js_string
  es_contract :: action_contract

datatype handler_problem = BadConsumerName | NotSystemPrincipal | NotInternalTransport
  | NotInternalToAi | NotWriteRisk | NotIdempotentHandler | ScopeMismatch

definition event_system_scope :: "event_scope \<Rightarrow> system_scope" where
  "event_system_scope scope = (case scope of EventTenant \<Rightarrow> Tenant | EventGlobal \<Rightarrow> GlobalScope)"

definition defineEventHandler ::
  "event_definition \<Rightarrow> js_string \<Rightarrow> action_contract \<Rightarrow> handler_problem list + event_subscription" where
  "defineEventHandler event consumer contract =
     (let problems =
        push_if (\<not> CONSUMER_NAME_PATTERN consumer) BadConsumerName
        @ push_if (ac_principal contract \<noteq> System) NotSystemPrincipal
        @ push_if (ac_transport contract \<noteq> Internal) NotInternalTransport
        @ push_if (ac_aiExposure contract \<noteq> NotExposed) NotInternalToAi
        @ push_if (ac_risk contract \<noteq> RiskWrite) NotWriteRisk
        @ push_if (\<not> ac_idempotent contract) NotIdempotentHandler
        @ push_if (ac_principal contract = System
             \<and> ac_systemScope contract \<noteq> Some (event_system_scope (ed_scope event))) ScopeMismatch
      in if length problems > 0 then Inl problems
         else Inr \<lparr>es_event = event, es_consumer = consumer, es_contract = contract\<rparr>)"

definition eventSubscriptionRefs :: "event_subscription list \<Rightarrow> (js_string \<times> js_string \<times> js_string) list" where
  "eventSubscriptionRefs subscriptions =
     map (\<lambda>s. (ed_name (es_event s), es_consumer s, ac_name (es_contract s))) subscriptions"

section \<open>The deliveries table\<close>

datatype delivery_status = Pending | Processing | Processed | Dead

record delivery_row =
  dl_status :: delivery_status
  dl_attempts :: nat
  dl_nextAttemptAt :: "ms option"
  dl_claimedAt :: "ms option"
  dl_claimedBy :: "js_string option"
  dl_lastError :: "js_string option"
  dl_processedAt :: "ms option"

type_synonym delivery_key = "js_string \<times> js_string"
type_synonym delivery_table = "delivery_key \<Rightarrow> delivery_row option"

record delivery_world = outbox_world +
  dw_deliveries :: delivery_table

definition fresh_delivery :: "ms \<Rightarrow> delivery_row" where
  "fresh_delivery dueAt = \<lparr>dl_status = Pending, dl_attempts = 0, dl_nextAttemptAt = Some dueAt,
     dl_claimedAt = None, dl_claimedBy = None, dl_lastError = None, dl_processedAt = None\<rparr>"

definition find_event :: "outbox_row list \<Rightarrow> js_string \<Rightarrow> outbox_row option" where
  "find_event events eventId = find (\<lambda>e. oe_id e = eventId) events"

section \<open>Dispatch\<close>

definition DEFAULT_DISPATCH_BATCH_SIZE :: nat where
  "DEFAULT_DISPATCH_BATCH_SIZE = 100"

definition consumers_of :: "event_subscription list \<Rightarrow> js_string \<Rightarrow> js_string list" where
  "consumers_of subscriptions name =
     remdups_first (map es_consumer (filter (\<lambda>s. ed_name (es_event s) = name) subscriptions))"

text \<open>
  The claim query: the undispatched rows that no other dispatcher has locked (\<open>locked\<close>), by id,
  at most \<open>batchSize\<close> of them.
\<close>

definition claim_outbox :: "(js_string \<Rightarrow> bool) \<Rightarrow> nat \<Rightarrow> outbox_row list \<Rightarrow> outbox_row list" where
  "claim_outbox locked batchSize events =
     take batchSize (sort_key oe_id
       (filter (\<lambda>e. oe_dispatchedAt e = None \<and> \<not> locked (oe_id e)) events))"

fun insert_deliveries :: "ms \<Rightarrow> delivery_key list \<Rightarrow> delivery_table \<Rightarrow> nat \<times> delivery_table" where
  "insert_deliveries dueAt [] table = (0, table)"
| "insert_deliveries dueAt (key # keys) table =
     (case table key of
        Some _ \<Rightarrow> insert_deliveries dueAt keys table
      | None \<Rightarrow> (let (n, table') = insert_deliveries dueAt keys (table(key \<mapsto> fresh_delivery dueAt))
                 in (Suc n, table')))"

definition mark_dispatched :: "ms \<Rightarrow> js_string \<Rightarrow> js_string set \<Rightarrow> outbox_row \<Rightarrow> outbox_row" where
  "mark_dispatched dispatchedAt claimedBy ids e =
     (if oe_id e \<in> ids
      then e\<lparr>oe_claimedAt := Some dispatchedAt, oe_claimedBy := Some claimedBy,
          oe_dispatchedAt := Some dispatchedAt\<rparr>
      else e)"

definition dispatchOutboxBatch ::
  "event_subscription list \<Rightarrow> js_string \<Rightarrow> nat \<Rightarrow> (js_string \<Rightarrow> bool) \<Rightarrow>
     'a delivery_world_scheme \<Rightarrow> (nat \<times> nat) \<times> 'a delivery_world_scheme" where
  "dispatchOutboxBatch subscriptions claimedBy batchSize locked w =
     (let claimed = claim_outbox locked batchSize (ow_events w) in
      if claimed = [] then ((0, 0), w)
      else let dispatchedAt = pr_now w;
        keys = concat (map (\<lambda>e. map (\<lambda>consumer. (consumer, oe_id e))
                 (consumers_of subscriptions (oe_name e))) claimed);
        (created, table) = insert_deliveries dispatchedAt keys (dw_deliveries w)
      in ((length claimed, created), w\<lparr>dw_deliveries := table,
           ow_events := map (mark_dispatched dispatchedAt claimedBy (set (map oe_id claimed))) (ow_events w)\<rparr>))"

section \<open>Shared decisions\<close>

text \<open>The earliest-first probe over the stored events and deliveries of one consumer.\<close>

definition hasEarlierUnprocessedDelivery ::
  "outbox_row list \<Rightarrow> delivery_table \<Rightarrow> js_string \<Rightarrow> outbox_row \<Rightarrow> bool" where
  "hasEarlierUnprocessedDelivery events table consumer event =
     list_ex (\<lambda>e. oe_aggregateType e = oe_aggregateType event \<and> oe_aggregateId e = oe_aggregateId event
        \<and> oe_aggregateSequence e < oe_aggregateSequence event
        \<and> (case table (consumer, oe_id e) of None \<Rightarrow> False | Some row \<Rightarrow> dl_status row \<noteq> Processed)) events"

definition lockDeliveryRow ::
  "js_string \<Rightarrow> js_string \<Rightarrow> 'a delivery_world_scheme \<Rightarrow> core_error + delivery_row \<times> outbox_row" where
  "lockDeliveryRow consumer eventId w =
     (case (dw_deliveries w (consumer, eventId), find_event (ow_events w) eventId) of
        (Some row, Some event) \<Rightarrow> Inr (row, event)
      | _ \<Rightarrow> Inl (event_error MissingDelivery))"

definition assertDeliveryRouting :: "outbox_row \<Rightarrow> event_subscription \<Rightarrow> core_error + unit" where
  "assertDeliveryRouting event subscription =
     (if oe_name event \<noteq> ed_name (es_event subscription) then Inl (event_error DeliveryMisrouted)
      else Inr ())"

definition ownedProcessingDelivery :: "js_string \<Rightarrow> delivery_row \<Rightarrow> bool" where
  "ownedProcessingDelivery claimedBy row =
     (dl_status row = Processing \<and> dl_claimedBy row = Some claimedBy)"

section \<open>Discovery\<close>

definition DELIVERY_DISCOVERY_BATCH_SIZE :: nat where
  "DELIVERY_DISCOVERY_BATCH_SIZE = 100"

definition DELIVERY_MAX_ATTEMPTS :: nat where
  "DELIVERY_MAX_ATTEMPTS = 5"

definition DELIVERY_RETRY_BASE_MS :: ms where
  "DELIVERY_RETRY_BASE_MS = 1000"

definition DELIVERY_CLAIM_MARGIN_MS :: ms where
  "DELIVERY_CLAIM_MARGIN_MS = 30000"

definition contract_timeout :: "event_subscription \<Rightarrow> ms" where
  "contract_timeout subscription = js_int (ac_timeout (es_contract subscription))"

text \<open>The rows that may be attempted, one condition per subscription.\<close>

definition claimable_row :: "ms \<Rightarrow> event_subscription \<Rightarrow> outbox_row \<Rightarrow> delivery_row \<Rightarrow> bool" where
  "claimable_row nowMs subscription event row =
     (oe_name event = ed_name (es_event subscription)
      \<and> (dl_status row = Pending
           \<and> (case dl_nextAttemptAt row of None \<Rightarrow> True | Some t \<Rightarrow> t \<le> nowMs)
         \<or> dl_status row = Processing
           \<and> (case dl_claimedAt row of None \<Rightarrow> True
              | Some t \<Rightarrow> t \<le> nowMs - contract_timeout subscription - DELIVERY_CLAIM_MARGIN_MS)))"

definition claimable ::
  "event_subscription list \<Rightarrow> ms \<Rightarrow> 'a delivery_world_scheme \<Rightarrow> js_string \<Rightarrow> outbox_row \<Rightarrow> bool" where
  "claimable subscriptions nowMs w consumer event =
     (case dw_deliveries w (consumer, oe_id event) of
        None \<Rightarrow> False
      | Some row \<Rightarrow>
          list_ex (\<lambda>s. es_consumer s = consumer \<and> claimable_row nowMs s event row) subscriptions
          \<and> \<not> hasEarlierUnprocessedDelivery (ow_events w) (dw_deliveries w) consumer event)"

text \<open>\<open>NULL\<close> sorts last in an ascending order.\<close>

definition due_key :: "'a delivery_world_scheme \<Rightarrow> js_string \<times> outbox_row \<Rightarrow> bool \<times> ms \<times> js_string" where
  "due_key w ce =
     (case dw_deliveries w (fst ce, oe_id (snd ce)) of
        None \<Rightarrow> (True, 0, oe_id (snd ce))
      | Some row \<Rightarrow>
          (case dl_nextAttemptAt row of
             None \<Rightarrow> (True, 0, oe_id (snd ce))
           | Some t \<Rightarrow> (False, t, oe_id (snd ce))))"

definition due_before :: "bool \<times> ms \<times> js_string \<Rightarrow> bool \<times> ms \<times> js_string \<Rightarrow> bool" where
  "due_before a b =
     (case (a, b) of
        ((n1, t1, i1), (n2, t2, i2)) \<Rightarrow>
          (\<not> n1 \<and> n2) \<or> (n1 = n2 \<and> (t1 < t2 \<or> (t1 = t2 \<and> i1 \<le> i2))))"

fun insert_by :: "('b \<Rightarrow> 'b \<Rightarrow> bool) \<Rightarrow> 'b \<Rightarrow> 'b list \<Rightarrow> 'b list" where
  "insert_by le x [] = [x]"
| "insert_by le x (y # ys) = (if le x y then x # y # ys else y # insert_by le x ys)"

definition findClaimableDeliveries ::
  "event_subscription list \<Rightarrow> nat \<Rightarrow> 'a delivery_world_scheme \<Rightarrow> (js_string \<times> js_string \<times> js_string) list" where
  "findClaimableDeliveries subscriptions batchSize w =
     (if length subscriptions = 0 then []
      else let candidates = concat (map (\<lambda>event. map (\<lambda>consumer. (consumer, event))
                 (filter (\<lambda>consumer. claimable subscriptions (pr_now w) w consumer event)
                    (remdups_first (map es_consumer subscriptions)))) (ow_events w));
        ordered = foldr (insert_by (\<lambda>x y. due_before (due_key w x) (due_key w y))) candidates []
      in map (\<lambda>(consumer, event). (consumer, oe_id event, oe_name event)) (take batchSize ordered))"

end
