(* ===== verification/Delivery_Execute.thy ===== *)
theory Delivery_Execute
  imports Delivery Authorization
begin

text \<open>
  The claim, the execution and the failure bookkeeping of one delivery
  (\<open>runtime/events/delivery-execute.ts\<close>, \<open>delivery-reservation-hook.ts\<close>), the envelope it hands to
  the bound action (\<open>envelope.ts\<close>) and the replay of dead deliveries
  (\<open>replay-dead-deliveries.ts\<close>). \<open>invoke\<close> is the \<open>invoke\<close> closure of the subscription: the pipeline
  run of the bound action, given the \<open>finalize\<close> of the reservation hook. The fields below
  \<open>delivery_world\<close> stand for the tables of the modules.
\<close>

section \<open>Instants as text\<close>

definition pad :: "nat \<Rightarrow> nat \<Rightarrow> js_string" where
  "pad width n = replicate (width - length (show_nat n)) (CHR ''0'') @ show_nat n"

text \<open>The proleptic Gregorian date of a day number counted from 1970-01-01.\<close>

definition civil_from_days :: "int \<Rightarrow> int \<times> int \<times> int" where
  "civil_from_days days =
     (let z = days + 719468;
          era = z div 146097;
          doe = z mod 146097;
          yoe = (doe - doe div 1460 + doe div 36524 - doe div 146096) div 365;
          doy = doe - (365 * yoe + yoe div 4 - yoe div 100);
          mp = (5 * doy + 2) div 153;
          day = doy - (153 * mp + 2) div 5 + 1;
          month = (if mp < 10 then mp + 3 else mp - 9)
      in (yoe + era * 400 + (if month \<le> 2 then 1 else 0), month, day))"

definition iso_year :: "int \<Rightarrow> js_string" where
  "iso_year y =
     (if 0 \<le> y \<and> y \<le> 9999 then pad 4 (nat y)
      else (if y < 0 then CHR ''-'' else CHR ''+'') # pad 6 (nat \<bar>y\<bar>))"

definition toISOString :: "ms \<Rightarrow> js_string" where
  "toISOString t =
     (let (y, m, d) = civil_from_days (t div 86400000);
          rest = t mod 86400000
      in iso_year y @ ''-'' @ pad 2 (nat m) @ ''-'' @ pad 2 (nat d) @ ''T''
         @ pad 2 (nat (rest div 3600000)) @ '':'' @ pad 2 (nat (rest div 60000 mod 60)) @ '':''
         @ pad 2 (nat (rest div 1000 mod 60)) @ ''.'' @ pad 3 (nat (rest mod 1000)) @ ''Z'')"

section \<open>The envelope\<close>

record event_envelope =
  en_eventId :: js_string
  en_name :: js_string
  en_version :: int
  en_occurredAt :: js_string
  en_companyId :: "js_string option"
  en_aggregateType :: js_string
  en_aggregateId :: js_string
  en_sequence :: js_string
  en_actorType :: js_string
  en_actorId :: js_string
  en_channel :: channel
  en_requestId :: js_string
  en_correlationId :: js_string
  en_causationId :: js_string
  en_payload :: json

definition narrowStored :: "js_string \<Rightarrow> js_string list \<Rightarrow> core_error + js_string" where
  "narrowStored stored candidates =
     (if stored \<in> set candidates then Inr stored else Inl (event_error StoredValueRange))"

text \<open>The channel column is of the channel type here, so its narrowing cannot fail.\<close>

definition buildEnvelope :: "outbox_row \<Rightarrow> core_error + event_envelope" where
  "buildEnvelope event =
     res_bind (narrowStored (oe_actorType event) [''user'', ''system'']) (\<lambda>actorType.
       Inr \<lparr>en_eventId = oe_id event, en_name = oe_name event, en_version = oe_version event,
            en_occurredAt = toISOString (oe_occurredAt event), en_companyId = oe_companyId event,
            en_aggregateType = oe_aggregateType event, en_aggregateId = oe_aggregateId event,
            en_sequence = show_int (oe_aggregateSequence event), en_actorType = actorType,
            en_actorId = oe_actorId event, en_channel = oe_channel event,
            en_requestId = oe_requestId event, en_correlationId = oe_correlationId event,
            en_causationId = oe_causationId event, en_payload = oe_payload event\<rparr>)"

section \<open>The claim\<close>

definition set_delivery ::
  "delivery_key \<Rightarrow> delivery_row \<Rightarrow> 'a delivery_world_scheme \<Rightarrow> 'a delivery_world_scheme" where
  "set_delivery key row w = w\<lparr>dw_deliveries := (dw_deliveries w)(key \<mapsto> row)\<rparr>"

datatype claim_result = Claimed | ClaimAlreadyProcessed | ClaimDeferred

definition claimed_row :: "ms \<Rightarrow> js_string \<Rightarrow> delivery_row \<Rightarrow> delivery_row" where
  "claimed_row nowMs claimedBy row = row\<lparr>dl_status := Processing, dl_attempts := dl_attempts row + 1,
     dl_nextAttemptAt := None, dl_claimedAt := Some nowMs, dl_claimedBy := Some claimedBy\<rparr>"

text \<open>What the status of the locked row says before the ordering is looked at.\<close>

definition claim_status :: "event_subscription \<Rightarrow> ms \<Rightarrow> delivery_row \<Rightarrow> core_error + claim_result" where
  "claim_status subscription nowMs row =
     (if dl_status row = Processed then Inr ClaimAlreadyProcessed
      else if dl_status row = Dead then Inr ClaimDeferred
      else if dl_status row = Pending
        \<and> (case dl_nextAttemptAt row of None \<Rightarrow> False | Some t \<Rightarrow> t > nowMs) then Inr ClaimDeferred
      else if dl_status row = Processing then
        (case (dl_claimedAt row, dl_claimedBy row) of
           (Some claimedAt, Some _) \<Rightarrow>
             if claimedAt + contract_timeout subscription + DELIVERY_CLAIM_MARGIN_MS > nowMs
             then Inr ClaimDeferred else Inr Claimed
         | _ \<Rightarrow> Inl (event_error IncompleteClaim))
      else Inr Claimed)"

definition claimDelivery ::
  "event_subscription \<Rightarrow> js_string \<Rightarrow> js_string \<Rightarrow>
     ('a delivery_world_scheme, core_error, claim_result) eff" where
  "claimDelivery subscription eventId claimedBy w =
     (case lockDeliveryRow (es_consumer subscription) eventId w of
        Inl e \<Rightarrow> (Inl e, w)
      | Inr (row, event) \<Rightarrow>
     (case assertDeliveryRouting event subscription of
        Inl e \<Rightarrow> (Inl e, w)
      | Inr _ \<Rightarrow>
     (case claim_status subscription (pr_now w) row of
        Inl e \<Rightarrow> (Inl e, w)
      | Inr ClaimAlreadyProcessed \<Rightarrow> (Inr ClaimAlreadyProcessed, w)
      | Inr ClaimDeferred \<Rightarrow> (Inr ClaimDeferred, w)
      | Inr Claimed \<Rightarrow>
          if hasEarlierUnprocessedDelivery (ow_events w) (dw_deliveries w)
               (es_consumer subscription) event
          then (Inr ClaimDeferred, w)
          else (Inr Claimed, set_delivery (es_consumer subscription, eventId)
                  (claimed_row (pr_now w) claimedBy row) w))))"

section \<open>The reservation hook\<close>

text \<open>
  \<open>createDeliveryReservationHook\<close>: the probe is fresh, \<open>reserve\<close> always executes, \<open>markFailed\<close>
  does nothing; what acts is \<open>finalize\<close>.
\<close>

definition finalized_row :: "ms \<Rightarrow> delivery_row \<Rightarrow> delivery_row" where
  "finalized_row nowMs row = row\<lparr>dl_status := Processed, dl_nextAttemptAt := None,
     dl_claimedAt := None, dl_claimedBy := None, dl_lastError := None, dl_processedAt := Some nowMs\<rparr>"

definition delivery_finalize ::
  "js_string \<Rightarrow> js_string \<Rightarrow> js_string \<Rightarrow> ('a delivery_world_scheme, core_error, unit) eff" where
  "delivery_finalize consumer eventId claimedBy w =
     (case dw_deliveries w (consumer, eventId) of
        None \<Rightarrow> (Inl (event_error LostClaim), w)
      | Some row \<Rightarrow>
          if ownedProcessingDelivery claimedBy row
          then (Inr (), set_delivery (consumer, eventId) (finalized_row (pr_now w) row) w)
          else (Inl (event_error LostClaim), w))"

section \<open>The execution transaction\<close>

record delivery_invocation =
  di_input :: event_envelope
  di_request :: hook_request_meta
  di_principal :: principal_invocation

datatype delivery_outcome =
    OutProcessed
  | OutAlreadyProcessed
  | OutDeferred
  | OutFailed core_error "ms option"

type_synonym 'w delivery_invoke =
  "('w, core_error, unit) eff \<Rightarrow> delivery_invocation \<Rightarrow> ('w, thrown, unit) eff"

definition released_row :: "ms \<Rightarrow> delivery_row \<Rightarrow> delivery_row" where
  "released_row nowMs row = row\<lparr>dl_status := Pending, dl_attempts := dl_attempts row - 1,
     dl_nextAttemptAt := Some nowMs, dl_claimedAt := None, dl_claimedBy := None\<rparr>"

definition delivery_request ::
  "event_subscription \<Rightarrow> outbox_row \<Rightarrow> js_string \<Rightarrow> hook_request_meta" where
  "delivery_request subscription event requestId =
     \<lparr>rq_action = ac_name (es_contract subscription), rq_requestId = requestId,
      rq_correlationId = oe_correlationId event, rq_channel = SystemChannel, rq_clientIp = None,
      rq_aiTraceId = None, rq_toolCallId = None, rq_causationId = Some (oe_id event),
      rq_idempotencyKey = Some (oe_id event), rq_confirmationChallengeId = None,
      rq_requireConfirmation = False, rq_confirmationOnly = False\<rparr>"

definition delivery_principal :: "event_subscription \<Rightarrow> outbox_row \<Rightarrow> principal_invocation" where
  "delivery_principal subscription event =
     InvokeSystem (es_consumer subscription)
       (case oe_companyId event of
          Some companyId \<Rightarrow> TenantScope companyId
        | None \<Rightarrow> GlobalScopeInput) False"

definition delivery_body ::
  "(nat \<Rightarrow> js_string) \<Rightarrow> 'a delivery_world_scheme delivery_invoke \<Rightarrow> event_subscription \<Rightarrow>
     js_string \<Rightarrow> js_string \<Rightarrow> ('a delivery_world_scheme, thrown, delivery_outcome) eff" where
  "delivery_body rnd invoke subscription eventId claimedBy w =
     (let consumer = es_consumer subscription in
      case lockDeliveryRow consumer eventId w of
        Inl e \<Rightarrow> (Inl (Typed e), w)
      | Inr (row, event) \<Rightarrow>
     (case assertDeliveryRouting event subscription of
        Inl e \<Rightarrow> (Inl (Typed e), w)
      | Inr _ \<Rightarrow>
          if \<not> ownedProcessingDelivery claimedBy row then (Inr OutDeferred, w)
          else if hasEarlierUnprocessedDelivery (ow_events w) (dw_deliveries w) consumer event
          then (Inr OutDeferred, set_delivery (consumer, eventId) (released_row (pr_now w) row) w)
          else
     (case buildEnvelope event of
        Inl e \<Rightarrow> (Inl (Typed e), w)
      | Inr envelope \<Rightarrow>
          (let (requestId, w1) = randomUUID rnd w in
           case invoke (delivery_finalize consumer eventId claimedBy)
                  \<lparr>di_input = envelope, di_request = delivery_request subscription event requestId,
                   di_principal = delivery_principal subscription event\<rparr> w1 of
             (Inl thrown, w2) \<Rightarrow> (Inl thrown, w2)
           | (Inr _, w2) \<Rightarrow> (Inr OutProcessed, w2)))))"

text \<open>
  A transaction that throws restores every table; the clock, the identifiers drawn and the
  stores outside the database (challenges, buckets) go on.
\<close>

definition rollback_to :: "'a delivery_world_scheme \<Rightarrow> 'a delivery_world_scheme \<Rightarrow> 'a delivery_world_scheme" where
  "rollback_to w w' =
     delivery_world.more_update (\<lambda>_. delivery_world.more w)
       (w'\<lparr>iw_rows := iw_rows w, ow_events := ow_events w, ow_sequences := ow_sequences w,
           dw_deliveries := dw_deliveries w\<rparr>)"

definition in_transaction ::
  "('a delivery_world_scheme, 'e, 'b) eff \<Rightarrow> ('a delivery_world_scheme, 'e, 'b) eff" where
  "in_transaction body w =
     (case body w of
        (Inl e, w') \<Rightarrow> (Inl e, rollback_to w w')
      | (Inr x, w') \<Rightarrow> (Inr x, w'))"

section \<open>Failure bookkeeping\<close>

definition deliveryRetryDelayMs :: "int \<Rightarrow> core_error + ms" where
  "deliveryRetryDelayMs attempt =
     (if attempt < 1 then Inl (event_error RetryAttemptRange)
      else Inr (DELIVERY_RETRY_BASE_MS * 2 ^ nat (attempt - 1)))"

datatype failure_record = NotRecorded | Recorded "ms option"

definition failed_row :: "bool \<Rightarrow> ms option \<Rightarrow> core_error \<Rightarrow> delivery_row \<Rightarrow> delivery_row" where
  "failed_row dead retryAt err row = row\<lparr>dl_status := (if dead then Dead else Pending),
     dl_nextAttemptAt := retryAt, dl_claimedAt := None, dl_claimedBy := None,
     dl_lastError := Some (wire_code (error_code err) @ '': '' @ client_message err)\<rparr>"

definition recordDeliveryFailure ::
  "js_string \<Rightarrow> js_string \<Rightarrow> js_string \<Rightarrow> core_error \<Rightarrow>
     ('a delivery_world_scheme, core_error, failure_record) eff" where
  "recordDeliveryFailure consumer eventId claimedBy err w =
     (case dw_deliveries w (consumer, eventId) of
        None \<Rightarrow> (Inr NotRecorded, w)
      | Some row \<Rightarrow>
          if \<not> ownedProcessingDelivery claimedBy row then (Inr NotRecorded, w)
          else if dl_attempts row \<ge> DELIVERY_MAX_ATTEMPTS
          then (Inr (Recorded None), set_delivery (consumer, eventId) (failed_row True None err row) w)
          else
     (case deliveryRetryDelayMs (int (dl_attempts row)) of
        Inl e \<Rightarrow> (Inl e, w)
      | Inr delay \<Rightarrow>
          (let retryAt = pr_now w + delay in
           (Inr (Recorded (Some retryAt)),
            set_delivery (consumer, eventId) (failed_row False (Some retryAt) err row) w))))"

fun delivery_core_error :: "thrown \<Rightarrow> core_error" where
  "delivery_core_error (Typed e) = e"
| "delivery_core_error Foreign = event_error ForeignDeliveryThrow"

text \<open>
  \<open>executeDelivery\<close>: three transactions, before each of which the other processes act. It throws
  only what the failure bookkeeping throws.
\<close>

definition executeDelivery ::
  "(nat \<Rightarrow> js_string) \<Rightarrow> 'a delivery_world_scheme delivery_invoke \<Rightarrow>
     'a delivery_world_scheme interference \<Rightarrow> event_subscription \<Rightarrow> js_string \<Rightarrow> js_string \<Rightarrow>
     ('a delivery_world_scheme, core_error, delivery_outcome) eff" where
  "executeDelivery rnd invoke between subscription eventId claimedBy w =
     (case claimDelivery subscription eventId claimedBy (between 0 w) of
        (Inl e, w1) \<Rightarrow> (Inr (OutFailed e None), w1)
      | (Inr ClaimAlreadyProcessed, w1) \<Rightarrow> (Inr OutAlreadyProcessed, w1)
      | (Inr ClaimDeferred, w1) \<Rightarrow> (Inr OutDeferred, w1)
      | (Inr Claimed, w1) \<Rightarrow>
     (case in_transaction (delivery_body rnd invoke subscription eventId claimedBy) (between 1 w1) of
        (Inr outcome, w2) \<Rightarrow> (Inr outcome, w2)
      | (Inl thrown, w2) \<Rightarrow>
     (case recordDeliveryFailure (es_consumer subscription) eventId claimedBy
             (delivery_core_error thrown) (between 2 w2) of
        (Inl e, w3) \<Rightarrow> (Inl e, w3)
      | (Inr NotRecorded, w3) \<Rightarrow> (Inr OutDeferred, w3)
      | (Inr (Recorded retryAt), w3) \<Rightarrow>
          (Inr (OutFailed (delivery_core_error thrown) retryAt), w3))))"

section \<open>Replay\<close>

definition replayed_row :: "ms \<Rightarrow> delivery_row" where
  "replayed_row nowMs = \<lparr>dl_status = Pending, dl_attempts = 0, dl_nextAttemptAt = Some nowMs,
     dl_claimedAt = None, dl_claimedBy = None, dl_lastError = None, dl_processedAt = None\<rparr>"

definition replay_matches :: "js_string \<Rightarrow> js_string option \<Rightarrow> delivery_key \<Rightarrow> delivery_row \<Rightarrow> bool" where
  "replay_matches consumer eventId key row =
     (fst key = consumer \<and> dl_status row = Dead
      \<and> (case eventId of None \<Rightarrow> True | Some i \<Rightarrow> snd key = i))"

text \<open>
  The update runs over the stored rows of the consumer; every row has an event, so its count is
  the number of events with a matching row.
\<close>

definition replayDeadDeliveries ::
  "js_string \<Rightarrow> js_string option \<Rightarrow> 'a delivery_world_scheme \<Rightarrow> nat \<times> 'a delivery_world_scheme" where
  "replayDeadDeliveries consumer eventId w =
     (let matching = (\<lambda>key. case dw_deliveries w key of
            None \<Rightarrow> False | Some row \<Rightarrow> replay_matches consumer eventId key row)
      in (length (filter (\<lambda>event. matching (consumer, oe_id event)) (ow_events w)),
          w\<lparr>dw_deliveries := (\<lambda>key. if matching key then Some (replayed_row (pr_now w))
                                     else dw_deliveries w key)\<rparr>))"

end
