(* ===== verification/Delivery_Proofs.thy ===== *)
theory Delivery_Proofs
  imports Delivery_Execute Outbox_Proofs
begin

text \<open>
  What the delivery protocol promises. A history records when a delivery row was materialised and
  when its handler committed; any number of dispatchers, workers, emitters and operators
  take part, in any order. Over every history a delivery is handled at most once, and never while
  an earlier delivery of its aggregate waits.
\<close>

section \<open>Rows and events\<close>

definition processed_in :: "delivery_table \<Rightarrow> delivery_key \<Rightarrow> bool" where
  "processed_in table key =
     (case table key of None \<Rightarrow> False | Some row \<Rightarrow> dl_status row = Processed)"

text \<open>Nothing is created, nothing becomes processed and nothing ceases to be.\<close>

definition quiet :: "delivery_table \<Rightarrow> delivery_table \<Rightarrow> bool" where
  "quiet table table' = (dom table' = dom table \<and> processed_in table' = processed_in table)"

definition same_place :: "outbox_row list \<Rightarrow> outbox_row list \<Rightarrow> js_string \<Rightarrow> bool" where
  "same_place events events' i =
     (map_option (\<lambda>e. (row_aggregate e, oe_aggregateSequence e)) (find_event events' i)
      = map_option (\<lambda>e. (row_aggregate e, oe_aggregateSequence e)) (find_event events i))"

definition precedes :: "outbox_row list \<Rightarrow> js_string \<Rightarrow> js_string \<Rightarrow> bool" where
  "precedes events i j =
     (case (find_event events i, find_event events j) of
        (Some e, Some f) \<Rightarrow> row_aggregate e = row_aggregate f
          \<and> oe_aggregateSequence e < oe_aggregateSequence f
      | _ \<Rightarrow> False)"

lemma quiet_refl [simp]: "quiet t t"
  by (simp add: quiet_def)

lemma quiet_update:
  assumes "t k = Some row" and "dl_status row \<noteq> Processed" and "dl_status row' \<noteq> Processed"
  shows "quiet t (t(k \<mapsto> row'))"
  using assms by (auto simp: quiet_def processed_in_def fun_eq_iff)

lemma find_event_append:
  "find_event (xs @ ys) i = (case find_event xs i of None \<Rightarrow> find_event ys i | Some e \<Rightarrow> Some e)"
  by (induction xs) (simp_all add: find_event_def)

lemma find_event_None: "find_event xs i = None \<longleftrightarrow> i \<notin> oe_id ` set xs"
  by (auto simp: find_event_def find_None_iff)

lemma find_event_id: "find_event xs i = Some e \<Longrightarrow> oe_id e = i \<and> e \<in> set xs"
  by (auto simp: find_event_def find_Some_iff)

lemma find_event_mem:
  "distinct (map oe_id xs) \<Longrightarrow> e \<in> set xs \<Longrightarrow> find_event xs (oe_id e) = Some e"
  by (induction xs) (auto simp: find_event_def)

lemma mark_dispatched_keeps [simp]:
  "oe_id (mark_dispatched t by is e) = oe_id e"
  "row_aggregate (mark_dispatched t by is e) = row_aggregate e"
  "oe_aggregateSequence (mark_dispatched t by is e) = oe_aggregateSequence e"
  "oe_name (mark_dispatched t by is e) = oe_name e"
  by (simp_all add: mark_dispatched_def row_aggregate_def)

lemma find_event_marked:
  "find_event (map (mark_dispatched t by is) xs) i = map_option (mark_dispatched t by is) (find_event xs i)"
  by (induction xs) (simp_all add: find_event_def)

lemma same_place_refl [simp]: "same_place events events i"
  by (simp add: same_place_def)

lemma same_place_append: "i \<in> oe_id ` set xs \<Longrightarrow> same_place xs (xs @ ys) i"
  by (cases "find_event xs i") (auto simp: same_place_def find_event_append find_event_None)

lemma same_place_marked: "same_place xs (map (mark_dispatched t by is) xs) i"
  by (simp add: same_place_def find_event_marked option.map_comp o_def)

lemma precedes_cong:
  assumes "same_place xs ys i" and "same_place xs ys j"
  shows "precedes ys i j = precedes xs i j"
  using assms by (auto simp: same_place_def precedes_def split: option.splits)

lemma sql_insert_events_append:
  "sql_insert_events new xs = Some ys \<Longrightarrow> ys = xs @ new \<and> distinct (map oe_id ys)"
  by (auto simp: sql_insert_events_def split: if_splits)

text \<open>What the ordering probe means for events with distinct identifiers.\<close>

lemma hasEarlier_iff:
  assumes "distinct (map oe_id events)" and "find_event events j = Some event"
  shows "hasEarlierUnprocessedDelivery events table consumer event
     \<longleftrightarrow> (\<exists>i. precedes events i j \<and> (consumer, i) \<in> dom table \<and> \<not> processed_in table (consumer, i))"
    (is "?probe = ?earlier")
proof
  assume ?probe
  then obtain e where e: "e \<in> set events" "row_aggregate e = row_aggregate event"
    "oe_aggregateSequence e < oe_aggregateSequence event"
    "case table (consumer, oe_id e) of None \<Rightarrow> False | Some row \<Rightarrow> dl_status row \<noteq> Processed"
    by (auto simp: hasEarlierUnprocessedDelivery_def list_ex_iff row_aggregate_def)
  have "precedes events (oe_id e) j"
    using find_event_mem [OF assms(1) e(1)] assms(2) e(2,3) by (simp add: precedes_def)
  then show ?earlier using e(4)
    by (intro exI [of _ "oe_id e"]) (auto simp: processed_in_def split: option.splits)
next
  assume ?earlier
  then obtain i where i: "precedes events i j" "(consumer, i) \<in> dom table" "\<not> processed_in table (consumer, i)"
    by blast
  then obtain e where e: "find_event events i = Some e" "row_aggregate e = row_aggregate event"
    "oe_aggregateSequence e < oe_aggregateSequence event"
    using assms(2) by (auto simp: precedes_def split: option.splits)
  then show ?probe using i(2,3) find_event_id [OF e(1)]
    by (auto simp: hasEarlierUnprocessedDelivery_def list_ex_iff row_aggregate_def processed_in_def
        intro!: bexI [of _ e])
qed

section \<open>What each transaction does to the rows\<close>

lemma lockDeliveryRow_Inr:
  "lockDeliveryRow c i w = Inr (row, event) \<longleftrightarrow>
     dw_deliveries w (c, i) = Some row \<and> find_event (ow_events w) i = Some event"
  by (auto simp: lockDeliveryRow_def split: option.splits)

lemma assertDeliveryRouting_Inr [simp]:
  "assertDeliveryRouting event s = Inr u \<longleftrightarrow> oe_name event = ed_name (es_event s)"
  by (simp add: assertDeliveryRouting_def)

lemma set_delivery_simps [simp]:
  "dw_deliveries (set_delivery k row w) = (dw_deliveries w)(k \<mapsto> row)"
  "ow_events (set_delivery k row w) = ow_events w"
  "pr_now (set_delivery k row w) = pr_now w"
  by (simp_all add: set_delivery_def)

lemma claim_status_Claimed:
  assumes "claim_status s t row = Inr Claimed"
  shows "dl_status row = Pending \<or> dl_status row = Processing"
  using assms by (cases "dl_status row") (auto simp: claim_status_def split: if_splits)

lemma claimDelivery_Claimed:
  assumes "claimDelivery s i by w = (Inr Claimed, w')"
  obtains row event where "dw_deliveries w (es_consumer s, i) = Some row"
    "find_event (ow_events w) i = Some event" "claim_status s (pr_now w) row = Inr Claimed"
    "\<not> hasEarlierUnprocessedDelivery (ow_events w) (dw_deliveries w) (es_consumer s) event"
    "w' = set_delivery (es_consumer s, i) (claimed_row (pr_now w) by row) w"
    "oe_name event = ed_name (es_event s)"
  using assms
  by (auto simp: claimDelivery_def lockDeliveryRow_Inr split: sum.splits prod.splits claim_result.splits if_splits)

lemma claimDelivery_other:
  "claimDelivery s i by w = (r, w') \<Longrightarrow> r \<noteq> Inr Claimed \<Longrightarrow> w' = w"
  by (auto simp: claimDelivery_def split: sum.splits prod.splits claim_result.splits if_splits)

lemma claimDelivery_quiet:
  assumes "claimDelivery s i by w = (r, w')"
  shows "ow_events w' = ow_events w \<and> quiet (dw_deliveries w) (dw_deliveries w')"
proof (cases "r = Inr Claimed")
  case True
  then obtain row where row: "dw_deliveries w (es_consumer s, i) = Some row"
    "claim_status s (pr_now w) row = Inr Claimed"
    "w' = set_delivery (es_consumer s, i) (claimed_row (pr_now w) by row) w"
    using assms claimDelivery_Claimed by metis
  have "dl_status row \<noteq> Processed" using claim_status_Claimed [OF row(2)] by auto
  then show ?thesis using row(1,3) by (simp add: quiet_update claimed_row_def del: fun_upd_apply)
next
  case False
  then show ?thesis using claimDelivery_other [OF assms] by simp
qed

lemma recordDeliveryFailure_quiet:
  assumes "recordDeliveryFailure c i by err w = (r, w')"
  shows "ow_events w' = ow_events w \<and> quiet (dw_deliveries w) (dw_deliveries w')"
  using assms
  by (auto simp: recordDeliveryFailure_def ownedProcessingDelivery_def failed_row_def Let_def
      split: option.splits if_splits sum.splits intro!: quiet_update)

lemma replayDeadDeliveries_quiet:
  assumes "replayDeadDeliveries c i w = (n, w')"
  shows "ow_events w' = ow_events w \<and> quiet (dw_deliveries w) (dw_deliveries w')"
  using assms
  by (auto simp: replayDeadDeliveries_def replay_matches_def replayed_row_def quiet_def
      processed_in_def fun_eq_iff Let_def split: option.splits if_splits)

definition with_rows :: "ms \<Rightarrow> delivery_key set \<Rightarrow> delivery_table \<Rightarrow> delivery_table" where
  "with_rows t ks table = (\<lambda>k. if k \<in> ks \<and> table k = None then Some (fresh_delivery t) else table k)"

lemma with_rows_dom [simp]: "dom (with_rows t ks table) = ks \<union> dom table"
  by (auto simp: with_rows_def dom_def)

lemma with_rows_processed [simp]: "processed_in (with_rows t ks table) = processed_in table"
  by (auto simp: with_rows_def processed_in_def fresh_delivery_def fun_eq_iff split: option.splits)

lemma insert_deliveries_spec:
  "insert_deliveries t ks table = (n, table') \<Longrightarrow>
     table' = with_rows t (set ks) table \<and> n = card (set ks - dom table)"
proof (induction ks arbitrary: table n table')
  case (Cons k ks)
  show ?case
  proof (cases "table k")
    case None
    let ?table = "table(k \<mapsto> fresh_delivery t)"
    obtain m where m: "insert_deliveries t ks ?table = (m, table')" "n = Suc m"
      using Cons.prems None by (auto split: prod.splits)
    have "set (k # ks) - dom table = insert k (set ks - dom ?table)" using None by auto
    then have "card (set (k # ks) - dom table) = Suc (card (set ks - dom ?table))" by simp
    moreover have "with_rows t (set ks) ?table = with_rows t (set (k # ks)) table"
      using None by (auto simp: with_rows_def)
    ultimately show ?thesis using Cons.IH [OF m(1)] m(2) by (simp del: dom_fun_upd fun_upd_apply)
  next
    case (Some row)
    then have "set (k # ks) - dom table = set ks - dom table" by auto
    moreover have "with_rows t (set (k # ks)) table = with_rows t (set ks) table"
      using Some by (auto simp: with_rows_def fun_eq_iff)
    ultimately show ?thesis using Cons.IH Cons.prems Some by simp
  qed
qed (simp add: with_rows_def fun_eq_iff)

definition batch_keys :: "event_subscription list \<Rightarrow> outbox_row list \<Rightarrow> delivery_key list" where
  "batch_keys subs claimed =
     concat (map (\<lambda>e. map (\<lambda>consumer. (consumer, oe_id e)) (consumers_of subs (oe_name e))) claimed)"

lemma dispatch_spec:
  assumes "dispatchOutboxBatch subs by n locked w = (r, w')"
  defines "claimed \<equiv> claim_outbox locked n (ow_events w)"
  shows "ow_events w' = map (mark_dispatched (pr_now w) by (set (map oe_id claimed))) (ow_events w)
     \<and> dw_deliveries w' = with_rows (pr_now w) (set (batch_keys subs claimed)) (dw_deliveries w)
     \<and> r = (length claimed, card (set (batch_keys subs claimed) - dom (dw_deliveries w)))"
proof (cases "claimed = []")
  case True
  have "with_rows (pr_now w) {} (dw_deliveries w) = dw_deliveries w" by (simp add: with_rows_def)
  moreover have "map (mark_dispatched (pr_now w) by {}) (ow_events w) = ow_events w"
    by (rule map_idI) (simp add: mark_dispatched_def)
  ultimately show ?thesis using assms(1) True
    by (simp add: dispatchOutboxBatch_def batch_keys_def claimed_def)
next
  case False
  obtain m table where i: "insert_deliveries (pr_now w) (batch_keys subs claimed) (dw_deliveries w) = (m, table)"
    by fastforce
  then show ?thesis using assms(1) False insert_deliveries_spec [OF i]
    by (auto simp: dispatchOutboxBatch_def batch_keys_def claimed_def Let_def)
qed

section \<open>The execution transaction\<close>

text \<open>
  What the pipeline owes the executor: when it returns, it has run the hook's \<open>finalize\<close> once,
  inside the transaction, and has touched the events only by appending rows and the deliveries
  not at all.
\<close>

definition events_grow :: "outbox_row list \<Rightarrow> outbox_row list \<Rightarrow> bool" where
  "events_grow xs ys = (ys = xs \<or> (\<exists>new. sql_insert_events new xs = Some ys))"

lemma events_grow_refl [simp]: "events_grow xs xs"
  by (simp add: events_grow_def)

lemma events_grow_append:
  assumes "events_grow xs ys" and "distinct (map oe_id xs)"
  obtains new where "ys = xs @ new" "distinct (map oe_id ys)"
  using assms sql_insert_events_append unfolding events_grow_def by (metis append_Nil2)

definition finalizes :: "'a delivery_world_scheme delivery_invoke \<Rightarrow> bool" where
  "finalizes invoke = (\<forall>c i by call w w'. invoke (delivery_finalize c i by) call w = (Inr (), w') \<longrightarrow>
     (\<exists>v v' :: 'a delivery_world_scheme. delivery_finalize c i by v = (Inr (), v') \<and> dw_deliveries v = dw_deliveries w
        \<and> dw_deliveries w' = dw_deliveries v' \<and> events_grow (ow_events w) (ow_events w')))"

lemma finalizesD:
  fixes w :: "'a delivery_world_scheme"
  assumes "finalizes invoke" and "invoke (delivery_finalize c i by) call w = (Inr (), w')"
  obtains v v' :: "'a delivery_world_scheme" where "delivery_finalize c i by v = (Inr (), v')" "dw_deliveries v = dw_deliveries w"
    "dw_deliveries w' = dw_deliveries v'" "events_grow (ow_events w) (ow_events w')"
  using assms unfolding finalizes_def by blast

lemma delivery_finalize_Inr:
  "delivery_finalize c i by v = (Inr (), v') \<longleftrightarrow>
     (\<exists>row. dw_deliveries v (c, i) = Some row \<and> ownedProcessingDelivery by row
        \<and> v' = set_delivery (c, i) (finalized_row (pr_now v) row) v)"
  by (auto simp: delivery_finalize_def split: option.splits if_splits)

text \<open>An execution transaction that returns has locked a row; it has deferred, released, or run.\<close>

lemma delivery_body_Inr:
  assumes "delivery_body rnd invoke s i by w = (Inr r, w')"
  obtains (deferred) "r = OutDeferred" "w' = w"
  | (released) row where "r = OutDeferred" "dw_deliveries w (es_consumer s, i) = Some row"
      "ownedProcessingDelivery by row" "w' = set_delivery (es_consumer s, i) (released_row (pr_now w) row) w"
  | (ran) row event envelope where "r = OutProcessed" "dw_deliveries w (es_consumer s, i) = Some row"
      "find_event (ow_events w) i = Some event" "ownedProcessingDelivery by row"
      "\<not> hasEarlierUnprocessedDelivery (ow_events w) (dw_deliveries w) (es_consumer s) event"
      "invoke (delivery_finalize (es_consumer s) i by) \<lparr>di_input = envelope,
          di_request = delivery_request s event (rnd (pr_uuids w)),
          di_principal = delivery_principal s event\<rparr> (snd (randomUUID rnd w)) = (Inr (), w')"
proof (cases "lockDeliveryRow (es_consumer s) i w")
  case (Inl e)
  then show ?thesis using assms by (simp add: delivery_body_def Let_def)
next
  case (Inr re)
  obtain row event where lock: "lockDeliveryRow (es_consumer s) i w = Inr (row, event)"
    using Inr by (cases re) simp
  note found = lock [unfolded lockDeliveryRow_Inr]
  show ?thesis
  proof (cases "\<not> ownedProcessingDelivery by row
      \<or> hasEarlierUnprocessedDelivery (ow_events w) (dw_deliveries w) (es_consumer s) event")
    case True
    then show ?thesis using assms lock found deferred released [of row]
      by (auto simp: delivery_body_def Let_def split: sum.splits if_splits)
  next
    case False
    then obtain envelope where run: "invoke (delivery_finalize (es_consumer s) i by) \<lparr>di_input = envelope,
          di_request = delivery_request s event (rnd (pr_uuids w)),
          di_principal = delivery_principal s event\<rparr> (w\<lparr>pr_uuids := Suc (pr_uuids w)\<rparr>) = (Inr (), w')"
      "r = OutProcessed"
      using assms lock by (auto simp: delivery_body_def randomUUID_def Let_def split: sum.splits prod.splits)
    then show ?thesis using False found by (intro ran [of row event envelope]) (simp_all add: randomUUID_def)
  qed
qed

lemma delivery_body_processed:
  fixes w :: "'a delivery_world_scheme"
  assumes "delivery_body rnd invoke s i by w = (Inr OutProcessed, w')" and "finalizes invoke"
  obtains row event n where "dw_deliveries w (es_consumer s, i) = Some row"
    "dl_status row = Processing" "find_event (ow_events w) i = Some event"
    "\<not> hasEarlierUnprocessedDelivery (ow_events w) (dw_deliveries w) (es_consumer s) event"
    "dw_deliveries w' = (dw_deliveries w)(((es_consumer s), i) \<mapsto> finalized_row n row)"
    "events_grow (ow_events w) (ow_events w')"
  using assms(1)
proof (cases rule: delivery_body_Inr)
  case (ran row event envelope)
  let ?k = "(es_consumer s, i)"
  obtain v v' :: "'a delivery_world_scheme" where v: "delivery_finalize (es_consumer s) i by v = (Inr (), v')"
    "dw_deliveries v = dw_deliveries (snd (randomUUID rnd w))" "dw_deliveries w' = dw_deliveries v'"
    "events_grow (ow_events (snd (randomUUID rnd w))) (ow_events w')"
    by (rule finalizesD [OF assms(2) ran(6)]) (rule that)
  from v(1) obtain row' where row': "dw_deliveries v ?k = Some row'"
    "v' = set_delivery ?k (finalized_row (pr_now v) row') v"
    by (auto simp: delivery_finalize_Inr)
  have same: "dw_deliveries v = dw_deliveries w" "row' = row" using v(2) row'(1) ran(2) by (simp_all add: randomUUID_def)
  show thesis
  proof (rule that [OF ran(2) _ ran(3) ran(5)])
    show "dl_status row = Processing" using ran(4) by (simp add: ownedProcessingDelivery_def)
    show "dw_deliveries w' = (dw_deliveries w)(?k \<mapsto> finalized_row (pr_now v) row)"
      using v(3) row'(2) same by simp
    show "events_grow (ow_events w) (ow_events w')" using v(4) by (simp add: randomUUID_def)
  qed
qed simp_all

lemma delivery_body_deferred:
  assumes "delivery_body rnd invoke s i by w = (Inr r, w')" and "r \<noteq> OutProcessed"
  shows "ow_events w' = ow_events w \<and> quiet (dw_deliveries w) (dw_deliveries w')"
  using assms(1)
proof (cases rule: delivery_body_Inr)
  case (released row)
  then show ?thesis by (simp add: quiet_update released_row_def ownedProcessingDelivery_def del: fun_upd_apply)
qed (use assms(2) in simp_all)

lemma rollback_to_simps [simp]:
  "dw_deliveries (rollback_to w w') = dw_deliveries w" "ow_events (rollback_to w w') = ow_events w"
  "ow_sequences (rollback_to w w') = ow_sequences w" "iw_rows (rollback_to w w') = iw_rows w"
  "delivery_world.more (rollback_to w w') = delivery_world.more w"
  by (simp_all add: rollback_to_def)

lemma in_transaction_Inr: "in_transaction body w = (Inr x, w') \<longleftrightarrow> body w = (Inr x, w')"
  by (auto simp: in_transaction_def split: prod.splits sum.splits)

lemma in_transaction_Inl:
  "in_transaction body w = (Inl e, w') \<longleftrightarrow> (\<exists>v. body w = (Inl e, v) \<and> w' = rollback_to w v)"
  by (auto simp: in_transaction_def split: prod.splits sum.splits)

section \<open>Histories\<close>

datatype delivery_mark = Materialised delivery_key | Handled delivery_key

inductive delivery_run ::
  "(nat \<Rightarrow> js_string) \<Rightarrow> 'a delivery_world_scheme \<Rightarrow> delivery_mark list \<Rightarrow> bool" for rnd where
  at_rest: "dw_deliveries w = Map.empty \<Longrightarrow> distinct (map oe_id (ow_events w)) \<Longrightarrow> delivery_run rnd w []"
| dispatched: "delivery_run rnd w marks \<Longrightarrow> dispatchOutboxBatch subs by n locked w = (r, w') \<Longrightarrow>
    set ks = dom (dw_deliveries w') - dom (dw_deliveries w) \<Longrightarrow> distinct ks \<Longrightarrow>
    delivery_run rnd w' (marks @ map Materialised ks)"
| claimed: "delivery_run rnd w marks \<Longrightarrow> claimDelivery s i by w = (c, w') \<Longrightarrow> delivery_run rnd w' marks"
| executed: "delivery_run rnd w marks \<Longrightarrow> finalizes invoke \<Longrightarrow>
    in_transaction (delivery_body rnd invoke s i by) w = (r', w') \<Longrightarrow>
    delivery_run rnd w' (marks @ (if r' = Inr OutProcessed then [Handled (es_consumer s, i)] else []))"
| recorded: "delivery_run rnd w marks \<Longrightarrow> recordDeliveryFailure consumer i by err w = (f, w') \<Longrightarrow>
    delivery_run rnd w' marks"
| replayed: "delivery_run rnd w marks \<Longrightarrow> replayDeadDeliveries consumer j w = (n, w') \<Longrightarrow>
    delivery_run rnd w' marks"
| elsewhere: "delivery_run rnd w marks \<Longrightarrow> events_grow (ow_events w) (ow_events w') \<Longrightarrow>
    dw_deliveries w' = dw_deliveries w \<Longrightarrow> delivery_run rnd w' marks"

definition every_mark :: "('b list \<Rightarrow> 'b \<Rightarrow> bool) \<Rightarrow> 'b list \<Rightarrow> bool" where
  "every_mark P marks = (\<forall>xs m ys. marks = xs @ m # ys \<longrightarrow> P xs m)"

lemma every_mark_Nil [simp]: "every_mark P []"
  by (simp add: every_mark_def)

lemma every_mark_snoc [simp]: "every_mark P (marks @ [m]) \<longleftrightarrow> every_mark P marks \<and> P marks m"
proof
  assume a: "every_mark P (marks @ [m])"
  have "P xs n" if "marks = xs @ n # ys" for xs n ys
    using a that unfolding every_mark_def by (metis append_Cons append_assoc)
  moreover have "P marks m" using a unfolding every_mark_def by blast
  ultimately show "every_mark P marks \<and> P marks m" by (simp add: every_mark_def)
next
  assume a: "every_mark P marks \<and> P marks m"
  have "P xs n" if split: "marks @ [m] = xs @ n # ys" for xs n ys
  proof (cases ys rule: rev_cases)
    case Nil
    then show ?thesis using split a by simp
  next
    case (snoc zs z)
    then have "marks = xs @ n # zs" using split by simp
    then show ?thesis using a by (auto simp: every_mark_def)
  qed
  then show "every_mark P (marks @ [m])" unfolding every_mark_def by blast
qed

lemma every_mark_append:
  assumes "every_mark P marks" and "\<And>xs m. m \<in> set ms \<Longrightarrow> P xs m"
  shows "every_mark P (marks @ ms)"
  using assms(2)
proof (induction ms rule: rev_induct)
  case (snoc m ms)
  then show ?case using every_mark_snoc [of P "marks @ ms" m] by simp
qed (simp add: assms(1))

lemma every_mark_mono:
  assumes "every_mark P marks" and "\<And>xs m. set xs \<subseteq> set marks \<Longrightarrow> m \<in> set marks \<Longrightarrow> P xs m \<Longrightarrow> Q xs m"
  shows "every_mark Q marks"
  unfolding every_mark_def
proof (intro allI impI)
  fix xs m ys assume "marks = xs @ m # ys"
  then show "Q xs m" using assms(1) assms(2) [of xs m] unfolding every_mark_def by auto
qed

text \<open>A delivery is handled after it was materialised, and after those it has to wait for.\<close>

definition in_turn :: "outbox_row list \<Rightarrow> delivery_mark list \<Rightarrow> delivery_mark \<Rightarrow> bool" where
  "in_turn events before m =
     (case m of
        Materialised _ \<Rightarrow> True
      | Handled (c, j) \<Rightarrow> Materialised (c, j) \<in> set before
          \<and> (\<forall>i. precedes events i j \<and> Materialised (c, i) \<in> set before \<longrightarrow> Handled (c, i) \<in> set before))"

definition log_ok :: "'a delivery_world_scheme \<Rightarrow> delivery_mark list \<Rightarrow> bool" where
  "log_ok w marks =
     (distinct (map oe_id (ow_events w)) \<and> distinct marks
      \<and> (\<forall>k. Materialised k \<in> set marks \<longleftrightarrow> k \<in> dom (dw_deliveries w))
      \<and> (\<forall>k. Handled k \<in> set marks \<longleftrightarrow> processed_in (dw_deliveries w) k)
      \<and> (\<forall>k \<in> dom (dw_deliveries w). snd k \<in> oe_id ` set (ow_events w))
      \<and> every_mark (in_turn (ow_events w)) marks)"

lemma log_ok_ids: "log_ok w marks \<Longrightarrow> distinct (map oe_id (ow_events w))"
  by (simp add: log_ok_def)

lemma log_ok_mat: "log_ok w marks \<Longrightarrow> Materialised k \<in> set marks \<longleftrightarrow> k \<in> dom (dw_deliveries w)"
  unfolding log_ok_def by blast

lemma log_ok_done: "log_ok w marks \<Longrightarrow> Handled k \<in> set marks \<longleftrightarrow> processed_in (dw_deliveries w) k"
  unfolding log_ok_def by blast

lemma log_ok_known: "log_ok w marks \<Longrightarrow> k \<in> dom (dw_deliveries w) \<Longrightarrow> snd k \<in> oe_id ` set (ow_events w)"
  unfolding log_ok_def by blast

lemma log_okI:
  assumes "distinct (map oe_id (ow_events w))" and "distinct marks"
    and "\<And>k. Materialised k \<in> set marks \<longleftrightarrow> k \<in> dom (dw_deliveries w)"
    and "\<And>k. Handled k \<in> set marks \<longleftrightarrow> processed_in (dw_deliveries w) k"
    and "\<And>k. k \<in> dom (dw_deliveries w) \<Longrightarrow> snd k \<in> oe_id ` set (ow_events w)"
    and "every_mark (in_turn (ow_events w)) marks"
  shows "log_ok w marks"
  unfolding log_ok_def using assms by blast

lemma log_ok_events:
  assumes "log_ok w marks" and "quiet (dw_deliveries w) (dw_deliveries w')"
    and "distinct (map oe_id (ow_events w'))" and "oe_id ` set (ow_events w) \<subseteq> oe_id ` set (ow_events w')"
    and "\<And>i. i \<in> oe_id ` set (ow_events w) \<Longrightarrow> same_place (ow_events w) (ow_events w') i"
  shows "log_ok w' marks"
proof -
  have known: "i \<in> oe_id ` set (ow_events w)" if "Materialised (c, i) \<in> set marks" for c i
    using that log_ok_mat [OF assms(1)] log_ok_known [OF assms(1), of "(c, i)"] by simp
  have "every_mark (in_turn (ow_events w')) marks"
  proof (rule every_mark_mono)
    show "every_mark (in_turn (ow_events w)) marks" using assms(1) by (simp add: log_ok_def)
    fix xs m assume xs: "set xs \<subseteq> set marks" and t: "in_turn (ow_events w) xs m"
    show "in_turn (ow_events w') xs m"
    proof (cases m)
      case (Handled k)
      obtain c j where k: "k = (c, j)" by fastforce
      have j: "Materialised (c, j) \<in> set xs" using t Handled k by (simp add: in_turn_def)
      have "precedes (ow_events w') i j = precedes (ow_events w) i j" if "Materialised (c, i) \<in> set xs" for i
        using that j xs known assms(5) by (intro precedes_cong) blast+
      then show ?thesis using t Handled k by (auto simp: in_turn_def)
    qed (simp add: in_turn_def)
  qed
  note q = assms(2) [unfolded quiet_def]
  show ?thesis
  proof (rule log_okI)
    show "distinct marks" using assms(1) by (simp add: log_ok_def)
    show "Materialised k \<in> set marks \<longleftrightarrow> k \<in> dom (dw_deliveries w')" for k
      using log_ok_mat [OF assms(1), of k] q by simp
    show "Handled k \<in> set marks \<longleftrightarrow> processed_in (dw_deliveries w') k" for k
      using log_ok_done [OF assms(1), of k] q by simp
    show "snd k \<in> oe_id ` set (ow_events w')" if "k \<in> dom (dw_deliveries w')" for k
      using that q log_ok_known [OF assms(1), of k] assms(4) by auto
  qed (use assms(3) \<open>every_mark (in_turn (ow_events w')) marks\<close> in simp_all)
qed

lemma log_ok_quiet:
  "log_ok w marks \<Longrightarrow> ow_events w' = ow_events w \<and> quiet (dw_deliveries w) (dw_deliveries w') \<Longrightarrow> log_ok w' marks"
  by (rule log_ok_events [where w = w]) (simp_all add: log_ok_ids)

lemma log_ok_emitted:
  assumes "log_ok w marks" and "events_grow (ow_events w) (ow_events w')"
    and "quiet (dw_deliveries w) (dw_deliveries w')"
  shows "log_ok w' marks"
proof (rule log_ok_events [OF assms(1,3)])
  obtain new where grown: "ow_events w' = ow_events w @ new" "distinct (map oe_id (ow_events w'))"
    by (rule events_grow_append [OF assms(2) log_ok_ids [OF assms(1)]])
  show "distinct (map oe_id (ow_events w'))" using grown by blast
  show "oe_id ` set (ow_events w) \<subseteq> oe_id ` set (ow_events w')" using grown by auto
  show "same_place (ow_events w) (ow_events w') i" if "i \<in> oe_id ` set (ow_events w)" for i
    using grown same_place_append [OF that] by simp
qed

lemma log_ok_rows:
  assumes "log_ok w marks" and "ow_events w' = ow_events w"
    and "dw_deliveries w' = with_rows t (set keys) (dw_deliveries w)"
    and "\<And>k. k \<in> set keys \<Longrightarrow> snd k \<in> oe_id ` set (ow_events w)"
    and "set ks = dom (dw_deliveries w') - dom (dw_deliveries w)" and "distinct ks"
  shows "log_ok w' (marks @ map Materialised ks)"
proof (rule log_okI)
  show "distinct (map oe_id (ow_events w'))" using log_ok_ids [OF assms(1)] assms(2) by simp
  show "every_mark (in_turn (ow_events w')) (marks @ map Materialised ks)"
    using assms(1,2) by (intro every_mark_append) (auto simp: log_ok_def in_turn_def)
  have "set marks \<inter> Materialised ` set ks = {}" using log_ok_mat [OF assms(1)] assms(5) by auto
  moreover have "distinct marks" using assms(1) by (simp add: log_ok_def)
  ultimately show "distinct (marks @ map Materialised ks)"
    using assms(6) by (auto simp: distinct_map inj_on_def)
  fix k
  have "set ks = set keys - dom (dw_deliveries w)" using assms(3,5) by auto
  then show "Materialised k \<in> set (marks @ map Materialised ks) \<longleftrightarrow> k \<in> dom (dw_deliveries w')"
    using log_ok_mat [OF assms(1), of k] assms(3) by auto
  show "Handled k \<in> set (marks @ map Materialised ks) \<longleftrightarrow> processed_in (dw_deliveries w') k"
    using log_ok_done [OF assms(1), of k] assms(3) by auto
  show "snd k \<in> oe_id ` set (ow_events w')" if "k \<in> dom (dw_deliveries w')"
    using that assms(2,3) assms(4) [of k] log_ok_known [OF assms(1), of k] by auto
qed

lemma processed_in_update:
  "processed_in (t(k \<mapsto> row)) k' = (if k' = k then dl_status row = Processed else processed_in t k')"
  by (simp add: processed_in_def)

lemma log_ok_handled:
  assumes "log_ok w marks" and "dw_deliveries w (c, j) = Some row" and "dl_status row = Processing"
    and "find_event (ow_events w) j = Some event"
    and "\<not> hasEarlierUnprocessedDelivery (ow_events w) (dw_deliveries w) c event"
    and "dw_deliveries w' = (dw_deliveries w)((c, j) \<mapsto> finalized_row n row)"
    and "ow_events w' = ow_events w"
  shows "log_ok w' (marks @ [Handled (c, j)])"
proof (rule log_okI)
  note ids = log_ok_ids [OF assms(1)]
  show "distinct (map oe_id (ow_events w'))" using ids assms(7) by simp
  have unhandled: "Handled (c, j) \<notin> set marks"
    using log_ok_done [OF assms(1), of "(c, j)"] assms(2,3) by (simp add: processed_in_def)
  then show "distinct (marks @ [Handled (c, j)])" using assms(1) by (simp add: log_ok_def)
  have "Handled (c, i) \<in> set marks" if "precedes (ow_events w) i j" "Materialised (c, i) \<in> set marks" for i
    using assms(5) that log_ok_mat [OF assms(1), of "(c, i)"] log_ok_done [OF assms(1), of "(c, i)"]
    unfolding hasEarlier_iff [OF ids assms(4)] by blast
  moreover have "Materialised (c, j) \<in> set marks" using log_ok_mat [OF assms(1), of "(c, j)"] assms(2) by blast
  ultimately have "in_turn (ow_events w) marks (Handled (c, j))" by (simp add: in_turn_def)
  then show "every_mark (in_turn (ow_events w')) (marks @ [Handled (c, j)])"
    using assms(1,7) by (simp add: log_ok_def)
  fix k
  have dom: "dom (dw_deliveries w') = dom (dw_deliveries w)" using assms(2,6) by auto
  then show "Materialised k \<in> set (marks @ [Handled (c, j)]) \<longleftrightarrow> k \<in> dom (dw_deliveries w')"
    using log_ok_mat [OF assms(1), of k] by simp
  show "Handled k \<in> set (marks @ [Handled (c, j)]) \<longleftrightarrow> processed_in (dw_deliveries w') k"
    using log_ok_done [OF assms(1), of k] unfolding assms(6) processed_in_update
    by (auto simp: finalized_row_def)
  show "snd k \<in> oe_id ` set (ow_events w')" if "k \<in> dom (dw_deliveries w')"
    using that dom assms(7) log_ok_known [OF assms(1), of k] by simp
qed

lemma run_log_ok:
  assumes "delivery_run rnd w marks"
  shows "log_ok w marks"
  using assms
proof (induction rule: delivery_run.induct)
  case (at_rest w)
  then show ?case by (simp add: log_ok_def processed_in_def)
next
  case (dispatched w marks subs "by" n locked r w' ks)
  let ?claimed = "claim_outbox locked n (ow_events w)"
  have spec: "ow_events w' = map (mark_dispatched (pr_now w) by (set (map oe_id ?claimed))) (ow_events w)"
    "dw_deliveries w' = with_rows (pr_now w) (set (batch_keys subs ?claimed)) (dw_deliveries w)"
    using dispatch_spec [OF dispatched.hyps(2)] by auto
  let ?v = "w\<lparr>ow_events := ow_events w'\<rparr>"
  have "log_ok ?v marks"
    by (rule log_ok_events [OF dispatched.IH])
      (use log_ok_ids [OF dispatched.IH] in \<open>auto simp: spec(1) same_place_marked o_def image_image\<close>)
  moreover have "snd k \<in> oe_id ` set (ow_events ?v)" if "k \<in> set (batch_keys subs ?claimed)" for k
    using that by (auto simp: spec(1) batch_keys_def claim_outbox_def image_image dest: in_set_takeD)
  ultimately show ?case
    using log_ok_rows [of ?v marks w' "pr_now w" "batch_keys subs ?claimed" ks] spec(2) dispatched.hyps(3,4)
    by simp
next
  case (claimed w marks s i "by" c w')
  then show ?case using claimDelivery_quiet log_ok_quiet by blast
next
  case (executed w marks invoke s i "by" r' w')
  show ?case
  proof (cases r')
    case (Inl e)
    then obtain v where "w' = rollback_to w v" using executed.hyps(3) by (auto simp: in_transaction_Inl)
    then show ?thesis using Inl log_ok_quiet [OF executed.IH, of w'] by simp
  next
    case (Inr outcome)
    then have body: "delivery_body rnd invoke s i by w = (Inr outcome, w')"
      using executed.hyps(3) by (simp add: in_transaction_Inr)
    show ?thesis
    proof (cases "outcome = OutProcessed")
      case True
      obtain row event n where b: "dw_deliveries w (es_consumer s, i) = Some row"
        "dl_status row = Processing" "find_event (ow_events w) i = Some event"
        "\<not> hasEarlierUnprocessedDelivery (ow_events w) (dw_deliveries w) (es_consumer s) event"
        "dw_deliveries w' = (dw_deliveries w)(((es_consumer s), i) \<mapsto> finalized_row n row)"
        "events_grow (ow_events w) (ow_events w')"
        using delivery_body_processed [OF _ executed.hyps(2)] body True by metis
      let ?v = "w\<lparr>dw_deliveries := dw_deliveries w'\<rparr>"
      have "log_ok ?v (marks @ [Handled (es_consumer s, i)])"
        by (rule log_ok_handled [OF executed.IH b(1-4)]) (simp_all add: b(5))
      then have "log_ok w' (marks @ [Handled (es_consumer s, i)])"
        by (rule log_ok_emitted) (use b(6) in simp_all)
      then show ?thesis using Inr True by simp
    next
      case False
      then show ?thesis using Inr log_ok_quiet [OF executed.IH delivery_body_deferred [OF body]] by simp
    qed
  qed
next
  case (recorded w marks consumer i "by" err f w')
  then show ?case using recordDeliveryFailure_quiet log_ok_quiet by blast
next
  case (replayed w marks consumer j n w')
  then show ?case using replayDeadDeliveries_quiet log_ok_quiet by blast
next
  case (elsewhere w marks w')
  then show ?case by (intro log_ok_emitted [OF elsewhere.IH]) simp_all
qed

section \<open>Rows of a history\<close>

definition row_ok :: "delivery_row \<Rightarrow> bool" where
  "row_ok row =
     ((dl_status row = Processing \<longrightarrow> dl_claimedAt row \<noteq> None \<and> dl_claimedBy row \<noteq> None \<and> 1 \<le> dl_attempts row)
      \<and> (dl_status row \<noteq> Processing \<longrightarrow> dl_claimedAt row = None \<and> dl_claimedBy row = None)
      \<and> (dl_status row = Dead \<longrightarrow> DELIVERY_MAX_ATTEMPTS \<le> dl_attempts row)
      \<and> (dl_status row = Pending \<longleftrightarrow> dl_nextAttemptAt row \<noteq> None)
      \<and> (dl_status row = Processed \<longleftrightarrow> dl_processedAt row \<noteq> None))"

definition rows_ok :: "delivery_table \<Rightarrow> bool" where
  "rows_ok table = (\<forall>key row. table key = Some row \<longrightarrow> row_ok row)"

lemma rows_okD: "rows_ok table \<Longrightarrow> table key = Some row \<Longrightarrow> row_ok row"
  unfolding rows_ok_def by blast

lemma rows_ok_update: "rows_ok table \<Longrightarrow> row_ok row \<Longrightarrow> rows_ok (table(key \<mapsto> row))"
  unfolding rows_ok_def by simp

lemma rows_ok_with_rows: "rows_ok table \<Longrightarrow> rows_ok (with_rows t keys table)"
  unfolding rows_ok_def with_rows_def
  by (auto simp: fresh_delivery_def row_ok_def split: if_splits)

lemma row_ok_steps:
  assumes "row_ok row"
  shows "claim_status s t row = Inr Claimed \<Longrightarrow> row_ok (claimed_row t by row)"
    and "dl_status row = Processing \<Longrightarrow> row_ok (released_row t row)"
    and "row_ok (finalized_row t row)"
    and "dl_status row = Processing \<Longrightarrow> row_ok (failed_row False (Some u) err row)"
    and "dl_status row = Processing \<Longrightarrow> DELIVERY_MAX_ATTEMPTS \<le> dl_attempts row \<Longrightarrow>
      row_ok (failed_row True None err row)"
    and "row_ok (replayed_row t)"
  using assms claim_status_Claimed [of s t row]
  by (auto simp: row_ok_def claimed_row_def released_row_def finalized_row_def failed_row_def replayed_row_def)

lemma recordDeliveryFailure_rows:
  assumes "recordDeliveryFailure c i by err w = (r, w')" and "rows_ok (dw_deliveries w)"
  shows "rows_ok (dw_deliveries w') \<and> (\<exists>f. r = Inr f)"
proof (cases "dw_deliveries w (c, i)")
  case None
  then show ?thesis using assms by (auto simp: recordDeliveryFailure_def)
next
  case (Some row)
  have ok: "row_ok row" using rows_okD [OF assms(2) Some] .
  show ?thesis
  proof (cases "ownedProcessingDelivery by row")
    case False
    then show ?thesis using assms Some by (auto simp: recordDeliveryFailure_def)
  next
    case True
    then have st: "dl_status row = Processing" "1 \<le> dl_attempts row"
      using ok by (auto simp: ownedProcessingDelivery_def row_ok_def)
    then show ?thesis using assms(1) Some True row_ok_steps(4,5) [OF ok st(1)]
      by (auto simp: recordDeliveryFailure_def deliveryRetryDelayMs_def Let_def
          simp del: fun_upd_apply intro!: rows_ok_update [OF assms(2)] split: if_splits)
  qed
qed

lemma run_rows_ok:
  assumes "delivery_run rnd w marks"
  shows "rows_ok (dw_deliveries w)"
  using assms
proof (induction rule: delivery_run.induct)
  case (at_rest w)
  then show ?case by (simp add: rows_ok_def)
next
  case (dispatched w marks subs "by" n locked r w' ks)
  then show ?case using dispatch_spec [OF dispatched.hyps(2)] rows_ok_with_rows by simp
next
  case (claimed w marks s i "by" c w')
  show ?case
  proof (cases "c = Inr Claimed")
    case True
    then obtain row where row: "dw_deliveries w (es_consumer s, i) = Some row"
      "claim_status s (pr_now w) row = Inr Claimed"
      "w' = set_delivery (es_consumer s, i) (claimed_row (pr_now w) by row) w"
      using claimed.hyps(2) claimDelivery_Claimed by metis
    then show ?thesis using claimed.IH row_ok_steps(1) [OF rows_okD [OF claimed.IH row(1)]]
      by (simp add: rows_ok_update del: fun_upd_apply)
  next
    case False
    then show ?thesis using claimDelivery_other [OF claimed.hyps(2)] claimed.IH by simp
  qed
next
  case (executed w marks invoke s i "by" r' w')
  show ?case
  proof (cases r')
    case (Inl e)
    then show ?thesis using executed.hyps(3) executed.IH by (auto simp: in_transaction_Inl)
  next
    case (Inr outcome)
    then have body: "delivery_body rnd invoke s i by w = (Inr outcome, w')"
      using executed.hyps(3) by (simp add: in_transaction_Inr)
    from body show ?thesis
    proof (cases rule: delivery_body_Inr)
      case deferred
      then show ?thesis using executed.IH by simp
    next
      case (released row)
      then show ?thesis using executed.IH row_ok_steps(2) [OF rows_okD [OF executed.IH released(2)]]
        by (simp add: rows_ok_update ownedProcessingDelivery_def del: fun_upd_apply)
    next
      case (ran row event envelope)
      obtain row' n where b: "dw_deliveries w (es_consumer s, i) = Some row'"
        "dw_deliveries w' = (dw_deliveries w)(((es_consumer s), i) \<mapsto> finalized_row n row')"
        using delivery_body_processed [OF _ executed.hyps(2)] body ran(1) by metis
      then show ?thesis using executed.IH row_ok_steps(3) [OF rows_okD [OF executed.IH b(1)]]
        by (simp add: rows_ok_update del: fun_upd_apply)
    qed
  qed
next
  case (recorded w marks consumer i "by" err f w')
  then show ?case using recordDeliveryFailure_rows by blast
next
  case (replayed w marks consumer j n w')
  then show ?case using row_ok_steps(6)
    by (auto simp: replayDeadDeliveries_def rows_ok_def row_ok_def replayed_row_def Let_def split: if_splits)
qed simp_all

end
