(* ===== verification/Delivery_Promises.thy ===== *)
theory Delivery_Promises
  imports Delivery_Proofs
begin

text \<open>
  The promises of the delivery protocol, over the histories of \<open>Delivery_Proofs\<close>: at most one
  committed handling, the order within an aggregate, the retry schedule and what a failed attempt
  leaves behind, the success of a due delivery, the agreement of discovery and claim, and the
  two places where the code does less than its documentation says.
\<close>

section \<open>An executor among other processes\<close>

definition keeps_runs ::
  "(nat \<Rightarrow> js_string) \<Rightarrow> 'a delivery_world_scheme interference \<Rightarrow> bool" where
  "keeps_runs rnd between =
     (\<forall>k v marks. delivery_run rnd v marks \<longrightarrow> (\<exists>more. delivery_run rnd (between k v) (marks @ more)))"

lemma keeps_runsD:
  "keeps_runs rnd between \<Longrightarrow> delivery_run rnd v marks \<Longrightarrow> \<exists>more. delivery_run rnd (between k v) (marks @ more)"
  unfolding keeps_runs_def by blast

lemma keeps_runs_alone: "keeps_runs rnd alone"
  unfolding keeps_runs_def by (auto intro: exI [of _ "[]"])

lemma executeDelivery_extends:
  assumes "delivery_run rnd w marks" and "finalizes invoke" and "keeps_runs rnd between"
    and "executeDelivery rnd invoke between s i worker w = (r, w')"
  shows "\<exists>more. delivery_run rnd w' (marks @ more)
     \<and> (r = Inr OutProcessed \<longrightarrow> Handled (es_consumer s, i) \<in> set more) \<and> (\<exists>outcome. r = Inr outcome)"
proof -
  obtain m0 where run0: "delivery_run rnd (between 0 w) (marks @ m0)"
    using keeps_runsD [OF assms(3,1)] by blast
  obtain c w1 where c: "claimDelivery s i worker (between 0 w) = (c, w1)" by fastforce
  have run1: "delivery_run rnd w1 (marks @ m0)" by (rule delivery_run.claimed [OF run0 c])
  show ?thesis
  proof (cases "c = Inr Claimed")
    case False
    then show ?thesis using assms(4) c run1
      by (auto simp: executeDelivery_def split: sum.splits claim_result.splits intro!: exI [of _ m0])
  next
    case True
    obtain m1 where run2: "delivery_run rnd (between 1 w1) ((marks @ m0) @ m1)"
      using keeps_runsD [OF assms(3) run1] by blast
    obtain b w2 where b: "in_transaction (delivery_body rnd invoke s i worker) (between 1 w1) = (b, w2)"
      by fastforce
    let ?m2 = "if b = Inr OutProcessed then [Handled (es_consumer s, i)] else []"
    have run3: "delivery_run rnd w2 (((marks @ m0) @ m1) @ ?m2)"
      by (rule delivery_run.executed [OF run2 assms(2) b])
    show ?thesis
    proof (cases b)
      case (Inr outcome)
      then have "r = Inr outcome" "w' = w2" using assms(4) c True b by (auto simp: executeDelivery_def)
      then show ?thesis using run3 Inr by (intro exI [of _ "m0 @ m1 @ ?m2"]) simp
    next
      case (Inl t)
      obtain m3 where run4: "delivery_run rnd (between 2 w2) (((marks @ m0) @ m1) @ m3)"
        using keeps_runsD [OF assms(3) run3, of 2] Inl by auto
      obtain f w3 where f: "recordDeliveryFailure (es_consumer s) i worker (delivery_core_error t) (between 2 w2) = (f, w3)"
        by fastforce
      have run5: "delivery_run rnd w3 (((marks @ m0) @ m1) @ m3)" by (rule delivery_run.recorded [OF run4 f])
      obtain g where g: "f = Inr g" using recordDeliveryFailure_rows [OF f run_rows_ok [OF run4]] by blast
      have "w' = w3 \<and> r \<noteq> Inr OutProcessed \<and> (\<exists>outcome. r = Inr outcome)"
        using assms(4) c True b Inl f g by (cases g) (auto simp: executeDelivery_def)
      then show ?thesis using run5 by (intro exI [of _ "m0 @ m1 @ m3"]) simp
    qed
  qed
qed

text \<open>
  C35: a delivery takes effect at most once. Whatever dispatchers, workers, emitters and replays do,
  each committed run of a handler is recorded once, after the row was materialised, and it is
  recorded exactly for the rows that are \<open>processed\<close>; no later \<open>executeDelivery\<close> by any worker, with
  any other process acting between its transactions, can process that delivery again.
\<close>

theorem deliveries_take_effect_once:
  assumes "delivery_run rnd w marks" and "finalizes invoke" and "keeps_runs rnd between"
    and "executeDelivery rnd invoke between s i worker w = (r, w')"
  shows "distinct marks
     \<and> (\<forall>k. (Handled k \<in> set marks) = processed_in (dw_deliveries w) k)
     \<and> every_mark (\<lambda>before m. case m of Handled k \<Rightarrow> Materialised k \<in> set before | Materialised _ \<Rightarrow> True) marks
     \<and> (processed_in (dw_deliveries w) (es_consumer s, i) \<longrightarrow> r \<noteq> Inr OutProcessed)
     \<and> (r = Inr OutProcessed \<longrightarrow> processed_in (dw_deliveries w') (es_consumer s, i))"
proof -
  note ok = run_log_ok [OF assms(1)]
  obtain more where more: "delivery_run rnd w' (marks @ more)"
    "r = Inr OutProcessed \<longrightarrow> Handled (es_consumer s, i) \<in> set more"
    using executeDelivery_extends [OF assms] by blast
  note ok' = run_log_ok [OF more(1)]
  have "distinct (marks @ more)" using ok' by (simp add: log_ok_def)
  then have "Handled (es_consumer s, i) \<in> set marks \<longrightarrow> r \<noteq> Inr OutProcessed" using more(2) by auto
  moreover have "r = Inr OutProcessed \<longrightarrow> processed_in (dw_deliveries w') (es_consumer s, i)"
    using more(2) log_ok_done [OF ok', of "(es_consumer s, i)"] by auto
  moreover have "every_mark (\<lambda>before m. case m of Handled k \<Rightarrow> Materialised k \<in> set before | Materialised _ \<Rightarrow> True) marks"
    by (rule every_mark_mono [of "in_turn (ow_events w)"])
      (use ok in \<open>auto simp: log_ok_def in_turn_def split: delivery_mark.splits\<close>)
  ultimately show ?thesis using ok log_ok_done [OF ok] by (simp add: log_ok_def)
qed

text \<open>
  C36: within an aggregate a consumer handles deliveries in the order of their sequences, as far as
  they were materialised: when a delivery is handled, every delivery of the same consumer for an
  earlier event of the same aggregate whose row existed by then had been handled before it, also
  when the earlier one was delayed, dead or owned by another worker.
\<close>

theorem deliveries_keep_aggregate_order:
  assumes "delivery_run rnd w marks" and "marks = before @ Handled (consumer, j) # after"
    and "precedes (ow_events w) i j" and "Materialised (consumer, i) \<in> set before"
  shows "Handled (consumer, i) \<in> set before"
proof -
  have "every_mark (in_turn (ow_events w)) marks" using run_log_ok [OF assms(1)] by (simp add: log_ok_def)
  then have "in_turn (ow_events w) before (Handled (consumer, j))"
    unfolding every_mark_def using assms(2) by blast
  then show ?thesis using assms(3,4) by (simp add: in_turn_def)
qed

text \<open>
  The executor never throws. In every history, whatever happens between its transactions,
  \<open>executeDelivery\<close> returns an outcome: the failure bookkeeping finds a row it owns with at least
  one attempt counted, so the retry delay is defined; and a row that is \<open>processing\<close> always names
  its claim, so a claim never fails on incomplete ownership.
\<close>

theorem executor_always_reports:
  assumes "delivery_run rnd w marks" and "finalizes invoke" and "keeps_runs rnd between"
  shows "(\<exists>outcome w'. executeDelivery rnd invoke between s i worker w = (Inr outcome, w'))
     \<and> fst (claimDelivery s i worker w) \<noteq> Inl (event_error IncompleteClaim)"
proof
  obtain r w' where e: "executeDelivery rnd invoke between s i worker w = (r, w')" by fastforce
  then show "\<exists>outcome w'. executeDelivery rnd invoke between s i worker w = (Inr outcome, w')"
    using executeDelivery_extends [OF assms e] by auto
  show "fst (claimDelivery s i worker w) \<noteq> Inl (event_error IncompleteClaim)"
  proof (cases "lockDeliveryRow (es_consumer s) i w")
    case (Inl e)
    then show ?thesis by (auto simp: claimDelivery_def lockDeliveryRow_def split: option.splits)
  next
    case (Inr re)
    then obtain row event where re: "re = (row, event)" "dw_deliveries w (es_consumer s, i) = Some row"
      by (cases re) (auto simp: lockDeliveryRow_Inr)
    have "row_ok row" by (rule rows_okD [OF run_rows_ok [OF assms(1)] re(2)])
    then have "claim_status s (pr_now w) row \<noteq> Inl (event_error IncompleteClaim)"
      by (auto simp: claim_status_def row_ok_def split: option.splits)
    moreover have "assertDeliveryRouting event s \<noteq> Inl (event_error IncompleteClaim)"
      by (simp add: assertDeliveryRouting_def)
    ultimately show ?thesis using Inr re(1)
      by (auto simp: claimDelivery_def split: sum.splits claim_result.splits)
  qed
qed

section \<open>One attempt at a due delivery\<close>

text \<open>A row that a claim may take now: pending and due, its event known, routed and not blocked.\<close>

definition due_delivery ::
  "event_subscription \<Rightarrow> js_string \<Rightarrow> 'a delivery_world_scheme \<Rightarrow> delivery_row \<Rightarrow> bool" where
  "due_delivery s i w row =
     (dw_deliveries w (es_consumer s, i) = Some row \<and> dl_status row = Pending
      \<and> (case dl_nextAttemptAt row of None \<Rightarrow> True | Some t \<Rightarrow> t \<le> pr_now w)
      \<and> (case find_event (ow_events w) i of
           None \<Rightarrow> False
         | Some event \<Rightarrow> oe_name event = ed_name (es_event s) \<and> oe_actorType event \<in> {''user'', ''system''}
             \<and> \<not> hasEarlierUnprocessedDelivery (ow_events w) (dw_deliveries w) (es_consumer s) event))"

lemma due_delivery_event:
  assumes "due_delivery s i w row"
  obtains event where "find_event (ow_events w) i = Some event" "oe_name event = ed_name (es_event s)"
    "oe_actorType event \<in> {''user'', ''system''}"
    "\<not> hasEarlierUnprocessedDelivery (ow_events w) (dw_deliveries w) (es_consumer s) event"
  using assms by (auto simp: due_delivery_def split: option.splits)

lemma due_delivery_claim:
  assumes "due_delivery s i w row"
  shows "claimDelivery s i worker w =
     (Inr Claimed, set_delivery (es_consumer s, i) (claimed_row (pr_now w) worker row) w)"
proof -
  obtain event where event: "find_event (ow_events w) i = Some event" "oe_name event = ed_name (es_event s)"
    "\<not> hasEarlierUnprocessedDelivery (ow_events w) (dw_deliveries w) (es_consumer s) event"
    using due_delivery_event [OF assms] by metis
  have "lockDeliveryRow (es_consumer s) i w = Inr (row, event)"
    using assms event(1) by (simp add: lockDeliveryRow_Inr due_delivery_def)
  moreover have "claim_status s (pr_now w) row = Inr Claimed"
    using assms by (auto simp: claim_status_def due_delivery_def split: option.splits)
  ultimately show ?thesis using event by (simp add: claimDelivery_def assertDeliveryRouting_def)
qed

text \<open>The ordering probe ignores a row that is not processed before or after.\<close>

lemma hasEarlier_update:
  assumes "distinct (map oe_id events)" and "find_event events i = Some event"
  shows "hasEarlierUnprocessedDelivery events (table((c, i) \<mapsto> row)) c event
    = hasEarlierUnprocessedDelivery events table c event"
proof -
  have "\<not> precedes events i i" by (auto simp: precedes_def split: option.splits)
  then show ?thesis unfolding hasEarlier_iff [OF assms] processed_in_update by auto
qed

text \<open>The execution transaction after the claim: the handler runs on the claimed row.\<close>

lemma due_delivery_body:
  assumes "due_delivery s i w row" and "distinct (map oe_id (ow_events w))"
    and w1: "w1 = set_delivery (es_consumer s, i) (claimed_row (pr_now w) worker row) w"
  obtains call where "delivery_body rnd invoke s i worker w1 =
     (case invoke (delivery_finalize (es_consumer s) i worker) call (w1\<lparr>pr_uuids := Suc (pr_uuids w1)\<rparr>) of
        (Inl thrown, w2) \<Rightarrow> (Inl thrown, w2) | (Inr _, w2) \<Rightarrow> (Inr OutProcessed, w2))"
proof -
  let ?c = "es_consumer s"
  obtain event where event: "find_event (ow_events w) i = Some event" "oe_name event = ed_name (es_event s)"
    "oe_actorType event \<in> {''user'', ''system''}"
    "\<not> hasEarlierUnprocessedDelivery (ow_events w) (dw_deliveries w) ?c event"
    using due_delivery_event [OF assms(1)] by metis
  have "lockDeliveryRow ?c i w1 = Inr (claimed_row (pr_now w) worker row, event)"
    using event(1) by (simp add: lockDeliveryRow_Inr w1)
  moreover have "ownedProcessingDelivery worker (claimed_row (pr_now w) worker row)"
    by (simp add: ownedProcessingDelivery_def claimed_row_def)
  moreover have "\<not> hasEarlierUnprocessedDelivery (ow_events w1) (dw_deliveries w1) ?c event"
    using event(4) hasEarlier_update [OF assms(2) event(1)] by (simp add: w1 del: fun_upd_apply)
  moreover obtain envelope where "buildEnvelope event = Inr envelope"
    using event(3) by (auto simp: buildEnvelope_def narrowStored_def)
  ultimately show thesis using event(2)
    by (intro that [of "\<lparr>di_input = envelope, di_request = delivery_request s event (rnd (pr_uuids w1)),
        di_principal = delivery_principal s event\<rparr>"])
      (simp add: delivery_body_def assertDeliveryRouting_def randomUUID_def)
qed

lemma claimed_then:
  "finalized_row n (claimed_row m worker row) = row\<lparr>dl_status := Processed,
     dl_attempts := dl_attempts row + 1, dl_nextAttemptAt := None, dl_claimedAt := None,
     dl_claimedBy := None, dl_lastError := None, dl_processedAt := Some n\<rparr>"
  "failed_row dead retryAt err (claimed_row m worker row) = row\<lparr>dl_status := (if dead then Dead else Pending),
     dl_attempts := dl_attempts row + 1, dl_nextAttemptAt := retryAt, dl_claimedAt := None,
     dl_claimedBy := None,
     dl_lastError := Some (wire_code (error_code err) @ '': '' @ client_message err)\<rparr>"
  by (cases row, simp add: finalized_row_def failed_row_def claimed_row_def)+


text \<open>
  C38: a due delivery is delivered. When the handler of a due delivery succeeds up to the hook's
  \<open>finalize\<close>, the finalize succeeds, the executor reports \<open>processed\<close>, and the row is \<open>processed\<close>
  at the time of the finalize, with no claim and no error left.
\<close>

theorem due_delivery_is_handled:
  assumes "due_delivery s i w row" and "distinct (map oe_id (ow_events w))"
    and "\<And>fin call v. invoke fin call v =
       (case fin (handler call v) of (Inl e, v') \<Rightarrow> (Inl (Typed e), v') | (Inr u, v') \<Rightarrow> (Inr u, v'))"
    and "\<And>call v. dw_deliveries (handler call v) = dw_deliveries v"
  shows "\<exists>w' n. executeDelivery rnd invoke alone s i worker w = (Inr OutProcessed, w')
     \<and> dw_deliveries w' = (dw_deliveries w)((es_consumer s, i) \<mapsto> row\<lparr>dl_status := Processed,
         dl_attempts := dl_attempts row + 1, dl_nextAttemptAt := None, dl_claimedAt := None,
         dl_claimedBy := None, dl_lastError := None, dl_processedAt := Some n\<rparr>)"
proof -
  let ?k = "(es_consumer s, i)"
  let ?w1 = "set_delivery ?k (claimed_row (pr_now w) worker row) w"
  obtain call where body: "delivery_body rnd invoke s i worker ?w1 =
     (case invoke (delivery_finalize (es_consumer s) i worker) call (?w1\<lparr>pr_uuids := Suc (pr_uuids ?w1)\<rparr>) of
        (Inl thrown, w2) \<Rightarrow> (Inl thrown, w2) | (Inr _, w2) \<Rightarrow> (Inr OutProcessed, w2))"
    by (rule due_delivery_body [OF assms(1,2) refl])
  let ?v = "handler call (?w1\<lparr>pr_uuids := Suc (pr_uuids ?w1)\<rparr>)"
  have row: "dw_deliveries ?v ?k = Some (claimed_row (pr_now w) worker row)" using assms(4) by simp
  have owned: "ownedProcessingDelivery worker (claimed_row (pr_now w) worker row)"
    by (simp add: ownedProcessingDelivery_def claimed_row_def)
  let ?w2 = "set_delivery ?k (finalized_row (pr_now ?v) (claimed_row (pr_now w) worker row)) ?v"
  have "delivery_finalize (es_consumer s) i worker ?v = (Inr (), ?w2)"
    using row owned by (simp add: delivery_finalize_def)
  then have "in_transaction (delivery_body rnd invoke s i worker) ?w1 = (Inr OutProcessed, ?w2)"
    using body assms(3) by (simp add: in_transaction_def)
  then have "executeDelivery rnd invoke alone s i worker w = (Inr OutProcessed, ?w2)"
    using due_delivery_claim [OF assms(1), of worker] by (simp add: executeDelivery_def)
  then show ?thesis using assms(4)
    by (intro exI [of _ ?w2] exI [of _ "pr_now ?v"]) (simp add: claimed_then)
qed

section \<open>Discovery\<close>

definition candidates :: "event_subscription list \<Rightarrow> 'a delivery_world_scheme \<Rightarrow> (js_string \<times> outbox_row) list" where
  "candidates subs w = concat (map (\<lambda>event. map (\<lambda>consumer. (consumer, event))
     (filter (\<lambda>consumer. claimable subs (pr_now w) w consumer event)
        (remdups_first (map es_consumer subs)))) (ow_events w))"

lemma set_insert_by [simp]: "set (insert_by le x ys) = insert x (set ys)"
  by (induction ys) auto

lemma set_ordered [simp]: "set (foldr (insert_by le) xs []) = set xs"
  by (induction xs) auto

lemma length_insert_by [simp]: "length (insert_by le x ys) = Suc (length ys)"
  by (induction ys) auto

lemma length_ordered [simp]: "length (foldr (insert_by le) xs []) = length xs"
  by (induction xs) auto

lemma set_candidates:
  "(c, event) \<in> set (candidates subs w) \<longleftrightarrow>
     event \<in> set (ow_events w) \<and> c \<in> es_consumer ` set subs \<and> claimable subs (pr_now w) w c event"
  by (auto simp: candidates_def)

lemma length_candidates: "length (candidates subs w) \<le> length subs * length (ow_events w)"
proof -
  have "length (filter P (remdups_first (map es_consumer subs))) \<le> length subs" for P
    by (rule order_trans [OF length_filter_le])
      (use length_remdups_first [of "map es_consumer subs"] in simp)
  then have "length (concat (map (\<lambda>e. map (\<lambda>c. (c, e)) (filter (P e) (remdups_first (map es_consumer subs)))) es))
      \<le> length subs * length es" for P and es :: "outbox_row list"
    by (induction es) (simp_all add: add_le_mono)
  then show ?thesis by (simp add: candidates_def)
qed

text \<open>For a row of a history, the discovery condition is the claim condition.\<close>

lemma claimable_row_iff:
  assumes "row_ok row"
  shows "claimable_row t s event row \<longleftrightarrow> oe_name event = ed_name (es_event s) \<and> claim_status s t row = Inr Claimed"
  using assms
  by (cases "dl_status row")
    (auto simp: claimable_row_def claim_status_def row_ok_def split: option.splits)

lemma claim_iff:
  "fst (claimDelivery s i worker w) = Inr Claimed \<longleftrightarrow>
     (\<exists>row event. dw_deliveries w (es_consumer s, i) = Some row \<and> find_event (ow_events w) i = Some event
        \<and> oe_name event = ed_name (es_event s) \<and> claim_status s (pr_now w) row = Inr Claimed
        \<and> \<not> hasEarlierUnprocessedDelivery (ow_events w) (dw_deliveries w) (es_consumer s) event)"
    (is "?claim \<longleftrightarrow> ?ready")
proof
  assume ?claim
  then obtain w' where "claimDelivery s i worker w = (Inr Claimed, w')" by (metis prod.collapse)
  then show ?ready by (rule claimDelivery_Claimed) blast
next
  assume ?ready
  then obtain row event where "lockDeliveryRow (es_consumer s) i w = Inr (row, event)"
    "oe_name event = ed_name (es_event s)" "claim_status s (pr_now w) row = Inr Claimed"
    "\<not> hasEarlierUnprocessedDelivery (ow_events w) (dw_deliveries w) (es_consumer s) event"
    by (auto simp: lockDeliveryRow_Inr)
  then show ?claim by (simp add: claimDelivery_def assertDeliveryRouting_def)
qed

text \<open>
  Discovery and claim agree. In every history, whatever the batch size, each row the discovery
  query returns can be claimed at that moment by a subscription of its consumer and event; and a
  batch as large as the product of subscriptions and events returns every delivery that can be
  claimed. So rows that are not due, leased, dead, processed or blocked behind an earlier one
  never take a place in the batch.
\<close>

theorem discovery_agrees_with_claim:
  assumes "delivery_run rnd w marks"
  shows "((c, i, name) \<in> set (findClaimableDeliveries subs batchSize w) \<longrightarrow>
       (\<exists>s \<in> set subs. es_consumer s = c \<and> ed_name (es_event s) = name
          \<and> fst (claimDelivery s i worker w) = Inr Claimed))
     \<and> (length subs * length (ow_events w) \<le> batchSize \<longrightarrow>
       ((c, i, name) \<in> set (findClaimableDeliveries subs batchSize w)) =
       (\<exists>s \<in> set subs. es_consumer s = c \<and> ed_name (es_event s) = name
          \<and> fst (claimDelivery s i worker w) = Inr Claimed))"
proof -
  note ids = log_ok_ids [OF run_log_ok [OF assms]]
  note rows = rows_okD [OF run_rows_ok [OF assms]]
  let ?ordered = "foldr (insert_by (\<lambda>x y. due_before (due_key w x) (due_key w y))) (candidates subs w) []"
  have result: "findClaimableDeliveries subs batchSize w
      = map (\<lambda>(consumer, event). (consumer, oe_id event, oe_name event)) (take batchSize ?ordered)"
  proof (cases "subs = []")
    case True
    then have "candidates subs w = []" by (simp add: candidates_def concat_eq_Nil_conv)
    then show ?thesis using True by (simp add: findClaimableDeliveries_def)
  qed (simp add: findClaimableDeliveries_def candidates_def Let_def)
  have ready: "(\<exists>event. (c, event) \<in> set (candidates subs w) \<and> oe_id event = i \<and> oe_name event = name)
      \<longleftrightarrow> (\<exists>s \<in> set subs. es_consumer s = c \<and> ed_name (es_event s) = name
          \<and> fst (claimDelivery s i worker w) = Inr Claimed)" (is "?left = ?right")
  proof
    assume ?left
    then obtain event row s where e: "event \<in> set (ow_events w)" "oe_id event = i" "oe_name event = name"
      "dw_deliveries w (c, i) = Some row" "s \<in> set subs" "es_consumer s = c"
      "claimable_row (pr_now w) s event row"
      "\<not> hasEarlierUnprocessedDelivery (ow_events w) (dw_deliveries w) c event"
      by (auto simp: set_candidates claimable_def list_ex_iff split: option.splits)
    have "find_event (ow_events w) i = Some event" using find_event_mem [OF ids e(1)] e(2) by simp
    then have "fst (claimDelivery s i worker w) = Inr Claimed"
      using e(4,6-8) claimable_row_iff [OF rows [OF e(4)]] by (simp add: claim_iff)
    moreover have "ed_name (es_event s) = name" using e(3,7) by (simp add: claimable_row_def)
    ultimately show ?right using e(5,6) by blast
  next
    assume ?right
    then obtain s row event where s: "s \<in> set subs" "es_consumer s = c" "ed_name (es_event s) = name"
      "dw_deliveries w (c, i) = Some row" "find_event (ow_events w) i = Some event"
      "oe_name event = ed_name (es_event s)" "claim_status s (pr_now w) row = Inr Claimed"
      "\<not> hasEarlierUnprocessedDelivery (ow_events w) (dw_deliveries w) c event"
      unfolding claim_iff by blast
    note e = find_event_id [OF s(5)]
    have "claimable_row (pr_now w) s event row" using s(6,7) claimable_row_iff [OF rows [OF s(4)]] by simp
    then have "claimable subs (pr_now w) w c event"
      using s(1,2,4,8) e by (auto simp: claimable_def list_ex_iff)
    then show ?left using e s(1-3,6) by (auto simp: set_candidates)
  qed
  have "(c, i, name) \<in> set (findClaimableDeliveries subs batchSize w) \<longrightarrow>
       (\<exists>s \<in> set subs. es_consumer s = c \<and> ed_name (es_event s) = name
          \<and> fst (claimDelivery s i worker w) = Inr Claimed)"
    unfolding ready [symmetric] result by (auto dest!: in_set_takeD)
  moreover have "take batchSize ?ordered = ?ordered" if "length subs * length (ow_events w) \<le> batchSize"
    using that length_candidates [of subs w] by simp
  then have "length subs * length (ow_events w) \<le> batchSize \<longrightarrow>
       ((c, i, name) \<in> set (findClaimableDeliveries subs batchSize w)) =
       (\<exists>s \<in> set subs. es_consumer s = c \<and> ed_name (es_event s) = name
          \<and> fst (claimDelivery s i worker w) = Inr Claimed)"
    unfolding ready [symmetric] result by (force simp: image_iff)
  ultimately show ?thesis by blast
qed

section \<open>A system at work\<close>

text \<open>Two events of one aggregate, one consumer, and a handler that only finalizes.\<close>

definition sample_subscription :: event_subscription where
  "sample_subscription =
     \<lparr>es_event = sample_event, es_consumer = ''chat.card'', es_contract = sample_contract\<rparr>"

definition sample_outbox_row :: "js_string \<Rightarrow> int \<Rightarrow> outbox_row" where
  "sample_outbox_row i n = event_row (SystemActor ''s'') sample_system_ctx ''r'' n
     (sample_emission i, Some sample_company)"

definition delivery_start :: delivery_world where
  "delivery_start = \<lparr>pr_now = 1000, pr_uuids = 1, iw_rows = Map.empty, cw_entries = Map.empty,
     rw_buckets = Map.empty, ow_events = [sample_outbox_row ''e1'' 1, sample_outbox_row ''e2'' 2],
     ow_sequences = Map.empty, dw_deliveries = Map.empty\<rparr>"

definition finalize_only :: "delivery_world delivery_invoke" where
  "finalize_only fin call v =
     (case fin v of (Inl e, v') \<Rightarrow> (Inl (Typed e), v') | (Inr u, v') \<Rightarrow> (Inr u, v'))"

definition always_throws :: "delivery_world delivery_invoke" where
  "always_throws fin call v = (Inl Foreign, v)"

text \<open>A dispatcher whose peers hold the rows \<open>locked\<close>.\<close>

definition sample_dispatch :: "(js_string \<Rightarrow> bool) \<Rightarrow> delivery_world \<Rightarrow> delivery_world" where
  "sample_dispatch locked w =
     snd (dispatchOutboxBatch [sample_subscription] ''d1'' DEFAULT_DISPATCH_BATCH_SIZE locked w)"

definition sample_execute :: "js_string \<Rightarrow> delivery_world \<Rightarrow> (core_error + delivery_outcome) \<times> delivery_world" where
  "sample_execute i w =
     executeDelivery (\<lambda>n. show_nat n) finalize_only alone sample_subscription i ''w1'' w"

lemma sample_outbox_row_simps [simp]:
  "oe_id (sample_outbox_row i n) = i" "oe_name (sample_outbox_row i n) = ''orders.confirmed''"
  "oe_actorType (sample_outbox_row i n) = ''system''" "oe_dispatchedAt (sample_outbox_row i n) = None"
  "oe_aggregateSequence (sample_outbox_row i n) = n"
  "oe_aggregateType (sample_outbox_row i n) = ''order''"
  "oe_aggregateId (sample_outbox_row i n) = pg_uuid sample_company"
  by (simp_all add: sample_outbox_row_def event_row_def sample_emission_def sample_event_def Let_def)

lemma sample_subscription_simps [simp]:
  "es_consumer sample_subscription = ''chat.card''"
  "ed_name (es_event sample_subscription) = ''orders.confirmed''"
  by (simp_all add: sample_subscription_def sample_event_def)

lemma finalize_only_finalizes: "finalizes finalize_only"
  unfolding finalizes_def
proof (intro allI impI)
  fix c i "worker" call and w w' :: delivery_world
  assume "finalize_only (delivery_finalize c i worker) call w = (Inr (), w')"
  then have "delivery_finalize c i worker w = (Inr (), w')"
    by (auto simp: finalize_only_def split: prod.splits sum.splits)
  then show "\<exists>v v' :: delivery_world. delivery_finalize c i worker v = (Inr (), v') \<and> dw_deliveries v = dw_deliveries w
      \<and> dw_deliveries w' = dw_deliveries v' \<and> events_grow (ow_events w) (ow_events w')"
    by (intro exI [of _ w] exI [of _ w']) (auto simp: delivery_finalize_Inr)
qed

lemma delivery_start_run: "delivery_run rnd delivery_start []"
  by (rule delivery_run.at_rest) (simp_all add: delivery_start_def)

definition dispatched_row :: "js_string \<Rightarrow> int \<Rightarrow> outbox_row" where
  "dispatched_row i n = mark_dispatched 1000 ''d1'' {i} (sample_outbox_row i n)"

lemma dispatched_row_simps [simp]:
  "oe_id (dispatched_row i n) = i" "oe_name (dispatched_row i n) = ''orders.confirmed''"
  "oe_actorType (dispatched_row i n) = ''system''" "oe_dispatchedAt (dispatched_row i n) = Some 1000"
  "oe_aggregateSequence (dispatched_row i n) = n" "oe_aggregateType (dispatched_row i n) = ''order''"
  "oe_aggregateId (dispatched_row i n) = pg_uuid sample_company"
  by (simp_all add: dispatched_row_def mark_dispatched_def)

lemma sample_consumers [simp]: "consumers_of [sample_subscription] ''orders.confirmed'' = [''chat.card'']"
  by (simp add: consumers_of_def)

text \<open>The first event is locked by a peer: the second is fanned out alone.\<close>

lemma dispatch_second:
  "sample_dispatch (\<lambda>i. i = ''e1'') delivery_start = delivery_start
     \<lparr>ow_events := [sample_outbox_row ''e1'' 1, dispatched_row ''e2'' 2],
      dw_deliveries := [(''chat.card'', ''e2'') \<mapsto> fresh_delivery 1000]\<rparr>"
  by (simp add: sample_dispatch_def dispatchOutboxBatch_def claim_outbox_def delivery_start_def
      DEFAULT_DISPATCH_BATCH_SIZE_def dispatched_row_def Let_def) (simp add: mark_dispatched_def)

lemma dispatch_first:
  assumes "ow_events w = [sample_outbox_row ''e1'' 1, dispatched_row ''e2'' 2]"
    and "dw_deliveries w (''chat.card'', ''e1'') = None" and "pr_now w = 1000"
  shows "sample_dispatch (\<lambda>i. False) w = w
     \<lparr>ow_events := [dispatched_row ''e1'' 1, dispatched_row ''e2'' 2],
      dw_deliveries := (dw_deliveries w)((''chat.card'', ''e1'') \<mapsto> fresh_delivery 1000)\<rparr>"
  using assms by (simp add: sample_dispatch_def dispatchOutboxBatch_def claim_outbox_def
      DEFAULT_DISPATCH_BATCH_SIZE_def dispatched_row_def Let_def) (simp add: mark_dispatched_def)

lemma dispatch_extends:
  assumes "delivery_run rnd w marks"
    and "dom (dw_deliveries (sample_dispatch locked w)) - dom (dw_deliveries w) = {k}"
  shows "delivery_run rnd (sample_dispatch locked w) (marks @ [Materialised k])"
proof -
  have "dispatchOutboxBatch [sample_subscription] ''d1'' DEFAULT_DISPATCH_BATCH_SIZE locked w
      = (fst (dispatchOutboxBatch [sample_subscription] ''d1'' DEFAULT_DISPATCH_BATCH_SIZE locked w), sample_dispatch locked w)"
    by (simp add: sample_dispatch_def)
  from delivery_run.dispatched [OF assms(1) this, of "[k]"] assms(2) show ?thesis by simp
qed

text \<open>A claim and an execution of a due row with the handler that only finalizes.\<close>

lemma handle_due:
  fixes w :: delivery_world
  assumes "delivery_run rnd w marks" and "due_delivery s i w row"
  obtains w' :: delivery_world and n where "delivery_run rnd w' (marks @ [Handled (es_consumer s, i)])" "ow_events w' = ow_events w"
    "dw_deliveries w' = (dw_deliveries w)((es_consumer s, i) \<mapsto> finalized_row n (claimed_row (pr_now w) worker row))"
    "pr_now w' = pr_now w"
proof -
  let ?k = "(es_consumer s, i)"
  let ?w1 = "set_delivery ?k (claimed_row (pr_now w) worker row) w"
  note ids = log_ok_ids [OF run_log_ok [OF assms(1)]]
  obtain call where body: "delivery_body rnd finalize_only s i worker ?w1 =
     (case finalize_only (delivery_finalize (es_consumer s) i worker) call (?w1\<lparr>pr_uuids := Suc (pr_uuids ?w1)\<rparr>) of
        (Inl thrown, w2) \<Rightarrow> (Inl thrown, w2) | (Inr _, w2) \<Rightarrow> (Inr OutProcessed, w2))"
    by (rule due_delivery_body [OF assms(2) ids refl])
  let ?v = "?w1\<lparr>pr_uuids := Suc (pr_uuids ?w1)\<rparr>"
  let ?w2 = "set_delivery ?k (finalized_row (pr_now w) (claimed_row (pr_now w) worker row)) ?v"
  have owned: "ownedProcessingDelivery worker (claimed_row (pr_now w) worker row)"
    by (simp add: ownedProcessingDelivery_def claimed_row_def)
  have "delivery_finalize (es_consumer s) i worker ?v = (Inr (), ?w2)"
    using owned by (simp add: delivery_finalize_def)
  then have run: "in_transaction (delivery_body rnd finalize_only s i worker) ?w1 = (Inr OutProcessed, ?w2)"
    using body by (simp add: in_transaction_def finalize_only_def)
  have "delivery_run rnd ?w1 marks"
    by (rule delivery_run.claimed [OF assms(1) due_delivery_claim [OF assms(2), of worker]])
  from delivery_run.executed [OF this finalize_only_finalizes run]
  have "delivery_run rnd ?w2 (marks @ [Handled ?k])" by simp
  then show thesis by (intro that [of ?w2 "pr_now w"]) simp_all
qed

lemma sample_due:
  assumes "find_event (ow_events w) i = Some event" and "oe_name event = ''orders.confirmed''"
    and "oe_actorType event = ''system''" and "dw_deliveries w (''chat.card'', i) = Some (fresh_delivery 1000)"
    and "pr_now w = 1000"
    and "\<not> hasEarlierUnprocessedDelivery (ow_events w) (dw_deliveries w) ''chat.card'' event"
  shows "due_delivery sample_subscription i w (fresh_delivery 1000)"
  using assms by (simp add: due_delivery_def fresh_delivery_def)

text \<open>
  C39: the order of an aggregate does not hold under concurrent dispatch. While one dispatcher has
  the row of the first event locked, another skips it and fans out the second event of the same
  aggregate; a worker handles that one; only then is the first materialised and handled. The
  probe of the executor looks at materialised deliveries only.
\<close>

theorem concurrent_dispatch_reorders:
  "\<exists>w :: delivery_world. delivery_run rnd w [Materialised (''chat.card'', ''e2''), Handled (''chat.card'', ''e2''),
       Materialised (''chat.card'', ''e1''), Handled (''chat.card'', ''e1'')]
     \<and> precedes (ow_events w) ''e1'' ''e2''
     \<and> map oe_name (ow_events w) = [''orders.confirmed'', ''orders.confirmed'']
     \<and> consumers_of [sample_subscription] ''orders.confirmed'' = [''chat.card'']"
proof -
  let ?c = "''chat.card''"
  let ?w1 = "sample_dispatch (\<lambda>i. i = ''e1'') delivery_start"
  have at1: "ow_events ?w1 = [sample_outbox_row ''e1'' 1, dispatched_row ''e2'' 2]" "pr_now ?w1 = 1000"
    "dw_deliveries ?w1 = [(?c, ''e2'') \<mapsto> fresh_delivery 1000]"
    by (unfold dispatch_second, simp_all add: delivery_start_def)
  have run1: "delivery_run rnd ?w1 ([] @ [Materialised (?c, ''e2'')])"
    by (rule dispatch_extends [OF delivery_start_run])
      (unfold dispatch_second, simp add: delivery_start_def)
  have due2: "due_delivery sample_subscription ''e2'' ?w1 (fresh_delivery 1000)"
    by (rule sample_due [where event = "dispatched_row ''e2'' 2"])
      (simp_all add: at1 find_event_def hasEarlierUnprocessedDelivery_def)
  obtain w2 :: delivery_world and n2 where w2: "delivery_run rnd w2 (([] @ [Materialised (?c, ''e2'')]) @ [Handled (es_consumer sample_subscription, ''e2'')])"
    "ow_events w2 = ow_events ?w1" "dw_deliveries w2 = (dw_deliveries ?w1)((es_consumer sample_subscription, ''e2'')
       \<mapsto> finalized_row n2 (claimed_row (pr_now ?w1) ''w1'' (fresh_delivery 1000)))" "pr_now w2 = pr_now ?w1"
    by (rule handle_due [OF run1 due2, where worker = "''w1''"])
  have marks2: "delivery_run rnd w2 [Materialised (?c, ''e2''), Handled (?c, ''e2'')]" using w2(1) by simp
  let ?row2 = "finalized_row n2 (claimed_row 1000 ''w1'' (fresh_delivery 1000))"
  have at2: "ow_events w2 = [sample_outbox_row ''e1'' 1, dispatched_row ''e2'' 2]" "pr_now w2 = 1000"
    "dw_deliveries w2 = [(?c, ''e2'') \<mapsto> ?row2]"
    using w2(2-4) unfolding at1 by simp_all
  let ?w3 = "sample_dispatch (\<lambda>i. False) w2"
  have d3: "?w3 = w2\<lparr>ow_events := [dispatched_row ''e1'' 1, dispatched_row ''e2'' 2],
      dw_deliveries := (dw_deliveries w2)((?c, ''e1'') \<mapsto> fresh_delivery 1000)\<rparr>"
    by (rule dispatch_first) (simp_all add: at2)
  have run3: "delivery_run rnd ?w3 ([Materialised (?c, ''e2''), Handled (?c, ''e2'')] @ [Materialised (?c, ''e1'')])"
    by (rule dispatch_extends [OF marks2]) (simp add: d3 at2(3), auto)
  have due1: "due_delivery sample_subscription ''e1'' ?w3 (fresh_delivery 1000)"
    by (rule sample_due [where event = "dispatched_row ''e1'' 1"])
      (simp_all add: d3 at2 find_event_def hasEarlierUnprocessedDelivery_def)
  obtain w4 :: delivery_world and n4 where "delivery_run rnd w4 (([Materialised (?c, ''e2''), Handled (?c, ''e2'')]
        @ [Materialised (?c, ''e1'')]) @ [Handled (es_consumer sample_subscription, ''e1'')])"
    "ow_events w4 = ow_events ?w3" "dw_deliveries w4 = (dw_deliveries ?w3)((es_consumer sample_subscription, ''e1'')
       \<mapsto> finalized_row n4 (claimed_row (pr_now ?w3) ''w1'' (fresh_delivery 1000)))" "pr_now w4 = pr_now ?w3"
    by (rule handle_due [OF run3 due1, where worker = "''w1''"])
  then show ?thesis
    by (intro exI [of _ w4]) (simp add: d3 precedes_def find_event_def row_aggregate_def)
qed

text \<open>
  A claim that fails parks nothing. When the locked row belongs to another event name than the
  subscription's, or does not exist, the executor reports \<open>failed\<close> with no retry time, and every
  row stays as it was: not \<open>dead\<close>, no attempt counted, so discovery offers it again.
\<close>

theorem failed_claim_parks_nothing:
  assumes "fst (claimDelivery s i worker w) = Inl e"
  shows "executeDelivery rnd invoke alone s i worker w = (Inr (OutFailed e None), w)"
proof -
  obtain w' where c: "claimDelivery s i worker w = (Inl e, w')" using assms by (metis prod.collapse)
  then have "w' = w" using claimDelivery_other [OF c] by simp
  then show ?thesis using c by (simp add: executeDelivery_def)
qed

section \<open>Witnesses\<close>

definition one_delivery :: delivery_world where
  "one_delivery = delivery_start
     \<lparr>ow_events := [sample_outbox_row ''e1'' 1, dispatched_row ''e2'' 2],
      dw_deliveries := [(''chat.card'', ''e2'') \<mapsto> fresh_delivery 1000]\<rparr>"

lemma one_delivery_simps [simp]:
  "ow_events one_delivery = [sample_outbox_row ''e1'' 1, dispatched_row ''e2'' 2]"
  "dw_deliveries one_delivery = [(''chat.card'', ''e2'') \<mapsto> fresh_delivery 1000]"
  "pr_now one_delivery = 1000"
  by (simp_all add: one_delivery_def delivery_start_def)

lemma one_delivery_run: "delivery_run rnd one_delivery [Materialised (''chat.card'', ''e2'')]"
proof -
  have "sample_dispatch (\<lambda>i. i = ''e1'') delivery_start = one_delivery"
    by (simp only: dispatch_second one_delivery_def)
  then show ?thesis
    using dispatch_extends [OF delivery_start_run, of "\<lambda>i. i = ''e1''" "(''chat.card'', ''e2'')" rnd]
    by (simp add: delivery_start_def one_delivery_def)
qed

lemma one_delivery_due: "due_delivery sample_subscription ''e2'' one_delivery (fresh_delivery 1000)"
  by (rule sample_due [where event = "dispatched_row ''e2'' 2"])
    (simp_all add: find_event_def hasEarlierUnprocessedDelivery_def)

lemma one_delivery_executed:
  "\<exists>w'. executeDelivery show_nat finalize_only alone sample_subscription ''e2'' ''w1'' one_delivery
     = (Inr OutProcessed, w')"
proof -
  let ?k = "(''chat.card'', ''e2'')"
  let ?w1 = "set_delivery ?k (claimed_row 1000 ''w1'' (fresh_delivery 1000)) one_delivery"
  obtain call where body: "delivery_body show_nat finalize_only sample_subscription ''e2'' ''w1'' ?w1 =
     (case finalize_only (delivery_finalize ''chat.card'' ''e2'' ''w1'') call (?w1\<lparr>pr_uuids := Suc (pr_uuids ?w1)\<rparr>) of
        (Inl thrown, w2) \<Rightarrow> (Inl thrown, w2) | (Inr _, w2) \<Rightarrow> (Inr OutProcessed, w2))"
    using due_delivery_body [OF one_delivery_due _ refl, where worker = "''w1''" and rnd = show_nat
        and invoke = finalize_only] by auto
  have "ownedProcessingDelivery ''w1'' (claimed_row 1000 ''w1'' (fresh_delivery 1000))"
    by (simp add: ownedProcessingDelivery_def claimed_row_def)
  then show ?thesis
    using due_delivery_claim [OF one_delivery_due, of "''w1''"] body
    by (simp add: executeDelivery_def in_transaction_def finalize_only_def delivery_finalize_def)
qed

theorem deliveries_take_effect_once_witness:
  "\<exists>w'. executeDelivery show_nat finalize_only alone sample_subscription ''e2'' ''w1'' one_delivery
       = (Inr OutProcessed, w') \<and> processed_in (dw_deliveries w') (''chat.card'', ''e2'')"
proof -
  obtain w' where w': "executeDelivery show_nat finalize_only alone sample_subscription ''e2'' ''w1'' one_delivery
     = (Inr OutProcessed, w')" using one_delivery_executed by blast
  from deliveries_take_effect_once [OF one_delivery_run finalize_only_finalizes keeps_runs_alone w']
  show ?thesis using w' by simp
qed

theorem executor_always_reports_witness:
  "\<exists>outcome w'. executeDelivery show_nat finalize_only alone sample_subscription ''e1'' ''w1'' one_delivery
     = (Inr outcome, w')"
  using executor_always_reports [OF one_delivery_run finalize_only_finalizes keeps_runs_alone] by blast


theorem due_delivery_is_handled_witness:
  "\<exists>w'. executeDelivery show_nat finalize_only alone sample_subscription ''e2'' ''w1'' one_delivery
     = (Inr OutProcessed, w')"
  using due_delivery_is_handled [OF one_delivery_due, where invoke = finalize_only and handler = "\<lambda>call v. v"
      and rnd = show_nat and worker = "''w1''"]
  by (auto simp: finalize_only_def)

theorem discovery_agrees_with_claim_witness:
  "(''chat.card'', ''e2'', ''orders.confirmed'')
     \<in> set (findClaimableDeliveries [sample_subscription] 2 one_delivery)"
proof -
  have "fst (claimDelivery sample_subscription ''e2'' ''w'' one_delivery) = Inr Claimed"
    using due_delivery_claim [OF one_delivery_due, of "''w''"] by simp
  then show ?thesis
    using discovery_agrees_with_claim [OF one_delivery_run [of show_nat], where c = "''chat.card''"
        and i = "''e2''" and name = "''orders.confirmed''" and subs = "[sample_subscription]"
        and batchSize = 2 and worker = "''w''"] by simp
qed

theorem failed_claim_parks_nothing_witness:
  "executeDelivery show_nat finalize_only alone
       (sample_subscription\<lparr>es_event := sample_event\<lparr>ed_name := ''orders.paid''\<rparr>\<rparr>) ''e2'' ''w1'' one_delivery
     = (Inr (OutFailed (event_error DeliveryMisrouted) None), one_delivery)"
  by (rule failed_claim_parks_nothing)
    (simp add: claimDelivery_def lockDeliveryRow_def find_event_def assertDeliveryRouting_def)

theorem deliveries_keep_aggregate_order_witness:
  "\<exists>w :: delivery_world. \<exists>ms. delivery_run show_nat w (ms @ [Handled (''chat.card'', ''e2'')])
     \<and> precedes (ow_events w) ''e1'' ''e2'' \<and> Materialised (''chat.card'', ''e1'') \<in> set ms
     \<and> Handled (''chat.card'', ''e1'') \<in> set ms"
proof -
  let ?c = "''chat.card''"
  have d: "sample_dispatch (\<lambda>i. False) one_delivery = one_delivery
      \<lparr>ow_events := [dispatched_row ''e1'' 1, dispatched_row ''e2'' 2],
       dw_deliveries := (dw_deliveries one_delivery)((?c, ''e1'') \<mapsto> fresh_delivery 1000)\<rparr>"
    by (rule dispatch_first) simp_all
  let ?w = "sample_dispatch (\<lambda>i. False) one_delivery"
  have at: "ow_events ?w = [dispatched_row ''e1'' 1, dispatched_row ''e2'' 2]" "pr_now ?w = 1000"
    "dw_deliveries ?w = [(?c, ''e2'') \<mapsto> fresh_delivery 1000, (?c, ''e1'') \<mapsto> fresh_delivery 1000]"
    unfolding d by simp_all
  have run: "delivery_run show_nat ?w ([Materialised (?c, ''e2'')] @ [Materialised (?c, ''e1'')])"
    by (rule dispatch_extends [OF one_delivery_run]) (simp add: at(3), auto)
  have due1: "due_delivery sample_subscription ''e1'' ?w (fresh_delivery 1000)"
    by (rule sample_due [where event = "dispatched_row ''e1'' 1"])
      (simp_all add: at find_event_def hasEarlierUnprocessedDelivery_def)
  obtain w1 :: delivery_world and n1 where w1: "delivery_run show_nat w1
      (([Materialised (?c, ''e2'')] @ [Materialised (?c, ''e1'')]) @ [Handled (es_consumer sample_subscription, ''e1'')])"
    "ow_events w1 = ow_events ?w" "dw_deliveries w1 = (dw_deliveries ?w)((es_consumer sample_subscription, ''e1'')
       \<mapsto> finalized_row n1 (claimed_row (pr_now ?w) ''w1'' (fresh_delivery 1000)))" "pr_now w1 = pr_now ?w"
    by (rule handle_due [OF run due1, where worker = "''w1''"])
  have due2: "due_delivery sample_subscription ''e2'' w1 (fresh_delivery 1000)"
    by (rule sample_due [where event = "dispatched_row ''e2'' 2"])
      (simp_all add: at w1(2-4) find_event_def hasEarlierUnprocessedDelivery_def finalized_row_def)
  obtain w2 :: delivery_world and n2 where w2: "delivery_run show_nat w2
      ((([Materialised (?c, ''e2'')] @ [Materialised (?c, ''e1'')]) @ [Handled (es_consumer sample_subscription, ''e1'')])
        @ [Handled (es_consumer sample_subscription, ''e2'')])"
    "ow_events w2 = ow_events w1" "dw_deliveries w2 = (dw_deliveries w1)((es_consumer sample_subscription, ''e2'')
       \<mapsto> finalized_row n2 (claimed_row (pr_now w1) ''w1'' (fresh_delivery 1000)))" "pr_now w2 = pr_now w1"
    by (rule handle_due [OF w1(1) due2, where worker = "''w1''"])
  let ?ms = "[Materialised (?c, ''e2''), Materialised (?c, ''e1''), Handled (?c, ''e1'')]"
  have run2: "delivery_run show_nat w2 (?ms @ [Handled (?c, ''e2'')])" using w2(1) by simp
  have order: "precedes (ow_events w2) ''e1'' ''e2''"
    by (simp add: w1(2) w2(2) at(1) precedes_def find_event_def row_aggregate_def)
  have "Handled (?c, ''e1'') \<in> set ?ms"
    by (rule deliveries_keep_aggregate_order [OF run2 _ order, of _ _ "[]"]) simp_all
  then show ?thesis using run2 order by (intro exI [of _ w2] exI [of _ ?ms]) simp
qed

end
