(* ===== verification/Jobs.thy ===== *)
theory Jobs
  imports Outbox Idempotency
begin

text \<open>
  Jobs: their declaration (\<open>jobs/define-job.ts\<close>, \<open>jobs/job-payload.ts\<close>), the identity of a send
  (\<open>runtime/jobs/job-identity.ts\<close>), the enqueue buffer behind \<open>ctx.enqueue\<close>
  (\<open>runtime/jobs/enqueue.ts\<close>) and the invocation that a delivered job makes
  (\<open>runtime/jobs/execute-job-action.ts\<close>). The Zod parse of a payload and SHA-256 are parameters,
  and so is the port that stores the envelopes (\<open>packages/jobs\<close>).
\<close>

section \<open>Payloads\<close>

datatype job_field =
    UuidField
  | EnumField "js_string list"
  | LiteralField js_string
  | IntegerField "js_number option" "js_number option"
  | ForeignField

definition MAX_SAFE_INTEGER :: int where
  "MAX_SAFE_INTEGER = 2 ^ 53 - 1"

definition isOptionalSafeInteger :: "js_number option \<Rightarrow> bool" where
  "isOptionalSafeInteger bound =
     (case bound of
        None \<Rightarrow> True
      | Some (JsInt i) \<Rightarrow> \<bar>i\<bar> \<le> MAX_SAFE_INTEGER
      | Some JsNonInt \<Rightarrow> False)"

definition isCoreJobField :: "job_field \<Rightarrow> bool" where
  "isCoreJobField f =
     (case f of
        IntegerField lower upper \<Rightarrow> isOptionalSafeInteger lower \<and> isOptionalSafeInteger upper
      | ForeignField \<Rightarrow> False
      | _ \<Rightarrow> True)"

datatype job_payload = CorePayload "(js_string \<times> job_field) list" | ForeignPayload

section \<open>Declarations\<close>

datatype job_lifecycle = Expires | Periodic

record job =
  jd_name :: js_string
  jd_scope :: system_scope
  jd_payload :: job_payload
  jd_discriminator :: "js_string list"
  jd_lifecycle :: job_lifecycle
  jd_onExhausted :: "js_string option"
  jd_retries :: js_number
  jd_attemptTimeoutMs :: js_number
  jd_concurrency :: js_number
  jd_cron :: "js_string option"

subsection \<open>Cron expressions\<close>

record cron_range =
  cr_min :: nat
  cr_max :: nat
  cr_names :: "js_string list"

definition CRON_SECONDS :: cron_range where
  "CRON_SECONDS = \<lparr>cr_min = 0, cr_max = 59, cr_names = []\<rparr>"

definition CRON_FIVE_FIELDS :: "cron_range list" where
  "CRON_FIVE_FIELDS = [
     \<lparr>cr_min = 0, cr_max = 59, cr_names = []\<rparr>,
     \<lparr>cr_min = 0, cr_max = 23, cr_names = []\<rparr>,
     \<lparr>cr_min = 1, cr_max = 31, cr_names = []\<rparr>,
     \<lparr>cr_min = 1, cr_max = 12, cr_names = [''JAN'', ''FEB'', ''MAR'', ''APR'', ''MAY'', ''JUN'',
        ''JUL'', ''AUG'', ''SEP'', ''OCT'', ''NOV'', ''DEC'']\<rparr>,
     \<lparr>cr_min = 0, cr_max = 7, cr_names = [''SUN'', ''MON'', ''TUE'', ''WED'', ''THU'', ''FRI'', ''SAT'']\<rparr>]"

definition all_digits :: "js_string \<Rightarrow> bool" where
  "all_digits s = (s \<noteq> [] \<and> list_all is_digit s)"

definition digits_value :: "js_string \<Rightarrow> nat" where
  "digits_value s = foldl (\<lambda>v c. 10 * v + (char_code c - 48)) 0 s"

definition to_upper :: "char \<Rightarrow> char" where
  "to_upper c = (if is_lower c then char_of (char_code c - 32) else c)"

fun index_of :: "'a \<Rightarrow> 'a list \<Rightarrow> nat option" where
  "index_of x [] = None"
| "index_of x (y # ys) = (if x = y then Some 0 else map_option Suc (index_of x ys))"

definition cronValue :: "js_string \<Rightarrow> cron_range \<Rightarrow> nat option" where
  "cronValue token rng =
     (if all_digits token
      then (let v = digits_value token in if cr_min rng \<le> v \<and> v \<le> cr_max rng then Some v else None)
      else map_option (\<lambda>i. i + (if cr_min rng = 1 then 1 else 0))
        (index_of (map to_upper token) (cr_names rng)))"

text \<open>\<open>[0-9]+|[A-Za-z]{3}\<close>\<close>

definition cron_token :: "js_string \<Rightarrow> bool" where
  "cron_token t = (all_digits t \<or> (length t = 3 \<and> list_all (\<lambda>c. is_lower c \<or> is_upper c) t))"

text \<open>
  \<open>CRON_TERM_PATTERN\<close>: the start, end and step that the groups of a match hold. Neither a dash
  nor a slash occurs inside a token, so splitting at them finds the groups.
\<close>

definition CRON_TERM_PATTERN ::
  "js_string \<Rightarrow> (js_string option \<times> js_string option \<times> js_string option) option" where
  "CRON_TERM_PATTERN term =
     (let body = (\<lambda>b step.
        if b = ''*'' then Some (None, None, step)
        else case split_on CHR ''-'' b of
          [start] \<Rightarrow> if cron_token start then Some (Some start, None, step) else None
        | [start, stop] \<Rightarrow>
            if cron_token start \<and> cron_token stop then Some (Some start, Some stop, step) else None
        | _ \<Rightarrow> None)
      in case split_on CHR ''/'' term of
           [b] \<Rightarrow> body b None
         | [b, step] \<Rightarrow> if all_digits step then body b (Some step) else None
         | _ \<Rightarrow> None)"

definition isCronTerm :: "js_string \<Rightarrow> cron_range \<Rightarrow> bool" where
  "isCronTerm term rng =
     (case CRON_TERM_PATTERN term of
        None \<Rightarrow> False
      | Some (start, stop, step) \<Rightarrow>
          (case step of Some n \<Rightarrow> \<not> digits_value n < 1 | None \<Rightarrow> True)
          \<and> (case start of
               None \<Rightarrow> True
             | Some s \<Rightarrow>
                 (case cronValue s rng of
                    None \<Rightarrow> False
                  | Some lower \<Rightarrow>
                      (case stop of
                         None \<Rightarrow> True
                       | Some e \<Rightarrow>
                           (case cronValue e rng of None \<Rightarrow> False | Some upper \<Rightarrow> lower \<le> upper)))))"

text \<open>\<open>split(/\s+/)\<close>\<close>

function split_spaces :: "js_string \<Rightarrow> js_string list" where
  "split_spaces s =
     (let rest = dropWhile (\<lambda>c. \<not> is_js_space c) s in
      if rest = [] then [s]
      else takeWhile (\<lambda>c. \<not> is_js_space c) s # split_spaces (dropWhile is_js_space rest))"
  by pat_completeness auto
termination
proof (relation "measure length")
  fix s rest :: js_string assume rest: "rest = dropWhile (\<lambda>c. \<not> is_js_space c) s" "rest \<noteq> []"
  then have "is_js_space (hd rest)" using hd_dropWhile [of "\<lambda>c. \<not> is_js_space c" s] by auto
  then obtain c cs where "rest = c # cs" "is_js_space c" using rest(2) by (cases rest) auto
  then have "length (dropWhile is_js_space rest) < length rest"
    using length_dropWhile_le [of is_js_space cs] by simp
  also have "\<dots> \<le> length s" using length_dropWhile_le [of "\<lambda>c. \<not> is_js_space c" s] rest(1) by simp
  finally show "(dropWhile is_js_space rest, s) \<in> measure length" by simp
qed simp

declare split_spaces.simps [simp del]

definition isCronExpression :: "js_string \<Rightarrow> bool" where
  "isCronExpression cron =
     (let fields = split_spaces (js_trim cron);
          ranges = (if length fields = 6 then Some (CRON_SECONDS # CRON_FIVE_FIELDS)
                    else if length fields = 5 then Some CRON_FIVE_FIELDS else None)
      in case ranges of
           None \<Rightarrow> False
         | Some rs \<Rightarrow> list_all2 (\<lambda>field rng.
             list_all (\<lambda>term. isCronTerm term rng) (split_on CHR '','' field)) fields rs)"

subsection \<open>Validation\<close>

datatype job_problem =
    BadJobName
  | PayloadNotCore
  | FieldNotCore js_string
  | DiscriminatorNotField js_string
  | DiscriminatorDuplicate
  | RetriesNotNatural
  | TimeoutNotPositive
  | ConcurrencyNotPositive
  | OnExhaustedMissing
  | OnExhaustedNotAction
  | OnExhaustedOtherModule
  | CronNotAllowed
  | CronRequired
  | OnExhaustedNotAllowed

definition validatePayload :: "job \<Rightarrow> job_problem list" where
  "validatePayload definition' =
     (case jd_payload definition' of
        ForeignPayload \<Rightarrow> [PayloadNotCore]
      | CorePayload shape \<Rightarrow>
          concat (map (\<lambda>(field, schema). push_if (\<not> isCoreJobField schema) (FieldNotCore field)) shape)
          @ concat (map (\<lambda>key. push_if (key \<notin> fst ` set shape) (DiscriminatorNotField key))
              (jd_discriminator definition'))
          @ push_if (has_duplicates (jd_discriminator definition')) DiscriminatorDuplicate)"

definition validateExpiring :: "job \<Rightarrow> job_problem list" where
  "validateExpiring definition' =
     (case jd_onExhausted definition' of
        None \<Rightarrow> [OnExhaustedMissing]
      | Some onExhausted \<Rightarrow>
          if \<not> ACTION_NAME_PATTERN onExhausted then [OnExhaustedNotAction]
          else push_if (ACTION_NAME_PATTERN (jd_name definition')
            \<and> moduleOf onExhausted \<noteq> moduleOf (jd_name definition')) OnExhaustedOtherModule)
     @ push_if (jd_cron definition' \<noteq> None) CronNotAllowed"

definition validatePeriodic :: "job \<Rightarrow> job_problem list" where
  "validatePeriodic definition' =
     push_if (case jd_cron definition' of None \<Rightarrow> True | Some cron \<Rightarrow> \<not> isCronExpression cron) CronRequired
     @ push_if (jd_onExhausted definition' \<noteq> None) OnExhaustedNotAllowed"

definition natural_number :: "js_number \<Rightarrow> bool" where
  "natural_number n = (case n of JsInt i \<Rightarrow> 0 \<le> i | JsNonInt \<Rightarrow> False)"

definition collectJobDefinitionProblems :: "job \<Rightarrow> job_problem list" where
  "collectJobDefinitionProblems definition' =
     push_if (\<not> ACTION_NAME_PATTERN (jd_name definition')) BadJobName
     @ validatePayload definition'
     @ push_if (\<not> natural_number (jd_retries definition')) RetriesNotNatural
     @ push_if (\<not> positive_integer (jd_attemptTimeoutMs definition')) TimeoutNotPositive
     @ push_if (\<not> positive_integer (jd_concurrency definition')) ConcurrencyNotPositive
     @ (if jd_lifecycle definition' = Expires then validateExpiring definition'
        else validatePeriodic definition')"

definition defineJob :: "job \<Rightarrow> job_problem list + job" where
  "defineJob definition' =
     (let problems = collectJobDefinitionProblems definition' in
      if length problems > 0 then Inl problems else Inr definition')"

section \<open>Identity of a send\<close>

datatype job_origin =
    FromIdempotency js_string js_string js_string js_string
  | FromExecution js_string

definition jobOriginFor :: "js_string \<Rightarrow> protocol_env option \<Rightarrow> core_error + job_origin" where
  "jobOriginFor executionId reservedIdentity =
     (case reservedIdentity of
        None \<Rightarrow> Inr (FromExecution executionId)
      | Some identity \<Rightarrow>
          res_bind (principalKeyFor identity) (\<lambda>principalKey.
          res_bind (scopeKeyFor identity) (\<lambda>scopeKey.
          res_bind (requireIdempotencyKey (pe_request identity)) (\<lambda>key.
            Inr (FromIdempotency principalKey scopeKey (ac_name (pe_contract identity)) key)))))"

type_synonym payload_object = "(js_string \<times> json) list"

definition field_of :: "payload_object \<Rightarrow> js_string \<Rightarrow> json" where
  "field_of payload key = (case map_of payload key of None \<Rightarrow> JUndefined | Some v \<Rightarrow> v)"

definition jobDiscriminatorValues :: "job \<Rightarrow> payload_object \<Rightarrow> payload_object" where
  "jobDiscriminatorValues job payload =
     map (\<lambda>key. (key, field_of payload key)) (remdups_first (jd_discriminator job))"

fun origin_json :: "job_origin \<Rightarrow> json" where
  "origin_json (FromIdempotency principalKey scopeKey action key) = JObject [
     (''kind'', JString ''idempotency''), (''principalKey'', JString principalKey),
     (''scopeKey'', JString scopeKey), (''action'', JString action), (''idempotencyKey'', JString key)]"
| "origin_json (FromExecution executionId) = JObject [
     (''kind'', JString ''execution''), (''executionId'', JString executionId)]"

definition hex_value :: "char \<Rightarrow> nat option" where
  "hex_value c =
     (let n = char_code c in
      if is_digit c then Some (n - 48)
      else if 97 \<le> n \<and> n \<le> 102 then Some (n - 87)
      else if 65 \<le> n \<and> n \<le> 70 then Some (n - 55) else None)"

text \<open>\<open>Buffer.from(text, "hex")\<close> stops at the first pair that is not hexadecimal.\<close>

fun hex_decode :: "js_string \<Rightarrow> byte list" where
  "hex_decode (c # d # cs) =
     (case (hex_value c, hex_value d) of
        (Some a, Some b) \<Rightarrow> word_of_nat (16 * a + b) # hex_decode cs
      | _ \<Rightarrow> [])"
| "hex_decode _ = []"

definition byte_at :: "byte list \<Rightarrow> nat \<Rightarrow> byte" where
  "byte_at bytes i = (if i < length bytes then bytes ! i else 0)"

text \<open>The text of the identifier: sixteen bytes of the digest, stamped as a version 8 UUID.\<close>

definition job_id_of_digest :: "js_string \<Rightarrow> js_string" where
  "job_id_of_digest digest =
     (let bytes = take 16 (hex_decode digest) in
      uuid_text (bytes[6 := (byte_at bytes 6 AND 0x0f) OR 0x80, 8 := (byte_at bytes 8 AND 0x3f) OR 0x80]))"

definition send_json :: "job \<Rightarrow> js_string option \<Rightarrow> job_origin \<Rightarrow> payload_object \<Rightarrow> json" where
  "send_json job companyId origin payload = JObject [
     (''module'', JString (moduleOf (jd_name job))), (''job'', JString (jd_name job)),
     (''companyId'', case companyId of None \<Rightarrow> JNull | Some c \<Rightarrow> JString c),
     (''origin'', origin_json origin),
     (''discriminator'', JObject (jobDiscriminatorValues job payload))]"

definition deriveJobId ::
  "(js_string \<Rightarrow> js_string) \<Rightarrow> job \<Rightarrow> js_string option \<Rightarrow> job_origin \<Rightarrow> payload_object \<Rightarrow>
     core_error + js_string" where
  "deriveJobId sha256 job companyId origin payload =
     res_bind (canonicalJsonSha256OfUnknown sha256 (send_json job companyId origin payload))
       (\<lambda>digest. Inr (job_id_of_digest digest))"

section \<open>The enqueue buffer\<close>

record job_envelope =
  je_id :: js_string
  je_name :: js_string
  je_companyId :: "js_string option"
  je_actor :: actor
  je_channel :: channel
  je_requestId :: js_string
  je_correlationId :: js_string
  je_executionId :: js_string
  je_payload :: payload_object

type_synonym 'w job_port = "job_envelope list \<Rightarrow> ('w, thrown, unit) eff"

record enqueue_buffer =
  qb_executionId :: js_string
  qb_buffered :: "(job \<times> payload_object) list"
  qb_sendKeys :: "js_string list"
  qb_sealed :: bool

definition createEnqueueBuffer :: "js_string \<Rightarrow> enqueue_buffer" where
  "createEnqueueBuffer executionId =
     \<lparr>qb_executionId = executionId, qb_buffered = [], qb_sendKeys = [], qb_sealed = False\<rparr>"

definition send_key :: "js_string \<Rightarrow> js_string \<Rightarrow> js_string" where
  "send_key name digest = name @ CHR 0x00 # digest"

definition enqueue ::
  "(js_string \<Rightarrow> js_string) \<Rightarrow> (job \<Rightarrow> json \<Rightarrow> zod_issue list + payload_object) \<Rightarrow>
     action_contract \<Rightarrow> job \<Rightarrow> json \<Rightarrow> enqueue_buffer \<Rightarrow> core_error + enqueue_buffer" where
  "enqueue sha256 zod contract job payload buffer =
     (if qb_sealed buffer then Inl (job_error EnqueueAfterFlush)
      else if ac_risk contract = RiskRead then Inl (job_error EnqueueFromRead)
      else if jd_name job \<notin> set (case ac_enqueues contract of None \<Rightarrow> [] | Some names \<Rightarrow> names)
      then Inl (job_error EnqueueUndeclared)
      else case zod job payload of
        Inl _ \<Rightarrow> Inl (job_error EnqueuePayloadMismatch)
      | Inr parsed \<Rightarrow>
          res_bind (canonicalJsonSha256OfUnknown sha256 (JObject (jobDiscriminatorValues job parsed)))
            (\<lambda>digest.
              let sendKey = send_key (jd_name job) digest in
              if sendKey \<in> set (qb_sendKeys buffer) then Inl (job_error EnqueueDuplicate)
              else Inr (buffer\<lparr>qb_sendKeys := qb_sendKeys buffer @ [sendKey],
                          qb_buffered := qb_buffered buffer @ [(job, parsed)]\<rparr>)))"

definition jobCompanyId :: "job \<Rightarrow> action_ctx \<Rightarrow> core_error + js_string option" where
  "jobCompanyId job ctx =
     (if jd_scope job = GlobalScope then Inr None
      else case effectiveCompanyId ctx of
        None \<Rightarrow> Inl (job_error TenantJobWithoutCompany)
      | Some companyId \<Rightarrow> Inr (Some companyId))"

definition job_envelope_for ::
  "(js_string \<Rightarrow> js_string) \<Rightarrow> action_ctx \<Rightarrow> job_origin \<Rightarrow> js_string \<Rightarrow> job \<times> payload_object \<Rightarrow>
     core_error + job_envelope" where
  "job_envelope_for sha256 ctx origin executionId = (\<lambda>(job, payload).
     res_bind (jobCompanyId job ctx) (\<lambda>companyId.
     res_bind (deriveJobId sha256 job companyId origin payload) (\<lambda>i.
       Inr \<lparr>je_id = i, je_name = jd_name job, je_companyId = companyId, je_actor = event_actor ctx,
            je_channel = bc_channel (ctx_base ctx), je_requestId = bc_requestId (ctx_base ctx),
            je_correlationId = bc_correlationId (ctx_base ctx), je_executionId = executionId,
            je_payload = payload\<rparr>)))"

definition enqueue_flush ::
  "(js_string \<Rightarrow> js_string) \<Rightarrow> action_ctx \<Rightarrow> job_origin \<Rightarrow> 'w job_port option \<Rightarrow> enqueue_buffer \<Rightarrow>
     ('w, thrown, enqueue_buffer) eff" where
  "enqueue_flush sha256 ctx origin port buffer w =
     (let sealed = buffer\<lparr>qb_sealed := True\<rparr> in
      if qb_buffered buffer = [] then (Inr sealed, w)
      else case port of
        None \<Rightarrow> (Inl (Typed (job_error JobPortMissingAtFlush)), w)
      | Some store \<Rightarrow>
          if event_actor ctx = AnonymousActor
          then (Inl (Typed (job_error AnonymousJobActor)), w)
          else case res_all (map (job_envelope_for sha256 ctx origin (qb_executionId buffer)) (qb_buffered buffer)) of
            Inl e \<Rightarrow> (Inl (Typed e), w)
          | Inr envelopes \<Rightarrow>
              (case store envelopes w of
                 (Inl e, w') \<Rightarrow> (Inl e, w')
               | (Inr _, w') \<Rightarrow> (Inr sealed, w')))"

section \<open>Running a job\<close>

datatype job_refusal =
    OtherJobName
  | CompanyScopeMismatch
  | NotSystemAction
  | OtherModule
  | EnqueuesWithoutIdempotency

definition envelopeRefusal :: "job \<Rightarrow> job_envelope \<Rightarrow> job_refusal option" where
  "envelopeRefusal job envelope =
     (if je_name envelope \<noteq> jd_name job then Some OtherJobName
      else if (je_companyId envelope = None) \<noteq> (jd_scope job = GlobalScope) then Some CompanyScopeMismatch
      else None)"

definition actionRefusal :: "job_envelope \<Rightarrow> action_contract \<Rightarrow> job_refusal option" where
  "actionRefusal envelope contract =
     (if ac_principal contract \<noteq> System then Some NotSystemAction
      else if moduleOf (ac_name contract) \<noteq> moduleOf (je_name envelope) then Some OtherModule
      else if length (case ac_enqueues contract of None \<Rightarrow> [] | Some names \<Rightarrow> names) > 0
        \<and> \<not> ac_idempotent contract then Some EnqueuesWithoutIdempotency
      else None)"

definition refuseUnlessRunnable :: "job \<Rightarrow> job_envelope \<Rightarrow> action_contract \<Rightarrow> core_error + unit" where
  "refuseUnlessRunnable job envelope contract =
     (case (case envelopeRefusal job envelope of
              None \<Rightarrow> actionRefusal envelope contract | Some r \<Rightarrow> Some r) of
        Some _ \<Rightarrow> Inl (job_error JobRefused)
      | None \<Rightarrow> Inr ())"

definition recordedScope ::
  "job \<Rightarrow> job_envelope \<Rightarrow> js_string option \<Rightarrow> core_error + system_scope_input" where
  "recordedScope job envelope fanOutCompanyId =
     (case fanOutCompanyId of
        None \<Rightarrow> Inr (case je_companyId envelope of None \<Rightarrow> GlobalScopeInput | Some c \<Rightarrow> TenantScope c)
      | Some company \<Rightarrow>
          if jd_scope job \<noteq> GlobalScope \<or> jd_lifecycle job \<noteq> Periodic
          then Inl (job_error JobFanOutRefused)
          else Inr (TenantScope company))"

definition job_request :: "job_envelope \<Rightarrow> action_contract \<Rightarrow> hook_request_meta" where
  "job_request envelope contract =
     \<lparr>rq_action = ac_name contract, rq_requestId = je_requestId envelope,
      rq_correlationId = je_correlationId envelope, rq_channel = je_channel envelope,
      rq_clientIp = None, rq_aiTraceId = None, rq_toolCallId = None,
      rq_causationId = Some (je_id envelope),
      rq_idempotencyKey = (if ac_idempotent contract then Some (je_id envelope) else None),
      rq_confirmationChallengeId = None, rq_requireConfirmation = False, rq_confirmationOnly = False\<rparr>"

text \<open>\<open>execute\<close> is \<open>executeAction\<close> of the bound action.\<close>

definition executeJobAction ::
  "(hook_request_meta \<Rightarrow> principal_invocation \<Rightarrow> json \<Rightarrow> ('w, core_error, 'r) eff) \<Rightarrow>
     job \<Rightarrow> job_envelope \<Rightarrow> action_contract \<Rightarrow> json \<Rightarrow> js_string option \<Rightarrow> ('w, core_error, 'r) eff" where
  "executeJobAction execute job envelope contract input fanOutCompanyId w =
     (case refuseUnlessRunnable job envelope contract of
        Inl e \<Rightarrow> (Inl e, w)
      | Inr _ \<Rightarrow>
     (case recordedScope job envelope fanOutCompanyId of
        Inl e \<Rightarrow> (Inl e, w)
      | Inr scope \<Rightarrow>
          execute (job_request envelope contract) (InvokeSystem (je_name envelope) scope True) input w))"

end
