(* ===== verification/Job_Proofs.thy ===== *)
theory Job_Proofs
  imports Jobs Json_Unique Outbox_Proofs
begin

text \<open>
  What the job protocol promises: the identifier of a send is a function of what identifies the
  send and, short of a digest collision, tells any two sends apart; one execution never sends the
  same identifier twice; and a delivered job runs with the authority its envelope recorded.
\<close>

section \<open>Identifiers\<close>

definition send_text :: "job \<Rightarrow> js_string option \<Rightarrow> job_origin \<Rightarrow> payload_object \<Rightarrow> core_error + js_string" where
  "send_text job companyId origin payload = canonicalJson (send_json job companyId origin payload)"

lemma deriveJobId_Inr:
  "deriveJobId sha256 job c origin payload = Inr i \<longleftrightarrow>
     (\<exists>t. send_text job c origin payload = Inr t \<and> i = job_id_of_digest (sha256 t))"
  by (auto simp: deriveJobId_def send_text_def canonicalJsonSha256OfUnknown_def canonicalJsonSha256_def eff_simps)

lemma normal_origin_eq: "normal (origin_json a) = normal (origin_json b) \<longleftrightarrow> a = b"
  by (cases a; cases b) (auto simp: sorted_members_def)

lemma normal_send_eq:
  "normal (send_json j c a p) = normal (send_json k d b q) \<longleftrightarrow>
     jd_name j = jd_name k \<and> c = d \<and> a = b
     \<and> normal (JObject (jobDiscriminatorValues j p)) = normal (JObject (jobDiscriminatorValues k q))"
  using normal_origin_eq [of a b]
  by (cases c; cases d) (auto simp: send_json_def sorted_members_def simp del: origin_json.simps)


section \<open>One execution\<close>

text \<open>The buffers that \<open>ctx.enqueue\<close> can produce.\<close>

inductive enqueued ::
  "(js_string \<Rightarrow> js_string) \<Rightarrow> (job \<Rightarrow> json \<Rightarrow> zod_issue list + payload_object) \<Rightarrow> action_contract \<Rightarrow>
     enqueue_buffer \<Rightarrow> bool" for sha256 zod contract where
  created: "enqueued sha256 zod contract (createEnqueueBuffer executionId)"
| sent: "enqueued sha256 zod contract buffer \<Longrightarrow> enqueue sha256 zod contract job payload buffer = Inr buffer' \<Longrightarrow>
    enqueued sha256 zod contract buffer'"

definition key_of :: "(js_string \<Rightarrow> js_string) \<Rightarrow> job \<times> payload_object \<Rightarrow> core_error + js_string" where
  "key_of sha256 = (\<lambda>(job, payload).
     res_bind (canonicalJsonSha256OfUnknown sha256 (JObject (jobDiscriminatorValues job payload)))
       (\<lambda>digest. Inr (send_key (jd_name job) digest)))"

lemma enqueue_Inr:
  assumes "enqueue sha256 zod contract job payload buffer = Inr buffer'"
  obtains parsed key where "zod job payload = Inr parsed" "key_of sha256 (job, parsed) = Inr key"
    "key \<notin> set (qb_sendKeys buffer)" "qb_sendKeys buffer' = qb_sendKeys buffer @ [key]"
    "qb_buffered buffer' = qb_buffered buffer @ [(job, parsed)]"
    "qb_executionId buffer' = qb_executionId buffer" "ac_risk contract \<noteq> RiskRead"
    "jd_name job \<in> set (case ac_enqueues contract of None \<Rightarrow> [] | Some names \<Rightarrow> names)"
  using assms
  by (auto simp: enqueue_def key_of_def Let_def split: if_splits sum.splits simp: eff_simps)

lemma enqueued_keys:
  assumes "enqueued sha256 zod contract buffer"
  shows "distinct (qb_sendKeys buffer)
     \<and> map (key_of sha256) (qb_buffered buffer) = map Inr (qb_sendKeys buffer)
     \<and> (\<forall>jp \<in> set (qb_buffered buffer). jd_name (fst jp) \<in> set (case ac_enqueues contract of None \<Rightarrow> [] | Some ns \<Rightarrow> ns))"
  using assms
proof (induction rule: enqueued.induct)
  case (created executionId)
  then show ?case by (simp add: createEnqueueBuffer_def)
next
  case (sent buffer job payload buffer')
  then show ?case by (elim enqueue_Inr) auto
qed

text \<open>Different discriminator texts are what different keys of one job come from.\<close>

lemma key_of_normal:
  assumes "key_of sha256 (j, p) = Inr a" and "key_of sha256 (k, q) = Inr b"
    and "jd_name j = jd_name k"
    and "normal (JObject (jobDiscriminatorValues j p)) = normal (JObject (jobDiscriminatorValues k q))"
  shows "a = b"
proof -
  obtain s t where st: "canonicalJson (JObject (jobDiscriminatorValues j p)) = Inr s"
    "canonicalJson (JObject (jobDiscriminatorValues k q)) = Inr t"
    "a = send_key (jd_name j) (sha256 s)" "b = send_key (jd_name k) (sha256 t)"
    using assms(1,2)
    by (auto simp: key_of_def canonicalJsonSha256OfUnknown_def canonicalJsonSha256_def eff_simps)
  then show ?thesis using canonical_eq_iff [OF st(1,2)] assms(3,4) by simp
qed

lemma distinct_by_nth:
  "(\<And>m n. m < n \<Longrightarrow> n < length xs \<Longrightarrow> xs ! m \<noteq> xs ! n) \<Longrightarrow> distinct xs"
  unfolding distinct_conv_nth by (metis linorder_neqE_nat)

definition enqueue_texts ::
  "action_ctx \<Rightarrow> job_origin \<Rightarrow> enqueue_buffer \<Rightarrow> js_string set" where
  "enqueue_texts ctx origin buffer =
     {t. \<exists>(j, p) \<in> set (qb_buffered buffer). \<exists>c. jobCompanyId j ctx = Inr c \<and> send_text j c origin p = Inr t}"

lemma job_envelope_for_Inr:
  assumes "job_envelope_for sha256 ctx origin x (j, p) = Inr e"
  obtains c t where "jobCompanyId j ctx = Inr c" "send_text j c origin p = Inr t"
    "je_id e = job_id_of_digest (sha256 t)" "je_name e = jd_name j" "je_companyId e = c"
  using assms by (auto simp: job_envelope_for_def eff_simps deriveJobId_Inr)

text \<open>
  One execution never sends an identifier twice. The envelopes that the flush of a buffer hands
  to the job port are those of the accepted \<open>ctx.enqueue\<close> calls, in their order, all declared by the
  contract, and their identifiers are distinct unless kept digest bits collide; so the store's
  deduplication by identifier never drops a send of the execution itself.
\<close>

theorem sends_of_one_execution_are_distinct:
  assumes "enqueued sha256 zod contract buffer"
    and "inj_on (\<lambda>t. job_id_of_digest (sha256 t)) (enqueue_texts ctx origin buffer)"
    and "res_all (map (job_envelope_for sha256 ctx origin (qb_executionId buffer)) (qb_buffered buffer)) = Inr envelopes"
  shows "distinct (map je_id envelopes) \<and> map je_name envelopes = map (jd_name \<circ> fst) (qb_buffered buffer)
     \<and> set (map je_name envelopes) \<subseteq> set (case ac_enqueues contract of None \<Rightarrow> [] | Some ns \<Rightarrow> ns)"
proof -
  let ?q = "qb_buffered buffer" and ?id = "\<lambda>t. job_id_of_digest (sha256 t)"
  note keys = enqueued_keys [OF assms(1)]
  have es: "map (job_envelope_for sha256 ctx origin (qb_executionId buffer)) ?q = map Inr envelopes"
    using assms(3) by (simp add: res_all_Inr)
  then have len: "length envelopes = length ?q" by (metis length_map)
  have at: "job_envelope_for sha256 ctx origin (qb_executionId buffer) (?q ! n) = Inr (envelopes ! n)"
    if "n < length ?q" for n using that es len by (metis nth_map)
  have key: "key_of sha256 (?q ! n) = Inr (qb_sendKeys buffer ! n)" if "n < length ?q" for n
    using that keys by (metis length_map nth_map)
  have names: "je_name (envelopes ! n) = jd_name (fst (?q ! n))" if "n < length ?q" for n
    using at [OF that] by (cases "?q ! n") (auto elim: job_envelope_for_Inr)
  have "distinct (map je_id envelopes)"
  proof (rule distinct_by_nth)
    fix m n assume mn: "m < n" "n < length (map je_id envelopes)"
    then have m: "m < length ?q" and n: "n < length ?q" using len by simp_all
    obtain j p where jp: "?q ! m = (j, p)" by fastforce
    obtain k q where kq: "?q ! n = (k, q)" by fastforce
    obtain c s where s: "jobCompanyId j ctx = Inr c" "send_text j c origin p = Inr s" "je_id (envelopes ! m) = ?id s"
      using at [OF m] jp by (auto elim: job_envelope_for_Inr)
    obtain d t where t: "jobCompanyId k ctx = Inr d" "send_text k d origin q = Inr t" "je_id (envelopes ! n) = ?id t"
      using at [OF n] kq by (auto elim: job_envelope_for_Inr)
    have "(j, p) \<in> set ?q" "(k, q) \<in> set ?q" using nth_mem [OF m] nth_mem [OF n] jp kq by simp_all
    then have mem: "s \<in> enqueue_texts ctx origin buffer" "t \<in> enqueue_texts ctx origin buffer"
      using s(1,2) t(1,2) by (auto simp: enqueue_texts_def)
    have "qb_sendKeys buffer ! m \<noteq> qb_sendKeys buffer ! n"
      using keys m n mn(1) by (metis distinct_conv_nth length_map less_not_refl)
    then have "jd_name j = jd_name k \<longrightarrow>
        normal (JObject (jobDiscriminatorValues j p)) \<noteq> normal (JObject (jobDiscriminatorValues k q))"
      using key_of_normal [of sha256 j p _ k q] key [OF m] key [OF n] jp kq by auto
    then have "normal (send_json j c origin p) \<noteq> normal (send_json k d origin q)"
      by (auto simp: normal_send_eq)
    then have "s \<noteq> t"
      using canonical_eq_iff [of "send_json j c origin p" s "send_json k d origin q" t] s(2) t(2)
      by (simp add: send_text_def)
    then have "?id s \<noteq> ?id t" using inj_on_eq_iff [OF assms(2) mem] by simp
    then show "map je_id envelopes ! m \<noteq> map je_id envelopes ! n" using s(3) t(3) m n len by simp
  qed
  moreover have "map je_name envelopes = map (jd_name \<circ> fst) ?q"
    by (rule nth_equalityI) (use names len in simp_all)
  ultimately show ?thesis using keys by auto
qed

section \<open>Authority\<close>

text \<open>
  A delivered job keeps the authority of its envelope. When \<open>executeJobAction\<close> calls the
  pipeline at all, the action is a system action of the job's own module, the envelope is that of
  the declared job with a company exactly for a tenant job, the scope is the recorded one (or, for
  a global periodic job only, a company it fans out to) whose company must exist, the emitted
  chain hangs below the job, and an idempotent action is keyed by the job identifier, so that a
  retried attempt replays; an action that enqueues is always idempotent.
\<close>

theorem jobs_keep_recorded_authority:
  assumes "executeJobAction execute job envelope contract input fanOut w
     \<noteq> (Inl (job_error JobRefused), w)"
    and "executeJobAction execute job envelope contract input fanOut w
     \<noteq> (Inl (job_error JobFanOutRefused), w)"
  shows "\<exists>request scope. executeJobAction execute job envelope contract input fanOut w
       = execute request (InvokeSystem (je_name envelope) scope True) input w
     \<and> ac_principal contract = System \<and> moduleOf (ac_name contract) = moduleOf (jd_name job)
     \<and> je_name envelope = jd_name job \<and> (je_companyId envelope = None) = (jd_scope job = GlobalScope)
     \<and> (fanOut = None \<longrightarrow> scope_company scope = je_companyId envelope)
     \<and> (scope_company scope \<noteq> je_companyId envelope \<longrightarrow> jd_scope job = GlobalScope \<and> jd_lifecycle job = Periodic)
     \<and> rq_causationId request = Some (je_id envelope) \<and> rq_correlationId request = je_correlationId envelope
     \<and> (ac_idempotent contract \<longrightarrow> rq_idempotencyKey request = Some (je_id envelope))
     \<and> (ac_enqueues contract = None \<or> ac_enqueues contract = Some [] \<or> ac_idempotent contract)"
proof -
  have ok: "envelopeRefusal job envelope = None" "actionRefusal envelope contract = None"
    using assms(1) by (auto simp: executeJobAction_def refuseUnlessRunnable_def split: option.splits)
  obtain scope where scope: "recordedScope job envelope fanOut = Inr scope"
    using assms(2) ok by (cases "recordedScope job envelope fanOut")
      (auto simp: executeJobAction_def refuseUnlessRunnable_def recordedScope_def split: option.splits if_splits)
  have "executeJobAction execute job envelope contract input fanOut w
      = execute (job_request envelope contract) (InvokeSystem (je_name envelope) scope True) input w"
    using ok scope by (simp add: executeJobAction_def refuseUnlessRunnable_def)
  moreover have "fanOut = None \<longrightarrow> scope_company scope = je_companyId envelope"
    using scope by (auto simp: recordedScope_def split: option.splits)
  moreover have "scope_company scope \<noteq> je_companyId envelope \<longrightarrow> jd_scope job = GlobalScope \<and> jd_lifecycle job = Periodic"
    using scope by (auto simp: recordedScope_def split: option.splits if_splits)
  ultimately show ?thesis using ok
    by (intro exI [of _ "job_request envelope contract"] exI [of _ scope])
      (auto simp: envelopeRefusal_def actionRefusal_def job_request_def split: if_splits option.splits)
qed

section \<open>Witnesses\<close>

definition sample_job :: job where
  "sample_job = \<lparr>jd_name = ''orders.expire'', jd_scope = Tenant,
     jd_payload = CorePayload [(''orderId'', UuidField)], jd_discriminator = [''orderId''],
     jd_lifecycle = Expires, jd_onExhausted = Some ''orders.giveUp'', jd_retries = JsInt 3,
     jd_attemptTimeoutMs = JsInt 1000, jd_concurrency = JsInt 1, jd_cron = None\<rparr>"

definition zeros :: "js_string \<Rightarrow> js_string" where
  "zeros t = replicate 64 (CHR ''0'')"

definition sample_payload :: "js_string \<Rightarrow> payload_object" where
  "sample_payload i = [(''orderId'', JString i)]"

lemma sample_send_text:
  "\<exists>t. send_text sample_job (Some ''c'') (FromExecution ''x'') (sample_payload ''o1'') = Inr t"
  by (simp add: send_text_def canonicalJson_def send_json_def sorted_members_def sample_job_def
      jobDiscriminatorValues_def field_of_def sample_payload_def)


definition sample_zod :: "job \<Rightarrow> json \<Rightarrow> zod_issue list + payload_object" where
  "sample_zod job payload = (case payload of JObject ms \<Rightarrow> Inr ms | _ \<Rightarrow> Inl [])"

definition enqueuing_contract :: action_contract where
  "enqueuing_contract = sample_contract\<lparr>ac_enqueues := Some [''orders.expire'']\<rparr>"

definition one_job_buffer :: enqueue_buffer where
  "one_job_buffer = \<lparr>qb_executionId = ''x'', qb_buffered = [(sample_job, sample_payload ''o1'')],
     qb_sendKeys = [send_key ''orders.expire'' (replicate 64 (CHR ''0''))], qb_sealed = False\<rparr>"

lemma one_job_buffer_enqueued: "enqueued zeros sample_zod enqueuing_contract one_job_buffer"
proof (rule enqueued.sent)
  show "enqueued zeros sample_zod enqueuing_contract (createEnqueueBuffer ''x'')" by (rule enqueued.created)
  show "enqueue zeros sample_zod enqueuing_contract sample_job (JObject (sample_payload ''o1''))
      (createEnqueueBuffer ''x'') = Inr one_job_buffer"
    by (simp add: enqueue_def createEnqueueBuffer_def enqueuing_contract_def sample_contract_def sample_job_def
        sample_zod_def one_job_buffer_def canonicalJsonSha256OfUnknown_def canonicalJsonSha256_def
        canonicalJson_def sorted_members_def jobDiscriminatorValues_def field_of_def sample_payload_def
        zeros_def)
qed

theorem sends_of_one_execution_are_distinct_witness:
  "\<exists>envelopes. res_all (map (job_envelope_for zeros sample_system_ctx (FromExecution ''x'')
       (qb_executionId one_job_buffer)) (qb_buffered one_job_buffer)) = Inr envelopes
     \<and> map je_name envelopes = [''orders.expire'']"
proof -
  let ?job = "(sample_job, sample_payload ''o1'')"
  have company: "jobCompanyId sample_job sample_system_ctx = Inr (Some sample_company)"
    by (simp add: jobCompanyId_def sample_job_def sample_event_actor)
  obtain t where t: "send_text sample_job (Some sample_company) (FromExecution ''x'') (sample_payload ''o1'') = Inr t"
    by (simp add: send_text_def canonicalJson_def send_json_def sorted_members_def sample_job_def
        jobDiscriminatorValues_def field_of_def sample_payload_def)
  then have "\<exists>e. job_envelope_for zeros sample_system_ctx (FromExecution ''x'') (qb_executionId one_job_buffer) ?job = Inr e"
    using company by (simp add: job_envelope_for_def deriveJobId_def send_text_def
        canonicalJsonSha256OfUnknown_def canonicalJsonSha256_def)
  then obtain e where e: "res_all (map (job_envelope_for zeros sample_system_ctx (FromExecution ''x'')
       (qb_executionId one_job_buffer)) (qb_buffered one_job_buffer)) = Inr [e]"
    by (auto simp: one_job_buffer_def)
  have "enqueue_texts sample_system_ctx (FromExecution ''x'') one_job_buffer \<subseteq> {t}"
    using company t by (auto simp: enqueue_texts_def one_job_buffer_def)
  then have "inj_on (\<lambda>t. job_id_of_digest (zeros t)) (enqueue_texts sample_system_ctx (FromExecution ''x'') one_job_buffer)"
    by (intro inj_onI) blast
  from sends_of_one_execution_are_distinct [OF one_job_buffer_enqueued this e]
  show ?thesis using e by (simp add: one_job_buffer_def sample_job_def)
qed

definition sample_job_envelope :: job_envelope where
  "sample_job_envelope = \<lparr>je_id = ''j1'', je_name = ''orders.expire'', je_companyId = Some sample_company,
     je_actor = SystemActor ''s'', je_channel = SystemChannel, je_requestId = ''r1'',
     je_correlationId = ''r1'', je_executionId = ''x'', je_payload = sample_payload ''o1''\<rparr>"

definition job_action_contract :: action_contract where
  "job_action_contract = sample_contract\<lparr>ac_name := ''orders.runExpire'', ac_principal := System\<rparr>"

definition run_nothing ::
  "hook_request_meta \<Rightarrow> principal_invocation \<Rightarrow> json \<Rightarrow> (unit, core_error, bool) eff" where
  "run_nothing request invocation input w = (Inr True, w)"

theorem jobs_keep_recorded_authority_witness:
  "\<exists>request scope. executeJobAction run_nothing sample_job sample_job_envelope job_action_contract JNull None ()
       = run_nothing request (InvokeSystem ''orders.expire'' scope True) JNull ()
     \<and> scope_company scope = Some sample_company"
proof -
  have "executeJobAction run_nothing sample_job sample_job_envelope job_action_contract JNull None () = (Inr True, ())"
    by (simp add: executeJobAction_def refuseUnlessRunnable_def envelopeRefusal_def actionRefusal_def
        sample_job_def sample_job_envelope_def job_action_contract_def sample_contract_def moduleOf_def
        recordedScope_def run_nothing_def)
  then show ?thesis
    using jobs_keep_recorded_authority [of run_nothing sample_job sample_job_envelope job_action_contract JNull None "()"]
    by (fastforce simp: sample_job_envelope_def)
qed

end
