(* ===== verification/Audit_Hook.thy ===== *)
theory Audit_Hook
  imports Delivery_Execute
begin

text \<open>
  The audit protocol: the rows that \<open>createAuditHook\<close> inserts (\<open>runtime/audit/create-audit-hook.ts\<close>)
  and the set-once target of \<open>ctx.auditTarget\<close> (\<open>runtime/audit/audit-target-box.ts\<close>). The
  \<open>auditTarget\<close> and \<open>auditSnapshot\<close> callbacks of an action are parameters that may throw; SHA-256 is
  a parameter. The default columns of a row (its id and \<open>createdAt\<close>) and the log line of a failed
  callback are left out. The tenancy tables that the contexts are built from are part of the
  world from here on.
\<close>

section \<open>The target box\<close>

type_synonym audit_target_box = "js_string option"

definition createAuditTargetBox :: audit_target_box where
  "createAuditTargetBox = None"

definition record_audit_target :: "js_string \<Rightarrow> audit_target_box \<Rightarrow> core_error + audit_target_box" where
  "record_audit_target i box =
     (case box of
        Some _ \<Rightarrow> Inl (context_error AuditTargetTwice)
      | None \<Rightarrow> Inr (Some i))"

definition rejectNonHandlerAuditTarget :: "js_string \<Rightarrow> core_error + audit_target_box" where
  "rejectNonHandlerAuditTarget i = Inl (context_error AuditTargetOutsideHandler)"

section \<open>Rows\<close>

record audit_target_ref =
  tr_type :: js_string
  tr_id :: js_string

record audit_target_env =
  te_input :: json
  te_output :: "json option"
  te_ctx :: "action_ctx option"
  te_resolvedId :: "js_string option"

type_synonym audit_target_fn = "audit_target_env \<Rightarrow> thrown + audit_target_ref"
type_synonym audit_snapshot_fn = "json \<Rightarrow> thrown + json"

record audit_row =
  al_requestId :: js_string
  al_correlationId :: js_string
  al_action :: js_string
  al_actorType :: js_string
  al_actorId :: js_string
  al_channel :: channel
  al_aiTraceId :: "js_string option"
  al_toolCallId :: "js_string option"
  al_companyId :: "js_string option"
  al_targetType :: js_string
  al_targetId :: js_string
  al_inputHash :: js_string
  al_inputSnapshot :: "json option"
  al_outcome :: js_string
  al_durationMs :: ms

record 'm app_world = delivery_world +
  pw_audit :: "audit_row list"
  pw_tenancy :: "'m tenancy"

definition insertAuditRow :: "audit_row \<Rightarrow> ('m, 'a) app_world_scheme \<Rightarrow> ('m, 'a) app_world_scheme" where
  "insertAuditRow row w = w\<lparr>pw_audit := pw_audit w @ [row]\<rparr>"

section \<open>Identities\<close>

record audit_identity =
  ai_type :: js_string
  ai_id :: js_string
  ai_company :: "js_string option"

definition toAuditActor :: "actor \<Rightarrow> js_string option \<Rightarrow> bool \<Rightarrow> core_error + audit_identity" where
  "toAuditActor actor' companyId isShare =
     (if isShare
      then Inr \<lparr>ai_type = actor_type SHARE_DURABLE_ACTOR, ai_id = actor_id SHARE_DURABLE_ACTOR,
             ai_company = companyId\<rparr>
      else if actor' = AnonymousActor then Inl (context_error AnonymousAuditActor)
      else Inr \<lparr>ai_type = actor_type actor', ai_id = actor_id actor', ai_company = companyId\<rparr>)"

definition session_identity :: "js_string option \<Rightarrow> audit_identity" where
  "session_identity session =
     (case session of
        Some userId \<Rightarrow> \<lparr>ai_type = ''user'', ai_id = userId, ai_company = None\<rparr>
      | None \<Rightarrow> \<lparr>ai_type = ''user'', ai_id = ''unknown'', ai_company = None\<rparr>)"

definition resolveFailureIdentity ::
  "principal_invocation \<Rightarrow> preflight_authorization option \<Rightarrow> core_error + audit_identity" where
  "resolveFailureIdentity invocation authorization =
     (case authorization of
        Some a \<Rightarrow> toAuditActor (pa_actor a) (pa_companyId a) (invocation_mode invocation = Share)
      | None \<Rightarrow> Inr
          (case invocation of
             InvokeSystem serviceName scope _ \<Rightarrow>
               \<lparr>ai_type = ''system'', ai_id = serviceName, ai_company = scope_company scope\<rparr>
           | InvokeStaff session _ \<Rightarrow> session_identity session
           | InvokeCustomer session \<Rightarrow> session_identity session
           | InvokeConsumer session \<Rightarrow> session_identity session
           | InvokeAccount session \<Rightarrow> session_identity session
           | InvokeShare \<Rightarrow> \<lparr>ai_type = actor_type SHARE_DURABLE_ACTOR,
               ai_id = actor_id SHARE_DURABLE_ACTOR, ai_company = None\<rparr>
           | InvokePublic \<Rightarrow> \<lparr>ai_type = ''user'', ai_id = ''unknown'', ai_company = None\<rparr>))"

section \<open>The hook\<close>

text \<open>What a successful execution hands to the hook.\<close>

record success_env =
  se_ctx :: action_ctx
  se_contract :: action_contract
  se_input :: json
  se_output :: json
  se_durationMs :: ms
  se_auditTarget :: audit_target_fn
  se_auditSnapshot :: "audit_snapshot_fn option"
  se_resolvedId :: "js_string option"

definition success_row ::
  "(js_string \<Rightarrow> js_string) \<Rightarrow> success_env \<Rightarrow> thrown + audit_row" where
  "success_row sha256 env =
     (let ctx = se_ctx env; base = ctx_base ctx in
      res_bind (se_auditTarget env \<lparr>te_input = se_input env, te_output = Some (se_output env),
          te_ctx = Some ctx, te_resolvedId = se_resolvedId env\<rparr>) (\<lambda>target.
      res_bind (typed (canonicalJsonSha256OfUnknown sha256 (se_input env))) (\<lambda>inputHash.
      res_bind (case se_auditSnapshot env of
            None \<Rightarrow> Inr None
          | Some snapshot \<Rightarrow> res_bind (snapshot (se_input env)) (\<lambda>s. Inr (Some s))) (\<lambda>snapshot.
      res_bind (typed (toAuditActor (bc_actor base) (effectiveCompanyId ctx) (ctx_principal ctx = Share)))
        (\<lambda>identity.
          Inr \<lparr>al_requestId = bc_requestId base, al_correlationId = bc_correlationId base,
               al_action = ac_name (se_contract env), al_actorType = ai_type identity,
               al_actorId = ai_id identity, al_channel = bc_channel base,
               al_aiTraceId = bc_aiTraceId base, al_toolCallId = bc_toolCallId base,
               al_companyId = ai_company identity, al_targetType = tr_type target,
               al_targetId = tr_id target, al_inputHash = inputHash, al_inputSnapshot = snapshot,
               al_outcome = ''ok'', al_durationMs = se_durationMs env\<rparr>)))))"

definition recordSuccess ::
  "(js_string \<Rightarrow> js_string) \<Rightarrow> success_env \<Rightarrow> (('m, 'a) app_world_scheme, thrown, unit) eff" where
  "recordSuccess sha256 env w =
     (case success_row sha256 env of
        Inl e \<Rightarrow> (Inl e, w)
      | Inr row \<Rightarrow> (Inr (), insertAuditRow row w))"

text \<open>What a failed one hands to it.\<close>

record failure_env =
  fe_contract :: action_contract
  fe_request :: hook_request_meta
  fe_principal :: principal_invocation
  fe_input :: "json option"
  fe_authorization :: "preflight_authorization option"
  fe_error :: core_error
  fe_durationMs :: ms
  fe_auditTarget :: "audit_target_fn option"
  fe_resolvedId :: "js_string option"

definition failure_target :: "failure_env \<Rightarrow> json \<Rightarrow> audit_target_ref" where
  "failure_target env input =
     (case fe_auditTarget env of
        None \<Rightarrow> \<lparr>tr_type = ''unknown'', tr_id = ''unknown''\<rparr>
      | Some target \<Rightarrow>
          (case target \<lparr>te_input = input, te_output = None, te_ctx = None, te_resolvedId = fe_resolvedId env\<rparr> of
             Inl _ \<Rightarrow> \<lparr>tr_type = ''unknown'', tr_id = ''unknown''\<rparr>
           | Inr r \<Rightarrow> r))"

definition failure_row ::
  "(js_string \<Rightarrow> js_string) \<Rightarrow> failure_env \<Rightarrow> json \<Rightarrow> thrown + audit_row" where
  "failure_row sha256 env input =
     (let request = fe_request env in
      res_bind (typed (resolveFailureIdentity (fe_principal env) (fe_authorization env))) (\<lambda>identity.
      res_bind (typed (canonicalJsonSha256OfUnknown sha256 input)) (\<lambda>inputHash.
        Inr \<lparr>al_requestId = rq_requestId request, al_correlationId = rq_correlationId request,
             al_action = ac_name (fe_contract env), al_actorType = ai_type identity,
             al_actorId = ai_id identity, al_channel = rq_channel request,
             al_aiTraceId = rq_aiTraceId request, al_toolCallId = rq_toolCallId request,
             al_companyId = ai_company identity, al_targetType = tr_type (failure_target env input),
             al_targetId = tr_id (failure_target env input), al_inputHash = inputHash,
             al_inputSnapshot = None, al_outcome = wire_code (error_code (fe_error env)),
             al_durationMs = fe_durationMs env\<rparr>)))"

definition recordFailure ::
  "(js_string \<Rightarrow> js_string) \<Rightarrow> failure_env \<Rightarrow> (('m, 'a) app_world_scheme, thrown, unit) eff" where
  "recordFailure sha256 env w =
     (case fe_input env of
        None \<Rightarrow> (Inr (), w)
      | Some input \<Rightarrow>
          (case failure_row sha256 env input of
             Inl e \<Rightarrow> (Inl e, w)
           | Inr row \<Rightarrow> (Inr (), insertAuditRow row w)))"

section \<open>Every row names an accountable actor\<close>

definition accountable_row :: "audit_row \<Rightarrow> bool" where
  "accountable_row row = (al_actorType row = ''user'' \<or> al_actorType row = ''system'')"

lemma toAuditActor_type:
  "toAuditActor a c s = Inr i \<Longrightarrow> ai_type i = ''user'' \<or> ai_type i = ''system''"
  by (cases a) (auto simp: toAuditActor_def SHARE_DURABLE_ACTOR_def split: if_splits)

lemma success_row_accountable: "success_row sha256 env = Inr row \<Longrightarrow> accountable_row row \<and> al_outcome row = ''ok''"
  by (auto simp: success_row_def accountable_row_def eff_simps Let_def dest: toAuditActor_type)

lemma failure_row_accountable:
  "failure_row sha256 env input = Inr row \<Longrightarrow>
     accountable_row row \<and> al_outcome row = wire_code (error_code (fe_error env))"
  by (auto simp: failure_row_def accountable_row_def eff_simps Let_def resolveFailureIdentity_def
      session_identity_def SHARE_DURABLE_ACTOR_def dest: toAuditActor_type
      split: option.splits principal_invocation.splits)

end
