(* ===== verification/Pipeline.thy ===== *)
theory Pipeline
  imports Audit_Hook Jobs
begin

text \<open>
  The execution pipeline \<open>executeAction\<close> (\<open>runtime/pipeline/execute-action.ts\<close>) over the hook slots of
  \<open>runtime/pipeline/types.ts\<close>. The steps are effects on the evidence of the run (\<open>run_state\<close>) beside
  the world; a transaction undoes the world of a step that throws and keeps the evidence. The
  callbacks of an action, the Zod package, SHA-256, the random bytes and the hooks are parameters;
  a handler works on the world, the emission buffer, the enqueue buffer and the target box its
  context closes over. A transaction is one atomic step of the world, and \<open>between k\<close> is what
  other processes do before it.

  Not modelled here: the log and telemetry calls apart from the fields of the finish line, the
  abort signal, and nested calls (a handler that makes them is a handler).
\<close>

section \<open>Hooks\<close>

datatype 'v reserve_outcome = ReserveExecute 'v | ReserveReplay json

record ('w, 'v) idempotency_hook =
  ih_probe :: "protocol_env \<Rightarrow> ('w, thrown, probe_result) eff"
  ih_reserve :: "protocol_env \<Rightarrow> confirmation_grant option \<Rightarrow> ('w, thrown, 'v reserve_outcome) eff"
  ih_finalize :: "'v \<Rightarrow> json \<Rightarrow> ('w, thrown, unit) eff"
  ih_markFailed :: "'v \<Rightarrow> core_error \<Rightarrow> ('w, thrown, unit) eff"

record 'w audit_hook =
  ah_recordSuccess :: "success_env \<Rightarrow> ('w, thrown, unit) eff"
  ah_recordFailure :: "failure_env \<Rightarrow> ('w, thrown, unit) eff"

record ('w, 'v) pipeline_hooks =
  ph_rateLimit :: "(hook_env \<Rightarrow> ('w, thrown, unit) eff) option"
  ph_confirmation ::
    "(protocol_env \<Rightarrow> ('w, thrown, challenge_summary) eff \<Rightarrow> ('w, thrown, confirmation_grant) eff) option"
  ph_idempotency :: "('w, 'v) idempotency_hook option"
  ph_audit :: "'w audit_hook option"
  ph_jobs :: "'w job_port option"

definition composed :: "('w, 'v) pipeline_hooks \<Rightarrow> composed_hooks" where
  "composed hooks = \<lparr>has_rateLimit = ph_rateLimit hooks \<noteq> None,
     has_confirmation = ph_confirmation hooks \<noteq> None, has_idempotency = ph_idempotency hooks \<noteq> None,
     has_audit = ph_audit hooks \<noteq> None, has_jobs = ph_jobs hooks \<noteq> None\<rparr>"

text \<open>The hooks of the server, from the protocol theories.\<close>

definition typed_eff :: "('w, core_error, 'x) eff \<Rightarrow> ('w, thrown, 'x) eff" where
  "typed_eff run w = (case run w of (r, w') \<Rightarrow> (typed r, w'))"

primrec reserve_outcome_of :: "reserve_result \<Rightarrow> idempotency_reservation reserve_outcome" where
  "reserve_outcome_of (Execute r) = ReserveExecute r"
| "reserve_outcome_of (Replay response) = ReserveReplay response"

definition createIdempotencyHook ::
  "(js_string \<Rightarrow> js_string) \<Rightarrow> (nat \<Rightarrow> js_string) \<Rightarrow> 'a idem_world_scheme interference \<Rightarrow>
     ('a idem_world_scheme, idempotency_reservation) idempotency_hook" where
  "createIdempotencyHook sha256 rnd between =
     \<lparr>ih_probe = (\<lambda>env. typed_eff (probe sha256 between env)),
      ih_reserve = (\<lambda>env grant. eff_bind (typed_eff (reserve sha256 rnd between env grant))
        (\<lambda>r. eff_return (reserve_outcome_of r))),
      ih_finalize = (\<lambda>r output'. typed_eff (finalize r output')),
      ih_markFailed = (\<lambda>r e w. (Inr (), markFailed r w))\<rparr>"

definition createDeliveryReservationHook ::
  "('w, core_error, unit) eff \<Rightarrow> ('w, unit) idempotency_hook" where
  "createDeliveryReservationHook finalize' =
     \<lparr>ih_probe = (\<lambda>env. eff_return Fresh),
      ih_reserve = (\<lambda>env grant. eff_return (ReserveExecute ())),
      ih_finalize = (\<lambda>r output'. typed_eff finalize'),
      ih_markFailed = (\<lambda>r e. eff_return ())\<rparr>"

definition createAuditHook ::
  "(js_string \<Rightarrow> js_string) \<Rightarrow> (('m, 'a) app_world_scheme) audit_hook" where
  "createAuditHook sha256 =
     \<lparr>ah_recordSuccess = recordSuccess sha256, ah_recordFailure = recordFailure sha256\<rparr>"

section \<open>Actions\<close>

record 'w handler_state =
  hs_world :: 'w
  hs_emits :: emit_buffer
  hs_jobs :: enqueue_buffer
  hs_target :: audit_target_box

type_synonym 'w handler = "json \<Rightarrow> action_ctx \<Rightarrow> ('w handler_state, thrown, json) eff"

record summary_env =
  sy_companyId :: "js_string option"
  sy_target :: "json option"

record preview_env = summary_env +
  sy_userId :: js_string
  sy_can :: "js_string \<Rightarrow> bool"

record ('m, 'w) action_implementation =
  im_contract :: action_contract
  im_handler :: "'w handler"
  im_resolveTarget :: "(json \<Rightarrow> 'm tenancy \<Rightarrow> resolver) option"
  im_confirmationSummary :: "(json \<Rightarrow> summary_env \<Rightarrow> thrown + js_string) option"
  im_preview :: "(json \<Rightarrow> preview_env \<Rightarrow> ('w, thrown, action_preview) eff) option"
  im_auditTarget :: "audit_target_fn option"
  im_auditSnapshot :: "audit_snapshot_fn option"

record ('m, 'w) action_invocation =
  iv_action :: "('m, 'w) action_implementation"
  iv_input :: json
  iv_request :: hook_request_meta
  iv_principal :: principal_invocation

text \<open>
  \<open>pd_expiryWins\<close> resolves the race of a handler that settles at or after the deadline: whether the
  timer was run first. A timer never fires early.
\<close>

record ('w, 'v) pipeline_deps =
  pd_hooks :: "('w, 'v) pipeline_hooks"
  pd_grants :: "js_string list"
  pd_zod :: "zod_schema \<Rightarrow> json \<Rightarrow> zod_issue list + json"
  pd_sha256 :: "js_string \<Rightarrow> js_string"
  pd_randomBytes :: "nat \<Rightarrow> byte list"
  pd_between :: "'w interference"
  pd_expiryWins :: "'w \<Rightarrow> bool"

record 'v run_state =
  st_executionCtx :: "action_ctx option"
  st_authorization :: "preflight_authorization option"
  st_validatedInput :: "json option"
  st_reserved :: "'v option"
  st_replayed :: bool
  st_auditTarget :: audit_target_box

definition initial_state :: "'v run_state" where
  "initial_state = \<lparr>st_executionCtx = None, st_authorization = None, st_validatedInput = None,
     st_reserved = None, st_replayed = False, st_auditTarget = createAuditTargetBox\<rparr>"

section \<open>Effects of a run\<close>

definition on_world :: "('w, 'e, 'x) eff \<Rightarrow> ('s \<times> 'w, 'e, 'x) eff" where
  "on_world run = (\<lambda>(s, w). case run w of (r, w') \<Rightarrow> (r, (s, w')))"

definition note_state :: "('s \<Rightarrow> 's) \<Rightarrow> ('s \<times> 'w, 'e, unit) eff" where
  "note_state f = (\<lambda>(s, w). (Inr (), (f s, w)))"

definition interfere :: "'w interference \<Rightarrow> nat \<Rightarrow> ('s \<times> 'w, 'e, unit) eff" where
  "interfere between k = (\<lambda>(s, w). (Inr (), (s, between k w)))"

text \<open>
  \<open>db.transaction\<close>: a body that throws is rolled back. A read-only transaction changes no table (a
  statement that writes is refused by the database).
\<close>

definition transaction ::
  "bool \<Rightarrow> ('s \<times> 'a delivery_world_scheme, 'e, 'x) eff \<Rightarrow> ('s \<times> 'a delivery_world_scheme, 'e, 'x) eff" where
  "transaction readOnly body = (\<lambda>(s, w).
     case body (s, w) of
       (Inl e, (s', w')) \<Rightarrow> (Inl e, (s', rollback_to w w'))
     | (Inr x, (s', w')) \<Rightarrow> (Inr x, (s', if readOnly then rollback_to w w' else w')))"

section \<open>The environment of a run\<close>

definition pipeline_request :: "('m, 'w) action_invocation \<Rightarrow> hook_request_meta" where
  "pipeline_request call = (iv_request call)\<lparr>rq_action := ac_name (im_contract (iv_action call))\<rparr>"

definition run_deadline :: "('m, 'w) action_invocation \<Rightarrow> ms \<Rightarrow> ms" where
  "run_deadline call startedAt = startedAt + js_int (ac_timeout (im_contract (iv_action call)))"

definition buildRunEnv ::
  "('w, 'v) pipeline_deps \<Rightarrow> ('m, 'w) action_invocation \<Rightarrow> json \<Rightarrow> ms \<Rightarrow> 'm run_env" where
  "buildRunEnv deps call input startedAt =
     \<lparr>rv_contract = im_contract (iv_action call), rv_request = pipeline_request call,
      rv_principal = iv_principal call, rv_input = input,
      rv_resolver = im_resolveTarget (iv_action call), rv_grants = pd_grants deps,
      rv_deadline = run_deadline call startedAt\<rparr>"

definition hook_env_of :: "'m run_env \<Rightarrow> hook_env" where
  "hook_env_of env = \<lparr>he_contract = rv_contract env, he_request = rv_request env,
     he_principal = rv_principal env, he_input = rv_input env\<rparr>"

definition protocol_env_of :: "'m run_env \<Rightarrow> preflight_authorization \<Rightarrow> protocol_env" where
  "protocol_env_of env authorization = \<lparr>pe_contract = rv_contract env, pe_request = rv_request env,
     pe_principal = rv_principal env, pe_input = rv_input env, pe_authorization = authorization\<rparr>"

definition requireAuditTarget :: "('m, 'w) action_implementation \<Rightarrow> core_error + audit_target_fn" where
  "requireAuditTarget action =
     (case im_auditTarget action of
        None \<Rightarrow> Inl (pipeline_error MissingAuditTarget)
      | Some target \<Rightarrow> Inr target)"

definition replayStoredResponse ::
  "(zod_schema \<Rightarrow> json \<Rightarrow> zod_issue list + json) \<Rightarrow> zod_schema \<Rightarrow> json \<Rightarrow> core_error + json" where
  "replayStoredResponse zod outputSchema response =
     (case zod outputSchema response of
        Inl _ \<Rightarrow> Inl (pipeline_error StoredResponseMismatch)
      | Inr parsed \<Rightarrow> Inr parsed)"

text \<open>The timeout of the statements is the time left; the database enforces it.\<close>

definition applyStatementTimeout :: "ms \<Rightarrow> ('a process_scheme, thrown, ms) eff" where
  "applyStatementTimeout deadline w =
     (let remainingMs = deadline - pr_now w in
      (if remainingMs \<le> 0 then Inl (Typed timeout_error) else Inr (max 1 remainingMs), w))"

section \<open>Step 5: the confirmation card and the gate\<close>

definition runActionPreview ::
  "'m run_env \<Rightarrow> (json \<Rightarrow> preview_env \<Rightarrow> (('m, 'a) app_world_scheme, thrown, action_preview) eff) \<Rightarrow>
     (('m, 'a) app_world_scheme, thrown, action_preview) eff" where
  "runActionPreview env preview w =
     (case eff_bind (applyStatementTimeout (rv_deadline env)) (\<lambda>_ w1.
        eff_bind (eff_of (constructPrincipalContext env (pw_tenancy w1) True)) (\<lambda>previewCtx.
        eff_bind (eff_of (typed (previewCallerOf previewCtx))) (\<lambda>(userId, can).
          preview (rv_input env)
            \<lparr>sy_companyId = fst (previewScopeOf previewCtx), sy_target = snd (previewScopeOf previewCtx),
             sy_userId = userId, sy_can = can\<rparr>)) w1) w of
        (r, w') \<Rightarrow> (r, rollback_to w w'))"

definition bindConfirmationSummary ::
  "('m, ('m, 'a) app_world_scheme) action_implementation \<Rightarrow> 'm run_env \<Rightarrow> preflight_authorization \<Rightarrow>
     core_error + (('m, 'a) app_world_scheme, thrown, challenge_summary) eff" where
  "bindConfirmationSummary action env authorization =
     (case im_preview action of
        Some preview \<Rightarrow> Inr (eff_bind (runActionPreview env preview) (\<lambda>shown.
          eff_return \<lparr>cm_summary = pv_title shown, cm_preview = Some shown\<rparr>))
      | None \<Rightarrow>
     (case im_confirmationSummary action of
        None \<Rightarrow> Inl (pipeline_error MissingConfirmationCard)
      | Some summarize \<Rightarrow> Inr (eff_bind
          (eff_of (summarize (rv_input env)
            \<lparr>sy_companyId = pa_companyId authorization, sy_target = pa_target authorization\<rparr>))
          (\<lambda>text'. eff_return \<lparr>cm_summary = text', cm_preview = None\<rparr>))))"

datatype gate_result = GateReplay json | GateExecute "confirmation_grant option"

text \<open>What the probe decides: a replay, or the grant to resume with.\<close>

definition probe_for_gate ::
  "('w, 'v) pipeline_deps \<Rightarrow> 'm run_env \<Rightarrow> preflight_authorization \<Rightarrow> ('w, thrown, gate_result) eff" where
  "probe_for_gate deps env authorization =
     (case ph_idempotency (pd_hooks deps) of
        None \<Rightarrow> eff_return (GateExecute None)
      | Some hook \<Rightarrow>
          eff_bind (ih_probe hook (protocol_env_of env authorization)) (\<lambda>probed.
            case probed of
              ProbeReplay response \<Rightarrow>
                eff_bind (eff_of (typed (replayStoredResponse (pd_zod deps)
                    (ac_output (rv_contract env)) response))) (\<lambda>output'. eff_return (GateReplay output'))
            | Resume grant \<Rightarrow>
                eff_return (GateExecute
                  (if rq_confirmationOnly (rv_request env) then None else Some grant))
            | Fresh \<Rightarrow> eff_return (GateExecute None)))"

definition gate_unless_granted ::
  "('m, ('m, 'a) app_world_scheme) action_implementation \<Rightarrow> 'm run_env \<Rightarrow> preflight_authorization \<Rightarrow>
     (protocol_env \<Rightarrow> (('m, 'a) app_world_scheme, thrown, challenge_summary) eff \<Rightarrow>
        (('m, 'a) app_world_scheme, thrown, confirmation_grant) eff) \<Rightarrow> confirmation_grant option \<Rightarrow>
     (('m, 'a) app_world_scheme, thrown, confirmation_grant) eff" where
  "gate_unless_granted action env authorization confirm resumed =
     (case resumed of
        Some grant \<Rightarrow> eff_return grant
      | None \<Rightarrow>
          eff_bind (eff_of (typed (bindConfirmationSummary action env authorization)))
            (\<lambda>summarize. confirm (protocol_env_of env authorization) summarize))"

definition runConfirmationGate ::
  "(('m, 'a) app_world_scheme, 'v) pipeline_deps \<Rightarrow>
     ('m, ('m, 'a) app_world_scheme) action_implementation \<Rightarrow> 'm run_env \<Rightarrow>
     preflight_authorization option \<Rightarrow> (('m, 'a) app_world_scheme, thrown, gate_result) eff" where
  "runConfirmationGate deps action env authorization =
     (if \<not> confirmationIsRequired (rv_contract env) (rv_request env)
      then eff_return (GateExecute None)
      else eff_bind (eff_of (typed (requireAuthorization authorization))) (\<lambda>confirmedAuth.
        case ph_confirmation (pd_hooks deps) of
          None \<Rightarrow> eff_throw (Typed (pipeline_error MissingConfirmationHook))
        | Some confirm \<Rightarrow>
            eff_bind (probe_for_gate deps env confirmedAuth) (\<lambda>probed.
              case probed of
                GateReplay output' \<Rightarrow> eff_return (GateReplay output')
              | GateExecute resumed \<Rightarrow>
                  eff_bind (gate_unless_granted action env confirmedAuth confirm resumed) (\<lambda>grant.
                    if rq_confirmationOnly (rv_request env)
                    then eff_throw (Typed (pipeline_error ConfirmationOnlyGranted))
                    else eff_return (GateExecute (Some grant))))))"

section \<open>Step 6: the reservation\<close>

datatype 'v reserve_step = StepReplay json | StepExecute "'v option"

definition runIdempotencyReserve ::
  "('w, 'v) pipeline_deps \<Rightarrow> 'm run_env \<Rightarrow> preflight_authorization option \<Rightarrow>
     confirmation_grant option \<Rightarrow> ('w, thrown, 'v reserve_step) eff" where
  "runIdempotencyReserve deps env authorization grant =
     (case ph_idempotency (pd_hooks deps) of
        None \<Rightarrow> eff_return (StepExecute None)
      | Some hook \<Rightarrow>
          if \<not> ac_idempotent (rv_contract env) \<or> ac_risk (rv_contract env) = RiskRead
          then eff_return (StepExecute None)
          else eff_bind (eff_of (typed (requireAuthorization authorization))) (\<lambda>authorization'.
            eff_bind (ih_reserve hook (protocol_env_of env authorization') grant) (\<lambda>outcome.
              case outcome of
                ReserveReplay response \<Rightarrow>
                  eff_bind (eff_of (typed (replayStoredResponse (pd_zod deps)
                      (ac_output (rv_contract env)) response))) (\<lambda>output'. eff_return (StepReplay output'))
              | ReserveExecute reservation \<Rightarrow> eff_return (StepExecute (Some reservation)))))"

section \<open>Steps 7 to 9: the execution transaction\<close>

text \<open>What the handler leaves behind beside the world and its target box.\<close>

record handled =
  hd_raw :: json
  hd_emits :: emit_buffer
  hd_jobs :: enqueue_buffer

definition handler_start :: "js_string \<Rightarrow> audit_target_box \<Rightarrow> 'w \<Rightarrow> 'w handler_state" where
  "handler_start executionId box w = \<lparr>hs_world = w, hs_emits = createEmitBuffer,
     hs_jobs = createEnqueueBuffer executionId, hs_target = box\<rparr>"

definition runWithDeadline ::
  "('a process_scheme, 'v) pipeline_deps \<Rightarrow> 'a process_scheme handler \<Rightarrow> 'm run_env \<Rightarrow> js_string \<Rightarrow>
     action_ctx \<Rightarrow> ('v run_state \<times> 'a process_scheme, thrown, handled) eff" where
  "runWithDeadline deps run env executionId ctx = (\<lambda>(s, w).
     if rv_deadline env - pr_now w \<le> 0 then (Inl (Typed timeout_error), (s, w))
     else case run (rv_input env) ctx (handler_start executionId (st_auditTarget s) w) of
       (r, hs) \<Rightarrow>
         (if rv_deadline env \<le> pr_now (hs_world hs) \<and> pd_expiryWins deps (hs_world hs)
          then Inl (Typed timeout_error)
          else case r of
            Inl e \<Rightarrow> Inl e
          | Inr raw \<Rightarrow> Inr \<lparr>hd_raw = raw, hd_emits = hs_emits hs, hd_jobs = hs_jobs hs\<rparr>,
          (s\<lparr>st_auditTarget := hs_target hs\<rparr>, hs_world hs)))"

definition validateOutput ::
  "(zod_schema \<Rightarrow> json \<Rightarrow> zod_issue list + json) \<Rightarrow> action_contract \<Rightarrow> json \<Rightarrow> core_error + json" where
  "validateOutput zod contract raw =
     (case zod (ac_output contract) raw of
        Inl _ \<Rightarrow> Inl (pipeline_error OutputSchemaMismatch)
      | Inr parsed \<Rightarrow> Inr parsed)"

definition run_causation :: "'m run_env \<Rightarrow> js_string" where
  "run_causation env =
     (case rq_causationId (rv_request env) of
        Some i \<Rightarrow> i | None \<Rightarrow> rq_requestId (rv_request env))"

definition run_job_origin :: "'m run_env \<Rightarrow> js_string \<Rightarrow> 'v run_state \<Rightarrow> core_error + job_origin" where
  "run_job_origin env executionId s =
     jobOriginFor executionId
       (case (st_reserved s, st_authorization s) of
          (Some _, Some authorization) \<Rightarrow> Some (protocol_env_of env authorization)
        | _ \<Rightarrow> None)"

definition success_env_of ::
  "('m, 'w) action_implementation \<Rightarrow> json \<Rightarrow> json \<Rightarrow> action_ctx \<Rightarrow> ms \<Rightarrow> audit_target_box \<Rightarrow>
     audit_target_fn \<Rightarrow> success_env" where
  "success_env_of action input output' ctx durationMs box target =
     \<lparr>se_ctx = ctx, se_contract = im_contract action, se_input = input, se_output = output',
      se_durationMs = durationMs, se_auditTarget = target, se_auditSnapshot = im_auditSnapshot action,
      se_resolvedId = box\<rparr>"

definition audit_success ::
  "'a process_scheme audit_hook \<Rightarrow> ('m, 'a process_scheme) action_implementation \<Rightarrow> json \<Rightarrow> json \<Rightarrow>
     action_ctx \<Rightarrow> ms \<Rightarrow> audit_target_box \<Rightarrow> ('a process_scheme, thrown, unit) eff" where
  "audit_success hook action input output' ctx startedAt box w =
     (case requireAuditTarget action of
        Inl e \<Rightarrow> (Inl (Typed e), w)
      | Inr target \<Rightarrow> ah_recordSuccess hook
          (success_env_of action input output' ctx (pr_now w - startedAt) box target) w)"

definition audit_in_transaction ::
  "('a process_scheme, 'v) pipeline_deps \<Rightarrow> ('m, 'a process_scheme) action_implementation \<Rightarrow>
     'm run_env \<Rightarrow> json \<Rightarrow> action_ctx \<Rightarrow> ms \<Rightarrow> audit_target_box \<Rightarrow> ('a process_scheme, thrown, unit) eff" where
  "audit_in_transaction deps action env output' ctx startedAt box =
     (if ac_audit (rv_contract env) \<and> ac_risk (rv_contract env) \<noteq> RiskRead
      then case ph_audit (pd_hooks deps) of
          None \<Rightarrow> eff_return ()
        | Some hook \<Rightarrow> audit_success hook action (rv_input env) output' ctx startedAt box
      else eff_return ())"

definition finalize_in_transaction ::
  "('w, 'v) pipeline_deps \<Rightarrow> 'v option \<Rightarrow> json \<Rightarrow> ('w, thrown, unit) eff" where
  "finalize_in_transaction deps reserved output' =
     (case (reserved, ph_idempotency (pd_hooks deps)) of
        (Some reservation, Some hook) \<Rightarrow> ih_finalize hook reservation output'
      | _ \<Rightarrow> eff_return ())"

text \<open>Step 9, given what the handler returned and left in its buffers.\<close>

definition protocol_slots ::
  "(('m, 'a) app_world_scheme, 'v) pipeline_deps \<Rightarrow>
     ('m, ('m, 'a) app_world_scheme) action_implementation \<Rightarrow> 'm run_env \<Rightarrow> js_string \<Rightarrow> ms \<Rightarrow>
     action_ctx \<Rightarrow> handled \<Rightarrow> json \<Rightarrow> 'v run_state \<Rightarrow> (('m, 'a) app_world_scheme, thrown, unit) eff" where
  "protocol_slots deps action env executionId startedAt ctx handled output' s =
     eff_bind (flush ctx (run_causation env) (hd_emits handled)) (\<lambda>_.
     eff_bind (eff_of (typed (run_job_origin env executionId s))) (\<lambda>origin.
     eff_bind (enqueue_flush (pd_sha256 deps) ctx origin (ph_jobs (pd_hooks deps)) (hd_jobs handled)) (\<lambda>_.
     eff_bind (audit_in_transaction deps action env output' ctx startedAt (st_auditTarget s)) (\<lambda>_.
       finalize_in_transaction deps (st_reserved s) output'))))"

definition execution_body ::
  "(('m, 'a) app_world_scheme, 'v) pipeline_deps \<Rightarrow>
     ('m, ('m, 'a) app_world_scheme) action_implementation \<Rightarrow> 'm run_env \<Rightarrow> js_string \<Rightarrow> ms \<Rightarrow>
     ('v run_state \<times> ('m, 'a) app_world_scheme, thrown, json) eff" where
  "execution_body deps action env executionId startedAt =
     eff_bind (on_world (applyStatementTimeout (rv_deadline env))) (\<lambda>_.
     eff_bind (\<lambda>(s, w). (constructPrincipalContext env (pw_tenancy w)
         (ac_risk (rv_contract env) = RiskRead), (s, w))) (\<lambda>ctx.
     eff_bind (note_state (st_executionCtx_update (\<lambda>_. Some ctx))) (\<lambda>_.
     eff_bind (runWithDeadline deps (im_handler action) env executionId ctx) (\<lambda>handled.
     eff_bind (eff_of (typed (validateOutput (pd_zod deps) (rv_contract env) (hd_raw handled)))) (\<lambda>output'.
     eff_bind (\<lambda>(s, w). on_world (protocol_slots deps action env executionId startedAt ctx handled output' s)
         (s, w)) (\<lambda>_.
       eff_return output'))))))"

definition runExecutionTransaction ::
  "(('m, 'a) app_world_scheme, 'v) pipeline_deps \<Rightarrow>
     ('m, ('m, 'a) app_world_scheme) action_implementation \<Rightarrow> 'm run_env \<Rightarrow> js_string \<Rightarrow> ms \<Rightarrow>
     ('v run_state \<times> ('m, 'a) app_world_scheme, thrown, json) eff" where
  "runExecutionTransaction deps action env executionId startedAt =
     transaction (ac_consistencySnapshot (rv_contract env) \<or> ac_risk (rv_contract env) = RiskRead)
       (execution_body deps action env executionId startedAt)"

definition runPostCommitReadAudit ::
  "(('m, 'a) app_world_scheme, 'v) pipeline_deps \<Rightarrow>
     ('m, ('m, 'a) app_world_scheme) action_implementation \<Rightarrow> 'm run_env \<Rightarrow> ms \<Rightarrow> json \<Rightarrow>
     ('v run_state \<times> ('m, 'a) app_world_scheme, thrown, unit) eff" where
  "runPostCommitReadAudit deps action env startedAt output' = (\<lambda>(s, w).
     if \<not> ac_audit (rv_contract env) \<or> ac_risk (rv_contract env) \<noteq> RiskRead then (Inr (), (s, w))
     else case (ph_audit (pd_hooks deps), st_executionCtx s) of
       (Some hook, Some ctx) \<Rightarrow>
         (case in_transaction (audit_success hook action (rv_input env) output' ctx startedAt
                 (st_auditTarget s)) w of
            (_, w') \<Rightarrow> (Inr (), (s, w')))
     | _ \<Rightarrow> (Inr (), (s, w)))"

section \<open>The steps in order\<close>

definition assert_step2 ::
  "('w, 'v) pipeline_deps \<Rightarrow> ('m, 'w) action_invocation \<Rightarrow> core_error + unit" where
  "assert_step2 deps call =
     (let c = im_contract (iv_action call); request = pipeline_request call in
      res_bind (assertPrincipalShape c (iv_principal call)) (\<lambda>_.
      res_bind (assertAuthenticated (iv_principal call)) (\<lambda>_.
      res_bind (assertExecutionTimeConfirmation c request) (\<lambda>_.
        assertRequiredProtocolHooks c (composed (pd_hooks deps)) (confirmationIsRequired c request)))))"

definition parse_input ::
  "('w, 'v) pipeline_deps \<Rightarrow> ('m, 'w) action_invocation \<Rightarrow> core_error + json" where
  "parse_input deps call =
     (case pd_zod deps (ac_input (im_contract (iv_action call))) (iv_input call) of
        Inl issues \<Rightarrow> Inl (validation_error issues)
      | Inr input \<Rightarrow> Inr input)"

definition enforce_rate_limit ::
  "('w, 'v) pipeline_deps \<Rightarrow> 'm run_env \<Rightarrow> ('w, thrown, unit) eff" where
  "enforce_rate_limit deps env =
     (case ph_rateLimit (pd_hooks deps) of
        None \<Rightarrow> eff_return ()
      | Some limiter \<Rightarrow> limiter (hook_env_of env))"

definition preflight_step ::
  "'m run_env \<Rightarrow> ('v run_state \<times> ('m, 'a) app_world_scheme, thrown, unit) eff" where
  "preflight_step env = (\<lambda>(s, w).
     if needsPreflight (rv_contract env) (rv_request env)
     then case runAuthorizationPreflight env (pw_tenancy w) of
         Inl e \<Rightarrow> (Inl e, (s, w))
       | Inr authorization \<Rightarrow> (Inr (), (s\<lparr>st_authorization := authorization\<rparr>, w))
     else (Inr (), (s, w)))"

definition execute_step ::
  "(('m, 'a) app_world_scheme, 'v) pipeline_deps \<Rightarrow>
     ('m, ('m, 'a) app_world_scheme) action_implementation \<Rightarrow> 'm run_env \<Rightarrow> js_string \<Rightarrow> ms \<Rightarrow>
     ('v run_state \<times> ('m, 'a) app_world_scheme, thrown, json) eff" where
  "execute_step deps action env executionId startedAt =
     eff_bind (interfere (pd_between deps) 4) (\<lambda>_.
     eff_bind (runExecutionTransaction deps action env executionId startedAt) (\<lambda>output'.
     eff_bind (interfere (pd_between deps) 5) (\<lambda>_.
     eff_bind (runPostCommitReadAudit deps action env startedAt output') (\<lambda>_.
       eff_return output'))))"

text \<open>
  What steps 1 to 6 admit: a replayed response, or the execution of the parsed input under the
  execution id drawn for the invocation.
\<close>

datatype admission = Replayed json | Admitted json js_string

definition note_replay :: "json \<Rightarrow> ('v run_state \<times> 'w, thrown, admission) eff" where
  "note_replay output' = (\<lambda>(s, w). (Inr (Replayed output'), (s\<lparr>st_replayed := True\<rparr>, w)))"

definition gate_step ::
  "(('m, 'a) app_world_scheme, 'v) pipeline_deps \<Rightarrow>
     ('m, ('m, 'a) app_world_scheme) action_implementation \<Rightarrow> 'm run_env \<Rightarrow>
     ('v run_state \<times> ('m, 'a) app_world_scheme, thrown, gate_result) eff" where
  "gate_step deps action env = (\<lambda>(s, w).
     on_world (runConfirmationGate deps action env (st_authorization s)) (s, w))"

definition reserve_step ::
  "('w, 'v) pipeline_deps \<Rightarrow> 'm run_env \<Rightarrow> js_string \<Rightarrow> confirmation_grant option \<Rightarrow>
     ('v run_state \<times> 'w, thrown, admission) eff" where
  "reserve_step deps env executionId grant =
     eff_bind (interfere (pd_between deps) 3) (\<lambda>_.
     eff_bind (\<lambda>(s, w). on_world (runIdempotencyReserve deps env (st_authorization s) grant) (s, w)) (\<lambda>step.
       case step of
         StepReplay output' \<Rightarrow> note_replay output'
       | StepExecute reserved \<Rightarrow>
           eff_bind (note_state (st_reserved_update (\<lambda>_. reserved)))
             (\<lambda>_. eff_return (Admitted (rv_input env) executionId))))"

definition admit_env ::
  "(('m, 'a) app_world_scheme, 'v) pipeline_deps \<Rightarrow>
     ('m, ('m, 'a) app_world_scheme) action_implementation \<Rightarrow> 'm run_env \<Rightarrow>
     ('v run_state \<times> ('m, 'a) app_world_scheme, thrown, admission) eff" where
  "admit_env deps action env =
     eff_bind (on_world (\<lambda>w. typed_eff (uuidv7 (pd_randomBytes deps) (pr_now w)) w)) (\<lambda>executionId.
     eff_bind (interfere (pd_between deps) 0) (\<lambda>_.
     eff_bind (on_world (enforce_rate_limit deps env)) (\<lambda>_.
     eff_bind (interfere (pd_between deps) 1) (\<lambda>_.
     eff_bind (preflight_step env) (\<lambda>_.
     eff_bind (interfere (pd_between deps) 2) (\<lambda>_.
     eff_bind (gate_step deps action env) (\<lambda>gate.
       case gate of
         GateReplay output' \<Rightarrow> note_replay output'
       | GateExecute grant \<Rightarrow> reserve_step deps env executionId grant)))))))"

definition admit_steps ::
  "(('m, 'a) app_world_scheme, 'v) pipeline_deps \<Rightarrow> ('m, ('m, 'a) app_world_scheme) action_invocation \<Rightarrow>
     ms \<Rightarrow> ('v run_state \<times> ('m, 'a) app_world_scheme, thrown, admission) eff" where
  "admit_steps deps call startedAt =
     eff_bind (eff_of (typed (parse_input deps call))) (\<lambda>input.
     eff_bind (note_state (st_validatedInput_update (\<lambda>_. Some input))) (\<lambda>_.
     eff_bind (eff_of (typed (assert_step2 deps call))) (\<lambda>_.
       admit_env deps (iv_action call) (buildRunEnv deps call input startedAt))))"

definition pipeline_steps ::
  "(('m, 'a) app_world_scheme, 'v) pipeline_deps \<Rightarrow> ('m, ('m, 'a) app_world_scheme) action_invocation \<Rightarrow>
     ms \<Rightarrow> ('v run_state \<times> ('m, 'a) app_world_scheme, thrown, json) eff" where
  "pipeline_steps deps call startedAt =
     eff_bind (admit_steps deps call startedAt) (\<lambda>admission.
       case admission of
         Replayed output' \<Rightarrow> eff_return output'
       | Admitted input executionId \<Rightarrow>
           execute_step deps (iv_action call) (buildRunEnv deps call input startedAt) executionId startedAt)"

section \<open>The failure path and the finish line\<close>

definition failure_env_of ::
  "('m, 'w) action_invocation \<Rightarrow> 'v run_state \<Rightarrow> core_error \<Rightarrow> ms \<Rightarrow> failure_env" where
  "failure_env_of call s err durationMs =
     \<lparr>fe_contract = im_contract (iv_action call), fe_request = pipeline_request call,
      fe_principal = iv_principal call, fe_input = st_validatedInput s,
      fe_authorization = st_authorization s, fe_error = err, fe_durationMs = durationMs,
      fe_auditTarget = im_auditTarget (iv_action call), fe_resolvedId = st_auditTarget s\<rparr>"

definition recordFailureOutcome ::
  "('a process_scheme, 'v) pipeline_deps \<Rightarrow> ('m, 'a process_scheme) action_invocation \<Rightarrow> 'v run_state \<Rightarrow>
     core_error \<Rightarrow> ms \<Rightarrow> 'a process_scheme \<Rightarrow> 'a process_scheme" where
  "recordFailureOutcome deps call s err durationMs w =
     (let w1 = (case (st_reserved s, ph_idempotency (pd_hooks deps)) of
            (Some reservation, Some hook) \<Rightarrow>
              snd (ih_markFailed hook reservation err (pd_between deps 6 w))
          | _ \<Rightarrow> w)
      in if ac_audit (im_contract (iv_action call))
         then case ph_audit (pd_hooks deps) of
             None \<Rightarrow> w1
           | Some hook \<Rightarrow>
               snd (ah_recordFailure hook (failure_env_of call s err durationMs) (pd_between deps 7 w1))
         else w1)"

record finish_identity =
  fi_actorType :: "js_string option"
  fi_actorId :: "js_string option"
  fi_companyId :: "js_string option"

definition resolveIdentity :: "'v run_state \<Rightarrow> principal_invocation \<Rightarrow> finish_identity" where
  "resolveIdentity s p =
     (case st_executionCtx s of
        Some ctx \<Rightarrow> \<lparr>fi_actorType = Some (actor_type (bc_actor (ctx_base ctx))),
          fi_actorId = Some (actor_id (bc_actor (ctx_base ctx))), fi_companyId = effectiveCompanyId ctx\<rparr>
      | None \<Rightarrow>
     (case st_authorization s of
        Some a \<Rightarrow> \<lparr>fi_actorType = Some (actor_type (pa_actor a)),
          fi_actorId = Some (actor_id (pa_actor a)), fi_companyId = pa_companyId a\<rparr>
      | None \<Rightarrow>
     (case p of
        InvokeSystem serviceName scope _ \<Rightarrow> \<lparr>fi_actorType = Some ''system'',
          fi_actorId = Some serviceName, fi_companyId = scope_company scope\<rparr>
      | InvokePublic \<Rightarrow> \<lparr>fi_actorType = Some ''anonymous'', fi_actorId = Some ''anonymous'',
          fi_companyId = None\<rparr>
      | InvokeShare \<Rightarrow> \<lparr>fi_actorType = Some ''anonymous'', fi_actorId = Some ''anonymous'',
          fi_companyId = None\<rparr>
      | _ \<Rightarrow> (case invocation_session p of
            Some userId \<Rightarrow> \<lparr>fi_actorType = Some ''user'', fi_actorId = Some userId, fi_companyId = None\<rparr>
          | None \<Rightarrow> \<lparr>fi_actorType = None, fi_actorId = None, fi_companyId = None\<rparr>))))"

record finish_line =
  fl_identity :: finish_identity
  fl_outcome :: js_string
  fl_durationMs :: ms
  fl_replayed :: bool
  fl_alert :: bool

definition finish :: "'v run_state \<Rightarrow> principal_invocation \<Rightarrow> js_string \<Rightarrow> ms \<Rightarrow> finish_line" where
  "finish s p outcome durationMs =
     \<lparr>fl_identity = resolveIdentity s p, fl_outcome = outcome, fl_durationMs = durationMs,
      fl_replayed = st_replayed s, fl_alert = (outcome = ''INTERNAL'')\<rparr>"

text \<open>A run yields what the caller gets and the finish line it logs.\<close>

definition run_action ::
  "(('m, 'a) app_world_scheme, 'v) pipeline_deps \<Rightarrow> ('m, ('m, 'a) app_world_scheme) action_invocation \<Rightarrow>
     ('m, 'a) app_world_scheme \<Rightarrow> ((core_error + json) \<times> finish_line) \<times> ('m, 'a) app_world_scheme" where
  "run_action deps call w =
     (let startedAt = pr_now w in
      case pipeline_steps deps call startedAt (initial_state, w) of
        (Inr output', (s, w')) \<Rightarrow>
          ((Inr output', finish s (iv_principal call) ''ok'' (pr_now w' - startedAt)), w')
      | (Inl thrown, (s, w')) \<Rightarrow>
          (let err = to_core_error thrown;
               w'' = recordFailureOutcome deps call s err (pr_now w' - startedAt) w'
           in ((Inl err, finish s (iv_principal call) (wire_code (error_code err))
                 (pr_now w'' - startedAt)), w'')))"

definition executeAction ::
  "(('m, 'a) app_world_scheme, 'v) pipeline_deps \<Rightarrow> ('m, ('m, 'a) app_world_scheme) action_invocation \<Rightarrow>
     (('m, 'a) app_world_scheme, core_error, json) eff" where
  "executeAction deps call w = (case run_action deps call w of ((r, _), w') \<Rightarrow> (r, w'))"

section \<open>Compositions\<close>

text \<open>
  \<open>createActionPipeline\<close> (\<open>apps/worker/src/pipeline.ts\<close>, kept in lockstep with the one of
  \<open>apps/api\<close>): every slot is filled. The idempotency hook awaits at points of its own.
\<close>

record 'w pipeline_options =
  po_hmac :: "js_string \<Rightarrow> js_string \<Rightarrow> js_string"
  po_zodUuid :: "js_string \<Rightarrow> bool"
  po_rnd :: "nat \<Rightarrow> js_string"
  po_jobs :: "'w job_port"
  po_rateLimitStore :: "'w rate_limit_store"
  po_confirmationStore :: "'w confirmation_store"
  po_ipHmacSecret :: js_string
  po_grants :: "js_string list"
  po_zod :: "zod_schema \<Rightarrow> json \<Rightarrow> zod_issue list + json"
  po_sha256 :: "js_string \<Rightarrow> js_string"
  po_randomBytes :: "nat \<Rightarrow> byte list"
  po_between :: "'w interference"
  po_expiryWins :: "'w \<Rightarrow> bool"

definition server_hooks ::
  "(('m, 'a) app_world_scheme) pipeline_options \<Rightarrow>
     (hook_env \<Rightarrow> (('m, 'a) app_world_scheme, thrown, unit) eff) \<Rightarrow>
     (('m, 'a) app_world_scheme, idempotency_reservation) pipeline_hooks" where
  "server_hooks options limiter =
     \<lparr>ph_rateLimit = Some limiter,
      ph_confirmation = Some (gate (po_sha256 options) (po_zodUuid options) (po_rnd options)
        (po_confirmationStore options)),
      ph_idempotency = Some (createIdempotencyHook (po_sha256 options) (po_rnd options)
        (\<lambda>k. po_between options (k + 8))),
      ph_audit = Some (createAuditHook (po_sha256 options)), ph_jobs = Some (po_jobs options)\<rparr>"

definition pipeline_of ::
  "'w pipeline_options \<Rightarrow> 'w interference \<Rightarrow> ('w, 'v) pipeline_hooks \<Rightarrow> ('w, 'v) pipeline_deps" where
  "pipeline_of options between hooks =
     \<lparr>pd_hooks = hooks, pd_grants = po_grants options, pd_zod = po_zod options,
      pd_sha256 = po_sha256 options, pd_randomBytes = po_randomBytes options, pd_between = between,
      pd_expiryWins = po_expiryWins options\<rparr>"

definition createActionPipeline ::
  "(('m, 'a) app_world_scheme) pipeline_options \<Rightarrow>
     core_error + (('m, 'a) app_world_scheme, idempotency_reservation) pipeline_deps" where
  "createActionPipeline options =
     res_bind (createRateLimitHook (po_hmac options) (po_ipHmacSecret options) (po_rateLimitStore options))
       (\<lambda>limiter. Inr (pipeline_of options (po_between options) (server_hooks options limiter)))"

text \<open>
  The \<open>invoke\<close> of a subscription, with the hooks \<open>executeDelivery\<close> composes: the idempotency slot
  is the delivery row. It runs inside the delivery transaction, so nothing happens between its
  steps. (The audit row of a failed delivery is written outside that transaction; here it shares
  its rollback.)
\<close>

definition delivery_hooks ::
  "('w, 'u) pipeline_hooks \<Rightarrow> ('w, core_error, unit) eff \<Rightarrow> ('w, unit) pipeline_hooks" where
  "delivery_hooks hooks finalize' =
     \<lparr>ph_rateLimit = ph_rateLimit hooks, ph_confirmation = ph_confirmation hooks,
      ph_idempotency = Some (createDeliveryReservationHook finalize'), ph_audit = ph_audit hooks,
      ph_jobs = ph_jobs hooks\<rparr>"

definition nullable :: "js_string option \<Rightarrow> json" where
  "nullable v = (case v of None \<Rightarrow> JNull | Some s \<Rightarrow> JString s)"

definition channel_text :: "channel \<Rightarrow> js_string" where
  "channel_text c = fst (hd (filter (\<lambda>(_, d). d = c) ACTION_CHANNELS))"

definition envelope_json :: "event_envelope \<Rightarrow> json" where
  "envelope_json e = JObject [
     (''eventId'', JString (en_eventId e)), (''name'', JString (en_name e)),
     (''version'', JNumber (en_version e)), (''occurredAt'', JString (en_occurredAt e)),
     (''companyId'', nullable (en_companyId e)),
     (''aggregate'', JObject [(''type'', JString (en_aggregateType e)),
        (''id'', JString (en_aggregateId e)), (''sequence'', JString (en_sequence e))]),
     (''actor'', JObject [(''type'', JString (en_actorType e)), (''id'', JString (en_actorId e)),
        (''channel'', JString (channel_text (en_channel e)))]),
     (''requestId'', JString (en_requestId e)), (''correlationId'', JString (en_correlationId e)),
     (''causationId'', JString (en_causationId e)), (''payload'', en_payload e)]"

definition subscription_invoke ::
  "(('m, 'a) app_world_scheme) pipeline_options \<Rightarrow>
     (('m, 'a) app_world_scheme, 'u) pipeline_hooks \<Rightarrow>
     ('m, ('m, 'a) app_world_scheme) action_implementation \<Rightarrow>
     (('m, 'a) app_world_scheme) delivery_invoke" where
  "subscription_invoke options hooks action finalize' invocation w =
     (case executeAction (pipeline_of options alone (delivery_hooks hooks finalize'))
         \<lparr>iv_action = action, iv_input = envelope_json (di_input invocation),
          iv_request = di_request invocation, iv_principal = di_principal invocation\<rparr> w of
        (Inl e, w') \<Rightarrow> (Inl (Typed e), w')
      | (Inr _, w') \<Rightarrow> (Inr (), w'))"

end
