(* ===== verification/Pipeline_Proofs.thy ===== *)
theory Pipeline_Proofs
  imports Pipeline
begin

text \<open>
  What the pipeline promises. The first section is a small calculus: \<open>preserves view run\<close> says that
  an effect keeps a view of its state whatever its result, \<open>undone view run\<close> that it does so
  when it throws. The tables of the database are such a view: the steps before the execution
  transaction preserve it when the hooks do, and a transaction that throws is undone.
\<close>

section \<open>Effects that keep a view\<close>

definition preserves :: "('s \<Rightarrow> 'd) \<Rightarrow> ('s, 'e, 'x) eff \<Rightarrow> bool" where
  "preserves view run = (\<forall>s. view (snd (run s)) = view s)"

definition undone :: "('s \<Rightarrow> 'd) \<Rightarrow> ('s, 'e, 'x) eff \<Rightarrow> bool" where
  "undone view run = (\<forall>s e s'. run s = (Inl e, s') \<longrightarrow> view s' = view s)"

definition seen :: "('w \<Rightarrow> 'd) \<Rightarrow> 's \<times> 'w \<Rightarrow> 'd" where
  "seen view = (\<lambda>(s, w). view w)"

lemma seen_Pair [simp]: "seen view (s, w) = view w"
  by (simp add: seen_def)

named_theorems keeps \<open>introduction rules of preserves\<close>

lemma preservesD: "preserves view run \<Longrightarrow> run s = (r, s') \<Longrightarrow> view s' = view s"
  by (metis preserves_def snd_conv)

lemma preservesI: "(\<And>s r s'. run s = (r, s') \<Longrightarrow> view s' = view s) \<Longrightarrow> preserves view run"
  by (simp add: preserves_def) (metis prod.collapse)

lemma preserves_bind [keeps]:
  "preserves view run \<Longrightarrow> (\<And>x. preserves view (next' x)) \<Longrightarrow> preserves view (eff_bind run next')"
  by (simp add: preserves_def eff_bind_def split: prod.splits sum.splits) (metis snd_conv)

lemma preserves_pure [keeps]:
  "preserves view (eff_return x)" "preserves view (eff_throw e)" "preserves view (eff_of r)"
  by (simp_all add: preserves_def)

lemma preserves_typed [keeps]: "preserves view run \<Longrightarrow> preserves view (typed_eff run)"
  by (rule preservesI) (auto simp: typed_eff_def dest: preservesD split: prod.splits)

lemma preserves_on_world [keeps]: "preserves view run \<Longrightarrow> preserves (seen view) (on_world run)"
  by (rule preservesI) (auto simp: on_world_def dest: preservesD split: prod.splits)

lemma preserves_note [keeps]: "preserves (seen view) (note_state f)"
  by (rule preservesI) (auto simp: note_state_def)

lemma preserves_interfere [keeps]:
  "(\<And>w. view (between k w) = view w) \<Longrightarrow> preserves (seen view) (interfere between k)"
  by (rule preservesI) (auto simp: interfere_def)

lemma preserves_state [keeps]:
  "(\<And>s. preserves (seen view) (run s)) \<Longrightarrow> preserves (seen view) (\<lambda>(s, w). run s (s, w))"
  by (rule preservesI) (auto dest: preservesD)

lemma preserves_note_replay [keeps]: "preserves (seen view) (note_replay output')"
  by (rule preservesI) (auto simp: note_replay_def)

lemma preserves_preflight [keeps]: "preserves (seen view) (preflight_step env)"
  by (rule preservesI) (auto simp: preflight_step_def split: if_splits sum.splits)

lemma undone_bind:
  "preserves view run \<Longrightarrow> (\<And>x. undone view (next' x)) \<Longrightarrow> undone view (eff_bind run next')"
  by (auto simp: undone_def eff_bind_Inl_iff dest: preservesD)

lemma preserves_undone: "preserves view run \<Longrightarrow> undone view run"
  by (auto simp: undone_def dest: preservesD)

section \<open>The tables\<close>

text \<open>Everything a transaction undoes but the idempotency table, which has its own protocol.\<close>

definition tables ::
  "'a delivery_world_scheme \<Rightarrow> outbox_row list \<times> (aggregate_key \<Rightarrow> sequence_row option)
     \<times> (delivery_key \<Rightarrow> delivery_row option) \<times> 'a" where
  "tables w = (ow_events w, ow_sequences w, dw_deliveries w, delivery_world.more w)"

lemma tables_rollback [simp]: "tables (rollback_to w w') = tables w"
  by (simp add: tables_def rollback_to_def)

lemma tables_iw_rows [simp]: "tables (w\<lparr>iw_rows := rows\<rparr>) = tables w"
  by (simp add: tables_def)

lemma tables_now [simp]: "tables (w\<lparr>pr_now := n\<rparr>) = tables w"
  by (simp add: tables_def)

lemma tables_uuids [simp]: "tables (w\<lparr>pr_uuids := n\<rparr>) = tables w"
  by (simp add: tables_def)

lemma tables_entries [simp]: "tables (w\<lparr>cw_entries := n\<rparr>) = tables w"
  by (simp add: tables_def)

lemma tables_buckets [simp]: "tables (w\<lparr>rw_buckets := n\<rparr>) = tables w"
  by (simp add: tables_def)

lemma tables_apart:
  fixes w w' :: "('m, 'a) app_world_scheme"
  shows "tables w' = tables w \<longleftrightarrow> ow_events w' = ow_events w \<and> ow_sequences w' = ow_sequences w
    \<and> dw_deliveries w' = dw_deliveries w \<and> pw_audit w' = pw_audit w \<and> pw_tenancy w' = pw_tenancy w
    \<and> app_world.more w' = app_world.more w"
  by (cases w; cases w') (auto simp: tables_def)

lemma preserves_uuidv7 [keeps]: "preserves tables (\<lambda>w. uuidv7 bytes (pr_now w) w)"
  by (rule preservesI) (auto simp: uuidv7_def Let_def split: if_splits)

lemma preserves_execution_id [keeps]:
  "preserves tables (\<lambda>w. typed_eff (uuidv7 bytes (pr_now w)) w)"
  by (rule preservesI) (auto simp: typed_eff_def uuidv7_def split: if_splits)

lemma transaction_undone: "undone (seen tables) (transaction readOnly body)"
  by (auto simp: undone_def transaction_def split: prod.splits sum.splits)

lemma transaction_undoneD:
  "transaction readOnly body (s, w) = (Inl e, (s', w')) \<Longrightarrow> tables w' = tables w"
  using transaction_undone [of readOnly body] unfolding undone_def by fastforce

lemma transaction_read_only: "preserves (seen tables) (transaction True body)"
  by (rule preservesI) (auto simp: transaction_def split: prod.splits sum.splits)

lemma preview_preserves [keeps]: "preserves tables (runActionPreview env preview)"
  by (rule preservesI) (auto simp: runActionPreview_def split: prod.splits)

lemma card_preserves:
  "bindConfirmationSummary action env a = Inr run \<Longrightarrow> preserves tables run"
  by (auto simp: bindConfirmationSummary_def intro!: keeps split: option.splits)

section \<open>Hooks that leave the tables alone\<close>

text \<open>
  The contract the pipeline has with its hooks: outside the execution transaction they touch only
  their own stores, the idempotency table and the clock; recording a failure adds to the audit
  table at most. Other processes are assumed not to write the tables while a run is looked at.
\<close>

locale quiet_hooks =
  fixes deps :: "(('m, 'a) app_world_scheme, 'v) pipeline_deps"
  assumes others_quiet: "tables (pd_between deps k w) = tables w"
    and limiter_quiet: "ph_rateLimit (pd_hooks deps) = Some limiter \<Longrightarrow> preserves tables (limiter henv)"
    and gate_quiet: "ph_confirmation (pd_hooks deps) = Some confirm \<Longrightarrow> preserves tables run \<Longrightarrow>
      preserves tables (confirm penv run)"
    and probe_quiet: "ph_idempotency (pd_hooks deps) = Some hook \<Longrightarrow> preserves tables (ih_probe hook penv)"
    and reserve_quiet: "ph_idempotency (pd_hooks deps) = Some hook \<Longrightarrow>
      preserves tables (ih_reserve hook penv grant)"
    and markFailed_quiet: "ph_idempotency (pd_hooks deps) = Some hook \<Longrightarrow>
      preserves tables (ih_markFailed hook reservation err)"
    and failure_row_only: "ph_audit (pd_hooks deps) = Some audit \<Longrightarrow>
      \<exists>rows. tables (snd (ah_recordFailure audit fenv w)) = tables (w\<lparr>pw_audit := pw_audit w @ rows\<rparr>)
        \<and> length rows \<le> 1
        \<and> (\<forall>row \<in> set rows. accountable_row row \<and> al_outcome row = wire_code (error_code (fe_error fenv)))"
begin

lemma enforce_keeps [keeps]: "preserves tables (enforce_rate_limit deps env)"
  by (auto simp: enforce_rate_limit_def limiter_quiet intro: keeps split: option.splits)

lemma interfere_keeps [keeps]: "preserves (seen tables) (interfere (pd_between deps) k)"
  by (rule preserves_interfere) (rule others_quiet)

lemma probe_keeps [keeps]: "preserves tables (probe_for_gate deps env a)"
  unfolding probe_for_gate_def
  by (auto intro!: keeps probe_quiet split: option.split probe_result.split)

lemma granted_keeps [keeps]:
  assumes "ph_confirmation (pd_hooks deps) = Some confirm"
  shows "preserves tables (gate_unless_granted action env a confirm resumed)"
proof (rule preservesI)
  fix s r s' assume run: "gate_unless_granted action env a confirm resumed s = (r, s')"
  show "tables s' = tables s"
  proof (cases "bindConfirmationSummary action env a")
    case (Inl e)
    then show ?thesis using run
      by (auto simp: gate_unless_granted_def eff_bind_def typed_def split: option.splits)
  next
    case (Inr summarize)
    have "preserves tables (confirm (protocol_env_of env a) summarize)"
      by (rule gate_quiet [OF assms card_preserves [OF Inr]])
    then show ?thesis using run Inr
      by (auto simp: gate_unless_granted_def eff_bind_def typed_def dest: preservesD split: option.splits)
  qed
qed

lemma gate_keeps [keeps]: "preserves tables (runConfirmationGate deps action env a)"
  unfolding runConfirmationGate_def
  by (auto intro!: keeps split: option.split gate_result.split)

lemma gate_step_keeps [keeps]: "preserves (seen tables) (gate_step deps action env)"
  unfolding gate_step_def by (intro keeps)

lemma reserve_keeps [keeps]: "preserves tables (runIdempotencyReserve deps env a grant)"
  unfolding runIdempotencyReserve_def
  by (auto intro!: keeps reserve_quiet split: option.split reserve_outcome.split)

lemma reserve_step_keeps [keeps]: "preserves (seen tables) (reserve_step deps env i grant)"
  unfolding reserve_step_def by (auto intro!: keeps split: reserve_step.split)

lemma admit_env_keeps [keeps]: "preserves (seen tables) (admit_env deps action env)"
  unfolding admit_env_def by (auto intro!: keeps split: gate_result.split)

lemma admit_keeps [keeps]: "preserves (seen tables) (admit_steps deps call startedAt)"
  unfolding admit_steps_def by (intro keeps)

lemma execute_undone: "undone (seen tables) (execute_step deps action env i startedAt)"
  unfolding execute_step_def
proof (rule undone_bind)
  show "preserves (seen tables) (interfere (pd_between deps) 4)" by (rule interfere_keeps)
  fix x
  have post: "runPostCommitReadAudit deps action env startedAt output' s \<noteq> (Inl e, s')"
    for output' s e s'
    by (auto simp: runPostCommitReadAudit_def split: prod.splits option.splits if_splits)
  show "undone (seen tables) (eff_bind (runExecutionTransaction deps action env i startedAt) (\<lambda>output'.
     eff_bind (interfere (pd_between deps) 5) (\<lambda>_.
     eff_bind (runPostCommitReadAudit deps action env startedAt output') (\<lambda>_. eff_return output'))))"
    using post unfolding runExecutionTransaction_def undone_def
    by (auto simp: eff_bind_Inl_iff interfere_def dest: transaction_undoneD)
qed

lemma steps_undone: "undone (seen tables) (pipeline_steps deps call startedAt)"
  unfolding pipeline_steps_def
proof (rule undone_bind [OF admit_keeps])
  show "undone (seen tables) (case a of Replayed output' \<Rightarrow> eff_return output'
    | Admitted input i \<Rightarrow> execute_step deps (iv_action call) (buildRunEnv deps call input startedAt) i startedAt)"
    for a
    by (cases a) (simp_all add: execute_undone preserves_undone keeps)
qed

lemma markFailed_tables:
  "ph_idempotency (pd_hooks deps) = Some hook \<Longrightarrow>
     tables (snd (ih_markFailed hook reservation err (pd_between deps k w))) = tables w"
  using markFailed_quiet [of hook reservation err] others_quiet [of k w] by (simp add: preserves_def)

lemma failure_outcome:
  "\<exists>rows. tables (recordFailureOutcome deps call s err d w) = tables (w\<lparr>pw_audit := pw_audit w @ rows\<rparr>)
     \<and> length rows \<le> 1 \<and> (\<forall>row \<in> set rows. accountable_row row \<and> al_outcome row = wire_code (error_code err))"
proof -
  define w1 where "w1 = (case (st_reserved s, ph_idempotency (pd_hooks deps)) of
            (Some reservation, Some hook) \<Rightarrow>
              snd (ih_markFailed hook reservation err (pd_between deps 6 w))
          | _ \<Rightarrow> w)"
  have w1: "tables w1 = tables w" by (auto simp: w1_def markFailed_tables split: option.split)
  have outcome: "recordFailureOutcome deps call s err d w =
      (if ac_audit (im_contract (iv_action call))
       then case ph_audit (pd_hooks deps) of
           None \<Rightarrow> w1
         | Some hook \<Rightarrow> snd (ah_recordFailure hook (failure_env_of call s err d) (pd_between deps 7 w1))
       else w1)"
    by (simp only: recordFailureOutcome_def w1_def Let_def)
  show ?thesis
  proof (cases "ac_audit (im_contract (iv_action call)) \<and> ph_audit (pd_hooks deps) \<noteq> None")
    case False
    then have "recordFailureOutcome deps call s err d w = w1"
      by (auto simp: outcome)
    then show ?thesis using w1 by (intro exI [of _ "[]"]) simp
  next
    case True
    then obtain audit where audit: "ph_audit (pd_hooks deps) = Some audit" by auto
    define w2 where "w2 = pd_between deps 7 w1"
    have w2: "tables w2 = tables w" using w1 others_quiet by (simp add: w2_def)
    have "recordFailureOutcome deps call s err d w
        = snd (ah_recordFailure audit (failure_env_of call s err d) w2)"
      using True audit by (simp add: outcome w2_def)
    moreover have "tables (w2\<lparr>pw_audit := pw_audit w2 @ rows\<rparr>) = tables (w\<lparr>pw_audit := pw_audit w @ rows\<rparr>)" for rows
      using w2 by (simp add: tables_apart)
    ultimately show ?thesis
      using failure_row_only [OF audit, of "failure_env_of call s err d" w2]
      by (simp add: failure_env_of_def)
  qed
qed

text \<open>A failed run leaves no trace in the tables but the audit row of the failure.\<close>

lemma failed_run:
  assumes "executeAction deps call w = (Inl err, w')"
  shows "\<exists>rows. tables w' = tables (w\<lparr>pw_audit := pw_audit w @ rows\<rparr>) \<and> length rows \<le> 1
    \<and> (\<forall>row \<in> set rows. accountable_row row \<and> al_outcome row = wire_code (error_code err))"
proof -
  obtain thrown s w1 where steps:
    "pipeline_steps deps call (pr_now w) (initial_state, w) = (Inl thrown, (s, w1))"
    "err = to_core_error thrown"
    "w' = recordFailureOutcome deps call s err (pr_now w1 - pr_now w) w1"
    using assms by (auto simp: executeAction_def run_action_def Let_def split: prod.splits sum.splits)
  have "tables w1 = tables w"
    using steps_undone [of call "pr_now w"] steps(1) unfolding undone_def by fastforce
  then have "tables (w1\<lparr>pw_audit := pw_audit w1 @ rows\<rparr>) = tables (w\<lparr>pw_audit := pw_audit w @ rows\<rparr>)" for rows
    by (simp add: tables_apart)
  then show ?thesis using failure_outcome [of call s err _ w1] steps(3) by simp
qed

end

section \<open>The hooks of the server are quiet\<close>

definition quiet_options :: "(('m, 'a) app_world_scheme) pipeline_options \<Rightarrow> bool" where
  "quiet_options options \<longleftrightarrow>
     (\<forall>k w. tables (po_between options k w) = tables w)
     \<and> (\<forall>request. preserves tables (rs_consume (po_rateLimitStore options) request))
     \<and> (\<forall>key text' ttl. preserves tables (cs_set (po_confirmationStore options) key text' ttl))
     \<and> (\<forall>key. preserves tables (cs_getAndDelete (po_confirmationStore options) key))"

lemma enforce_quiet:
  assumes "\<And>request. preserves tables (rs_consume store request)"
  shows "preserves tables (enforce hmac secret store henv)"
  by (rule preservesI)
    (auto simp: enforce_def dest: preservesD [OF assms]
      split: option.splits sum.splits prod.splits rate_decision.splits if_splits)

lemma withStore_quiet [keeps]: "preserves view run \<Longrightarrow> preserves view (withStore run)"
  by (rule preservesI) (auto simp: withStore_def dest: preservesD split: prod.splits sum.splits thrown.splits)

lemma issue_quiet:
  assumes "\<And>key text' ttl. preserves tables (cs_set store key text' ttl)" and "preserves tables run"
  shows "preserves tables (issueChallenge sha256 rnd store env b run)"
  unfolding issueChallenge_def
proof (rule preserves_bind [OF assms(2)])
  fix shown
  have set: "tables (snd (withStore (cs_set store key text' ttl) w)) = tables w" for key text' ttl w
    using withStore_quiet [OF assms(1)] by (simp add: preserves_def)
  show "preserves tables (\<lambda>w. let (challengeId, w1) = randomUUID rnd w;
         expiresAt = pr_now w1 + CONFIRMATION_TTL_MS in
       eff_bind (eff_of (typed (previewHashOf sha256 shown))) (\<lambda>previewHash.
       eff_bind (withStore (cs_set store (challengeKey challengeId)
           (ChallengeText \<lparr>sc_challengeId = challengeId,
              sc_actionName = ac_name (pe_contract env), sc_inputHash = cb_inputHash b,
              sc_previewHash = previewHash, sc_principalKey = cb_principalKey b,
              sc_companyId = cb_companyId b, sc_idempotencyKey = cb_idempotencyKey b,
              sc_expiresAt = expiresAt\<rparr>) CONFIRMATION_TTL_MS)) (\<lambda>_.
         eff_throw (Typed (confirmation_required \<lparr>ch_challengeId = challengeId,
           ch_summary = cm_summary shown, ch_expiresAt = expiresAt,
           ch_preview = cm_preview shown\<rparr>)))) w1)"
    by (auto simp: preserves_def randomUUID_def eff_bind_def Let_def split: sum.splits prod.splits)
      (metis set snd_conv tables_uuids)+
qed

lemma redeem_quiet:
  assumes "\<And>key text' ttl. preserves tables (cs_set store key text' ttl)" and "preserves tables run"
  shows "preserves tables (redeem sha256 zod_uuid rnd store env run b i raw)"
proof -
  have issue: "preserves tables (issueChallenge sha256 rnd store env b run')" if "preserves tables run'" for run'
    by (rule issue_quiet [OF assms(1) that])
  have drift: "preserves tables (eff_bind run (\<lambda>presented.
      eff_bind (eff_of (typed (previewHashOf sha256 presented))) (\<lambda>hash.
        if hash = Some h then eff_return (grant_of stored n)
        else issueChallenge sha256 rnd store env b (eff_return presented))))" for h stored n
    by (intro keeps assms) (auto intro!: keeps issue)
  show ?thesis
    unfolding preserves_def using issue [OF assms(2)] drift
    by (auto simp: redeem_def Let_def preserves_def split: option.split)
qed

lemma gate_quiet:
  assumes "\<And>key text' ttl. preserves tables (cs_set store key text' ttl)"
    and "\<And>key. preserves tables (cs_getAndDelete store key)" and "preserves tables run"
  shows "preserves tables (gate sha256 zod_uuid rnd store env run)"
  unfolding gate_def
  by (auto intro!: keeps assms issue_quiet redeem_quiet split: option.split)

lemma takeover_quiet:
  assumes "\<And>k w. tables (between k w) = tables w"
  shows "preserves tables (takeover rnd between rr i n reset)"
  by (rule preservesI) (auto simp: takeover_def randomUUID_def Let_def assms split: prod.splits if_splits)

lemma reserve_round_quiet:
  assumes "\<And>k w. tables (between k w) = tables w"
  shows "tables (snd (reserve_round rnd between rr w)) = tables w"
proof -
  have take: "tables (snd (takeover rnd between rr i n reset w)) = tables w" for i n reset w
    using takeover_quiet [OF assms] by (simp add: preserves_def)
  show ?thesis
    by (auto simp: reserve_round_def randomUUID_def Let_def assms
        split: prod.splits option.splits row_decision.splits if_splits)
      (metis assms snd_conv take tables_iw_rows tables_uuids)+
qed

lemma reserve_rounds_quiet:
  assumes "\<And>k w. tables (between k w) = tables w"
  shows "preserves tables (reserve_rounds n rnd between rr)"
  using assms
proof (induction n arbitrary: between)
  case 0
  then show ?case by (simp add: preserves_def)
next
  case (Suc n)
  have "preserves tables (reserve_rounds n rnd (\<lambda>k. between (k + 6)) rr)"
    by (rule Suc.IH) (rule Suc.prems)
  then show ?case
    using reserve_round_quiet [of between rnd rr, OF Suc.prems]
    by (simp add: preserves_def split: prod.splits option.splits) (metis snd_conv)
qed

lemma idempotency_quiet:
  assumes "\<And>k w. tables (between k w) = tables w"
  shows "preserves tables (ih_probe (createIdempotencyHook sha256 rnd between) env)"
    and "preserves tables (ih_reserve (createIdempotencyHook sha256 rnd between) env grant)"
    and "preserves tables (ih_markFailed (createIdempotencyHook sha256 rnd between) r err)"
proof -
  have "preserves tables (probe sha256 between env)"
    by (rule preservesI) (auto simp: probe_def Let_def assms split: sum.splits)
  then show "preserves tables (ih_probe (createIdempotencyHook sha256 rnd between) env)"
    by (simp add: createIdempotencyHook_def keeps)
  have "preserves tables (reserve sha256 rnd between env grant)"
    unfolding reserve_def by (intro keeps reserve_rounds_quiet assms)
  then show "preserves tables (ih_reserve (createIdempotencyHook sha256 rnd between) env grant)"
    by (simp add: createIdempotencyHook_def keeps)
  show "preserves tables (ih_markFailed (createIdempotencyHook sha256 rnd between) r err)"
    by (simp add: createIdempotencyHook_def preserves_def markFailed_def)
qed

lemma recordFailure_rows:
  "\<exists>rows. snd (recordFailure sha256 env w) = w\<lparr>pw_audit := pw_audit w @ rows\<rparr> \<and> length rows \<le> 1
     \<and> (\<forall>row \<in> set rows. accountable_row row \<and> al_outcome row = wire_code (error_code (fe_error env)))"
proof (cases "\<exists>input row. fe_input env = Some input \<and> failure_row sha256 env input = Inr row")
  case True
  then obtain input row where row: "fe_input env = Some input" "failure_row sha256 env input = Inr row" by auto
  then show ?thesis
    using failure_row_accountable [OF row(2)]
    by (intro exI [of _ "[row]"]) (simp add: recordFailure_def insertAuditRow_def)
next
  case False
  then have "snd (recordFailure sha256 env w) = w"
    by (auto simp: recordFailure_def split: option.splits sum.splits)
  then show ?thesis by (intro exI [of _ "[]"]) simp
qed

text \<open>The limiter of a composition, whose secret has been checked.\<close>

definition server_limiter :: "'a process_scheme pipeline_options \<Rightarrow> hook_env \<Rightarrow> ('a process_scheme, thrown, unit) eff" where
  "server_limiter options = enforce (po_hmac options) (po_ipHmacSecret options) (po_rateLimitStore options)"

lemma created_pipeline:
  "createActionPipeline options = Inr deps \<longleftrightarrow> po_ipHmacSecret options \<noteq> []
     \<and> deps = pipeline_of options (po_between options) (server_hooks options (server_limiter options))"
  by (auto simp: createActionPipeline_def createRateLimitHook_def server_limiter_def)

lemma hooks_quiet:
  assumes "quiet_options options"
  shows "quiet_hooks (pipeline_of options (po_between options) (server_hooks options (server_limiter options)))"
    (is "quiet_hooks ?deps")
proof -
  note quiet = assms [unfolded quiet_options_def]
  have between: "tables (po_between options k w) = tables w" for k w using quiet by blast
  show ?thesis
  proof
    show "tables (pd_between ?deps k w) = tables w" for k w
      using between by (simp add: pipeline_of_def)
    show "preserves tables (f henv)" if "ph_rateLimit (pd_hooks ?deps) = Some f" for f henv
      using that quiet enforce_quiet by (auto simp: pipeline_of_def server_hooks_def server_limiter_def)
    show "preserves tables (confirm penv run)"
      if "ph_confirmation (pd_hooks ?deps) = Some confirm" "preserves tables run" for confirm penv run
      using that(1) gate_quiet [OF _ _ that(2), of "po_confirmationStore options"] quiet
      by (auto simp: pipeline_of_def server_hooks_def)
    show "\<exists>rows. tables (snd (ah_recordFailure audit fenv w)) = tables (w\<lparr>pw_audit := pw_audit w @ rows\<rparr>)
        \<and> length rows \<le> 1
        \<and> (\<forall>row \<in> set rows. accountable_row row \<and> al_outcome row = wire_code (error_code (fe_error fenv)))"
      if "ph_audit (pd_hooks ?deps) = Some audit" for audit fenv w
      using that recordFailure_rows [of "po_sha256 options" fenv w]
      by (auto simp: pipeline_of_def server_hooks_def createAuditHook_def)
  next
    fix hook penv grant r err
    assume "ph_idempotency (pd_hooks ?deps) = Some hook"
    then have hook: "hook = createIdempotencyHook (po_sha256 options) (po_rnd options)
        (\<lambda>k. po_between options (k + 8))"
      by (simp add: pipeline_of_def server_hooks_def)
    show "preserves tables (ih_probe hook penv)" "preserves tables (ih_reserve hook penv grant)"
      "preserves tables (ih_markFailed hook r err)"
      unfolding hook by (rule idempotency_quiet; rule between)+
  qed
qed

lemma server_quiet: "quiet_options options \<Longrightarrow> createActionPipeline options = Inr deps \<Longrightarrow> quiet_hooks deps"
  using hooks_quiet by (auto simp: created_pipeline)

section \<open>The memory stores\<close>

text \<open>A server on the in-memory stores, with no other process; the rest of its options is free.\<close>

definition memory_options ::
  "(('m, 'a) app_world_scheme) pipeline_options \<Rightarrow> (('m, 'a) app_world_scheme) pipeline_options" where
  "memory_options options = options\<lparr>po_rateLimitStore := createInMemoryRateLimitStore,
     po_confirmationStore := createInMemoryConfirmationStore, po_between := alone\<rparr>"

lemma memory_quiet: "quiet_options (memory_options options)"
  by (auto simp: quiet_options_def memory_options_def createInMemoryRateLimitStore_def memory_consume_def
      createInMemoryConfirmationStore_def memory_set_def memory_getAndDelete_def Let_def
      intro!: preservesI split: prod.splits)

definition memory_pipeline ::
  "(('m, 'a) app_world_scheme) pipeline_options \<Rightarrow>
     (('m, 'a) app_world_scheme, idempotency_reservation) pipeline_deps" where
  "memory_pipeline options = (let options' = memory_options options in
     pipeline_of options' (po_between options') (server_hooks options' (server_limiter options')))"

interpretation memory: quiet_hooks "memory_pipeline options" for options
  unfolding memory_pipeline_def Let_def by (rule hooks_quiet [OF memory_quiet])


section \<open>Handlers and authority\<close>

text \<open>The same invocation with another handler.\<close>

definition with_handler ::
  "'w handler \<Rightarrow> ('m, 'w) action_invocation \<Rightarrow> ('m, 'w) action_invocation" where
  "with_handler run call = call\<lparr>iv_action := (iv_action call)\<lparr>im_handler := run\<rparr>\<rparr>"

lemma with_handler_sel [simp]:
  "iv_input (with_handler h call) = iv_input call"
  "iv_request (with_handler h call) = iv_request call"
  "iv_principal (with_handler h call) = iv_principal call"
  "iv_action (with_handler h call) = (iv_action call)\<lparr>im_handler := h\<rparr>"
  by (simp_all add: with_handler_def)

lemma with_handler_env [simp]:
  "pipeline_request (with_handler h call) = pipeline_request call"
  "run_deadline (with_handler h call) t = run_deadline call t"
  "buildRunEnv deps (with_handler h call) input t = buildRunEnv deps call input t"
  "parse_input deps (with_handler h call) = parse_input deps call"
  "assert_step2 deps (with_handler h call) = assert_step2 deps call"
  "failure_env_of (with_handler h call) = failure_env_of call"
  by (auto simp: with_handler_def pipeline_request_def run_deadline_def buildRunEnv_def parse_input_def
      assert_step2_def failure_env_of_def Let_def fun_eq_iff)

lemma same_contract: "im_contract (action\<lparr>im_handler := h\<rparr>) = im_contract action"
  by simp

lemma failure_outcome_handler [simp]:
  "recordFailureOutcome deps (with_handler h call) = recordFailureOutcome deps call"
  by (simp only: recordFailureOutcome_def fun_eq_iff with_handler_sel with_handler_env
      same_contract simp_thms)

lemma bind_summary_handler [simp]:
  "bindConfirmationSummary (action\<lparr>im_handler := h\<rparr>) = bindConfirmationSummary action"
  by (auto simp: fun_eq_iff bindConfirmationSummary_def split: option.split)

lemma granted_handler [simp]:
  "gate_unless_granted (action\<lparr>im_handler := h\<rparr>) = gate_unless_granted action"
  by (simp only: fun_eq_iff gate_unless_granted_def bind_summary_handler simp_thms)

lemma gate_handler [simp]:
  "runConfirmationGate deps (action\<lparr>im_handler := h\<rparr>) = runConfirmationGate deps action"
  by (simp only: fun_eq_iff runConfirmationGate_def granted_handler simp_thms)

lemma gate_step_handler [simp]: "gate_step deps (action\<lparr>im_handler := h\<rparr>) = gate_step deps action"
  by (simp only: gate_step_def fun_eq_iff gate_handler simp_thms)

lemma admit_env_handler [simp]: "admit_env deps (action\<lparr>im_handler := h\<rparr>) = admit_env deps action"
  by (simp only: fun_eq_iff admit_env_def gate_step_handler simp_thms)

lemma admit_steps_handler [simp]: "admit_steps deps (with_handler h call) t = admit_steps deps call t"
  unfolding admit_steps_def by simp

lemma eff_bind_agree:
  "m s = m' s \<Longrightarrow> (\<And>x s'. m s = (Inr x, s') \<Longrightarrow> f x s' = f' x s') \<Longrightarrow> eff_bind m f s = eff_bind m' f' s"
  by (auto simp: eff_bind_def split: prod.split sum.split)

text \<open>The situations in which the pipeline applies a handler.\<close>

definition handler_called ::
  "(('m, 'a) app_world_scheme, 'v) pipeline_deps \<Rightarrow> ('m, ('m, 'a) app_world_scheme) action_invocation \<Rightarrow>
     ms \<Rightarrow> json \<Rightarrow> action_ctx \<Rightarrow> (('m, 'a) app_world_scheme) handler_state \<Rightarrow> bool" where
  "handler_called deps call startedAt input ctx hs \<longleftrightarrow>
     (let c = im_contract (iv_action call) in
      pd_zod deps (ac_input c) (iv_input call) = Inr input
      \<and> assert_step2 deps call = Inr ()
      \<and> ctx_principal ctx = ac_principal c \<and> ctx_principal ctx = invocation_mode (iv_principal call)
      \<and> ctx_actor_ok ctx
      \<and> (ac_risk c = RiskRead \<longrightarrow> bc_db (ctx_base ctx) \<noteq> WritableTx)
      \<and> bc_deadline (ctx_base ctx) = startedAt + js_int (ac_timeout c)
      \<and> pr_now (hs_world hs) < startedAt + js_int (ac_timeout c)
      \<and> (\<forall>m. ctx_membership ctx = Some m \<longrightarrow> (\<forall>p \<in> set (ac_permissions c). staffHasPermission m p))
      \<and> eb_buffered (hs_emits hs) = [] \<and> qb_buffered (hs_jobs hs) = [])"

lemma audit_handler [simp]:
  "requireAuditTarget (action\<lparr>im_handler := h\<rparr>) = requireAuditTarget action"
  "success_env_of (action\<lparr>im_handler := h\<rparr>) = success_env_of action"
  by (simp_all add: requireAuditTarget_def success_env_of_def fun_eq_iff)

lemma audit_success_handler [simp]:
  "audit_success hook (action\<lparr>im_handler := h\<rparr>) = audit_success hook action"
  by (simp only: fun_eq_iff audit_success_def audit_handler simp_thms)

lemma audit_in_handler [simp]:
  "audit_in_transaction deps (action\<lparr>im_handler := h\<rparr>) = audit_in_transaction deps action"
  by (simp only: fun_eq_iff audit_in_transaction_def audit_success_handler simp_thms)

lemma slots_handler [simp]:
  "protocol_slots deps (action\<lparr>im_handler := h\<rparr>) = protocol_slots deps action"
  by (simp only: fun_eq_iff protocol_slots_def audit_in_handler simp_thms)

lemma post_audit_handler [simp]:
  "runPostCommitReadAudit deps (action\<lparr>im_handler := h\<rparr>) = runPostCommitReadAudit deps action"
  by (simp only: fun_eq_iff runPostCommitReadAudit_def audit_success_handler simp_thms)

lemma construct_called:
  assumes "parse_input deps call = Inr input" and "assert_step2 deps call = Inr ()"
    and "constructPrincipalContext (buildRunEnv deps call input t) tn
      (ac_risk (im_contract (iv_action call)) = RiskRead) = Inr ctx"
    and "pr_now w < run_deadline call t"
  shows "handler_called deps call t input ctx (handler_start i box w)"
proof -
  have mode: "ac_principal (im_contract (iv_action call)) = invocation_mode (iv_principal call)"
    using assms(2) by (auto simp: assert_step2_def Let_def eff_simps assertPrincipalShape_def split: if_splits)
  show ?thesis
    using construct_capability [OF assms(3)] assms mode
    by (auto simp: handler_called_def ctx_capability_ok_def ctx_inv_def buildRunEnv_def Let_def
        run_deadline_def handler_start_def createEmitBuffer_def createEnqueueBuffer_def parse_input_def
        split: sum.splits)
qed

lemma execution_agrees:
  assumes "parse_input deps call = Inr input" and "assert_step2 deps call = Inr ()"
    and agree: "\<And>ctx hs. handler_called deps call t input ctx hs \<Longrightarrow> h1 input ctx hs = h2 input ctx hs"
  shows "execution_body deps ((iv_action call)\<lparr>im_handler := h1\<rparr>) (buildRunEnv deps call input t) i t sw
    = execution_body deps ((iv_action call)\<lparr>im_handler := h2\<rparr>) (buildRunEnv deps call input t) i t sw"
  unfolding execution_body_def
proof (rule eff_bind_agree [OF refl], rule eff_bind_agree [OF refl], rule eff_bind_agree [OF refl],
    goal_cases)
  case (1 limit sw1 ctx sw2 u sw3)
  let ?env = "buildRunEnv deps call input t"
  have ctx: "constructPrincipalContext ?env (pw_tenancy (snd sw1))
      (ac_risk (im_contract (iv_action call)) = RiskRead) = Inr ctx"
    using 1(2) by (auto simp: buildRunEnv_def split: prod.splits)
  have "runWithDeadline deps h1 ?env i ctx sw3 = runWithDeadline deps h2 ?env i ctx sw3"
  proof (cases sw3)
    case (Pair s w)
    have "h1 input ctx (handler_start i (st_auditTarget s) w) = h2 input ctx (handler_start i (st_auditTarget s) w)"
      if "pr_now w < run_deadline call t"
      by (rule agree, rule construct_called [OF assms(1,2) ctx that])
    then show ?thesis using Pair by (simp add: runWithDeadline_def buildRunEnv_def)
  qed
  then show ?case
    by (intro eff_bind_agree) simp_all
qed

lemma reserve_step_admits:
  assumes "reserve_step deps env i grant sw = (Inr (Admitted input i'), sw')"
  shows "input = rv_input env \<and> i' = i"
proof -
  obtain step sw1 where "(case step of StepReplay output' \<Rightarrow> note_replay output'
      | StepExecute reserved \<Rightarrow> eff_bind (note_state (st_reserved_update (\<lambda>_. reserved)))
          (\<lambda>_. eff_return (Admitted (rv_input env) i))) sw1 = (Inr (Admitted input i'), sw')"
    using assms unfolding reserve_step_def eff_bind_Inr_iff by blast
  then show ?thesis by (cases step) (auto simp: note_replay_def eff_bind_Inr_iff split: prod.splits)
qed

lemma admit_env_admits:
  assumes "admit_env deps action env sw = (Inr (Admitted input i), sw')"
  shows "input = rv_input env"
proof -
  obtain gate sw1 i' where "(case gate of GateReplay output' \<Rightarrow> note_replay output'
      | GateExecute grant \<Rightarrow> reserve_step deps env i' grant) sw1 = (Inr (Admitted input i), sw')"
    using assms unfolding admit_env_def eff_bind_Inr_iff by blast
  then show ?thesis
    using reserve_step_admits [of deps env i' _ sw1 input i sw']
    by (auto simp: note_replay_def split: gate_result.splits prod.splits)
qed

lemma admitted_input:
  assumes "admit_steps deps call t sw = (Inr (Admitted input i), sw')"
  shows "parse_input deps call = Inr input \<and> assert_step2 deps call = Inr ()"
proof -
  obtain input' sw1 where parsed: "parse_input deps call = Inr input'" "assert_step2 deps call = Inr ()"
    "admit_env deps (iv_action call) (buildRunEnv deps call input' t) sw1 = (Inr (Admitted input i), sw')"
    using assms by (auto simp: admit_steps_def eff_bind_Inr_iff)
  show ?thesis using parsed(1,2) admit_env_admits [OF parsed(3)] by (simp add: buildRunEnv_def)
qed

text \<open>
  C4: a handler runs with verified authority or not at all. Two handlers that agree on the calls
  the pipeline makes - input that passed the declared schema, a context of the declared principal
  mode whose member holds every declared permission, no write capability for a read action,
  before the deadline, with empty buffers - give the same run: the same answer, the same log
  line, the same world. What a handler would do on any other input, context or time never matters.
\<close>

theorem handlers_run_with_verified_authority:
  assumes "\<And>input ctx hs. handler_called deps call (pr_now w) input ctx hs \<Longrightarrow>
      h1 input ctx hs = h2 input ctx hs"
  shows "run_action deps (with_handler h1 call) w = run_action deps (with_handler h2 call) w"
proof -
  let ?t = "pr_now w"
  have "pipeline_steps deps (with_handler h1 call) ?t (initial_state, w)
      = pipeline_steps deps (with_handler h2 call) ?t (initial_state, w)"
    unfolding pipeline_steps_def
  proof (rule eff_bind_agree, simp)
    fix admission sw
    assume a: "admit_steps deps (with_handler h1 call) ?t (initial_state, w) = (Inr admission, sw)"
    show "(case admission of Replayed output' \<Rightarrow> eff_return output'
       | Admitted input i \<Rightarrow> execute_step deps (iv_action (with_handler h1 call))
           (buildRunEnv deps (with_handler h1 call) input ?t) i ?t) sw
     = (case admission of Replayed output' \<Rightarrow> eff_return output'
       | Admitted input i \<Rightarrow> execute_step deps (iv_action (with_handler h2 call))
           (buildRunEnv deps (with_handler h2 call) input ?t) i ?t) sw"
    proof (cases admission)
      case (Admitted input i)
      have "parse_input deps call = Inr input \<and> assert_step2 deps call = Inr ()"
        using admitted_input [of deps call] a Admitted by (cases sw) simp
      then have "execution_body deps ((iv_action call)\<lparr>im_handler := h1\<rparr>) (buildRunEnv deps call input ?t) i ?t
          = execution_body deps ((iv_action call)\<lparr>im_handler := h2\<rparr>) (buildRunEnv deps call input ?t) i ?t"
        using execution_agrees assms by (intro ext) blast
      then show ?thesis
        using Admitted by (simp add: execute_step_def runExecutionTransaction_def)
    qed simp
  qed
  then show ?thesis by (simp add: run_action_def cong: sum.case_cong)
qed

section \<open>What a run that executes went through\<close>

lemma note_replay_sets: "note_replay output' sw = (Inr a, (s, w)) \<Longrightarrow> st_replayed s \<and> a = Replayed output'"
  by (auto simp: note_replay_def split: prod.splits)

lemma admit_replayed:
  assumes "admit_steps deps call t sw = (Inr (Replayed output'), (s, w))"
  shows "st_replayed s"
proof -
  obtain env sw1 where env: "admit_env deps (iv_action call) env sw1 = (Inr (Replayed output'), (s, w))"
    using assms by (auto simp: admit_steps_def eff_bind_Inr_iff)
  obtain gate i sw2 where "(case gate of GateReplay output' \<Rightarrow> note_replay output'
      | GateExecute grant \<Rightarrow> reserve_step deps env i grant) sw2 = (Inr (Replayed output'), (s, w))"
    using env unfolding admit_env_def eff_bind_Inr_iff by blast
  then show ?thesis
  proof (cases gate)
    case (GateExecute grant)
    then have "reserve_step deps env i grant sw2 = (Inr (Replayed output'), (s, w))"
      using \<open>(case gate of GateReplay output' \<Rightarrow> note_replay output'
        | GateExecute grant \<Rightarrow> reserve_step deps env i grant) sw2 = (Inr (Replayed output'), (s, w))\<close> by simp
    then obtain step sw3 where "(case step of StepReplay output' \<Rightarrow> note_replay output'
      | StepExecute reserved \<Rightarrow> eff_bind (note_state (st_reserved_update (\<lambda>_. reserved)))
          (\<lambda>_. eff_return (Admitted (rv_input env) i))) sw3 = (Inr (Replayed output'), (s, w))"
      unfolding reserve_step_def eff_bind_Inr_iff by blast
    then show ?thesis by (cases step) (auto simp: eff_bind_Inr_iff dest: note_replay_sets)
  qed (auto dest: note_replay_sets)
qed

lemma executed_run:
  assumes "run_action deps call w = ((Inr output', line), w')" and "\<not> fl_replayed line"
  obtains input i s1 w1 s2 where
    "admit_steps deps call (pr_now w) (initial_state, w) = (Inr (Admitted input i), (s1, w1))"
    "execute_step deps (iv_action call) (buildRunEnv deps call input (pr_now w)) i (pr_now w) (s1, w1)
       = (Inr output', (s2, w'))"
proof -
  obtain s where steps: "pipeline_steps deps call (pr_now w) (initial_state, w) = (Inr output', (s, w'))"
    and line: "\<not> st_replayed s"
    using assms by (auto simp: run_action_def Let_def finish_def split: prod.splits sum.splits)
  obtain a s1 w1 where a: "admit_steps deps call (pr_now w) (initial_state, w) = (Inr a, (s1, w1))"
    "(case a of Replayed output' \<Rightarrow> eff_return output'
       | Admitted input i \<Rightarrow> execute_step deps (iv_action call)
           (buildRunEnv deps call input (pr_now w)) i (pr_now w)) (s1, w1) = (Inr output', (s, w'))"
    using steps unfolding pipeline_steps_def eff_bind_Inr_iff by auto
  show thesis
  proof (cases a)
    case (Replayed out)
    then show ?thesis using a admit_replayed [of deps call "pr_now w" "(initial_state, w)" out s1 w1] line by simp
  next
    case (Admitted input i)
    show ?thesis by (rule that [of input i s1 w1 s]) (use a Admitted in simp_all)
  qed
qed

lemma on_world_result: "on_world run (s, w) = (r, (s', w')) \<longleftrightarrow> s' = s \<and> run w = (r, w')"
  by (auto simp: on_world_def split: prod.splits)

lemma handled_Inr:
  assumes "runWithDeadline deps h env i ctx (s, w) = (Inr handled, (s', w'))"
  obtains raw hs where "h (rv_input env) ctx (handler_start i (st_auditTarget s) w) = (Inr raw, hs)"
    "handled = \<lparr>hd_raw = raw, hd_emits = hs_emits hs, hd_jobs = hs_jobs hs\<rparr>"
    "s' = s\<lparr>st_auditTarget := hs_target hs\<rparr>" "w' = hs_world hs" "pr_now w < rv_deadline env"
  using assms by (auto simp: runWithDeadline_def split: if_splits prod.splits sum.splits)

lemma body_Inr:
  assumes "execution_body deps action env i t (s, w) = (Inr output', (s', w'))"
  obtains ctx raw hs where
    "constructPrincipalContext env (pw_tenancy w) (ac_risk (rv_contract env) = RiskRead) = Inr ctx"
    "pr_now w < rv_deadline env"
    "im_handler action (rv_input env) ctx (handler_start i (st_auditTarget s) w) = (Inr raw, hs)"
    "pd_zod deps (ac_output (rv_contract env)) raw = Inr output'"
    "s' = s\<lparr>st_executionCtx := Some ctx, st_auditTarget := hs_target hs\<rparr>"
    "protocol_slots deps action env i t ctx
       \<lparr>hd_raw = raw, hd_emits = hs_emits hs, hd_jobs = hs_jobs hs\<rparr> output' s' (hs_world hs) = (Inr (), w')"
proof -
  obtain ctx handled s2 w2 where body:
    "constructPrincipalContext env (pw_tenancy w) (ac_risk (rv_contract env) = RiskRead) = Inr ctx"
    "runWithDeadline deps (im_handler action) env i ctx (s\<lparr>st_executionCtx := Some ctx\<rparr>, w) = (Inr handled, (s2, w2))"
    "validateOutput (pd_zod deps) (rv_contract env) (hd_raw handled) = Inr output'"
    "protocol_slots deps action env i t ctx handled output' s2 w2 = (Inr (), w')" "s' = s2"
    using assms
    by (auto simp: execution_body_def eff_bind_Inr_iff on_world_result note_state_def applyStatementTimeout_def)
  obtain raw hs where h: "im_handler action (rv_input env) ctx
        (handler_start i (st_auditTarget s) w) = (Inr raw, hs)"
    "handled = \<lparr>hd_raw = raw, hd_emits = hs_emits hs, hd_jobs = hs_jobs hs\<rparr>"
    "s2 = s\<lparr>st_executionCtx := Some ctx, st_auditTarget := hs_target hs\<rparr>" "w2 = hs_world hs"
    "pr_now w < rv_deadline env"
    using handled_Inr [OF body(2)] by auto
  show thesis
  proof (rule that [OF body(1) h(5)])
    show "im_handler action (rv_input env) ctx (handler_start i (st_auditTarget s) w) = (Inr raw, hs)"
      using h(1) by (simp add: handler_start_def)
    show "pd_zod deps (ac_output (rv_contract env)) raw = Inr output'"
      using body(3) h(2) by (auto simp: validateOutput_def split: sum.splits)
  qed (use body h in simp_all)
qed

text \<open>A mutation: neither a read nor a snapshot, so its transaction is writable and nothing follows it.\<close>

definition mutation :: "action_contract \<Rightarrow> bool" where
  "mutation c \<longleftrightarrow> ac_risk c \<noteq> RiskRead \<and> \<not> ac_consistencySnapshot c"

lemma execute_mutation:
  assumes "execute_step deps action env i t (s, w) = (Inr output', (s', w'))" and "mutation (rv_contract env)"
  obtains w2 where "execution_body deps action env i t (s, pd_between deps 4 w) = (Inr output', (s', w2))"
    "w' = pd_between deps 5 w2"
  using assms
  by (auto simp: execute_step_def eff_bind_Inr_iff interfere_def runExecutionTransaction_def transaction_def
      mutation_def runPostCommitReadAudit_def split: prod.splits sum.splits)

lemma slots_Inr:
  assumes "protocol_slots deps action env i t ctx handled output' s w = (Inr (), w')"
  obtains sealed w1 origin sealed' w2 w3 where
    "flush ctx (run_causation env) (hd_emits handled) w = (Inr sealed, w1)"
    "run_job_origin env i s = Inr origin"
    "enqueue_flush (pd_sha256 deps) ctx origin (ph_jobs (pd_hooks deps)) (hd_jobs handled) w1 = (Inr sealed', w2)"
    "audit_in_transaction deps action env output' ctx t (st_auditTarget s) w2 = (Inr (), w3)"
    "finalize_in_transaction deps (st_reserved s) output' w3 = (Inr (), w')"
  using assms by (auto simp: protocol_slots_def eff_bind_Inr_iff)

section \<open>A server, an action and its invocation\<close>

text \<open>A server on the memory stores with one system action that sweeps the orders.\<close>

definition sample_sweep :: action_contract where
  "sample_sweep = sample_contract\<lparr>ac_name := ''orders.sweep'', ac_principal := System,
     ac_systemScope := Some GlobalScope, ac_transport := Internal, ac_permissions := [],
     ac_risk := RiskWrite, ac_requiresConfirmation := False, ac_idempotent := False,
     ac_aiExposure := NotExposed\<rparr>"

definition sample_server :: "(unit app_world) pipeline_options" where
  "sample_server = memory_options
     \<lparr>po_hmac = (\<lambda>k t. ''m''), po_zodUuid = (\<lambda>s. True), po_rnd = (\<lambda>n. replicate n (CHR ''1'')),
      po_jobs = (\<lambda>envelopes. eff_return ()), po_rateLimitStore = createInMemoryRateLimitStore,
      po_confirmationStore = createInMemoryConfirmationStore, po_ipHmacSecret = ''s'', po_grants = [],
      po_zod = (\<lambda>s v. Inr v), po_sha256 = (\<lambda>t. ''h''), po_randomBytes = (\<lambda>n. replicate 16 (of_nat n)),
      po_between = alone, po_expiryWins = (\<lambda>w. True)\<rparr>"

definition sample_deps :: "(unit app_world, idempotency_reservation) pipeline_deps" where
  "sample_deps = pipeline_of sample_server (po_between sample_server)
     (server_hooks sample_server (server_limiter sample_server))"

definition sample_call :: "unit app_world handler \<Rightarrow> (unit, unit app_world) action_invocation" where
  "sample_call h = \<lparr>iv_action = \<lparr>im_contract = sample_sweep, im_handler = h, im_resolveTarget = None,
       im_confirmationSummary = None, im_preview = None,
       im_auditTarget = Some (\<lambda>te. Inr \<lparr>tr_type = ''order'', tr_id = ''o1''\<rparr>), im_auditSnapshot = None\<rparr>,
     iv_input = JNull, iv_request = sample_hook_request,
     iv_principal = InvokeSystem ''worker'' GlobalScopeInput False\<rparr>"

definition sample_start :: "unit app_world" where
  "sample_start = \<lparr>pr_now = 1000, pr_uuids = 0, iw_rows = Map.empty, cw_entries = Map.empty, rw_buckets = Map.empty,
     ow_events = [], ow_sequences = Map.empty, dw_deliveries = Map.empty, pw_audit = [],
     pw_tenancy = sample_tenancy\<rparr>"

lemma sample_created: "createActionPipeline sample_server = Inr sample_deps" "quiet_options sample_server"
  unfolding sample_deps_def
  by (simp_all add: created_pipeline memory_quiet sample_server_def)
     (simp add: memory_options_def)

lemma sample_deps_sel:
  "pd_zod sample_deps = (\<lambda>s v. Inr v)" "pd_between sample_deps = alone" "pd_randomBytes sample_deps = (\<lambda>n. replicate 16 (of_nat n))"
  "pd_expiryWins sample_deps = (\<lambda>w. True)" "pd_sha256 sample_deps = (\<lambda>t. ''h'')"
  "pd_hooks sample_deps = server_hooks sample_server (server_limiter sample_server)"
  by (simp_all add: sample_deps_def pipeline_of_def sample_server_def memory_options_def)

lemma sample_admitted:
  "\<exists>i s. admit_steps sample_deps (sample_call h) 1000 (initial_state, sample_start)
     = (Inr (Admitted JNull i), (s, sample_start\<lparr>pr_uuids := 1\<rparr>)) \<and> st_reserved s = None \<and> \<not> st_replayed s"
  by (simp add: admit_steps_def parse_input_def sample_deps_sel sample_call_def sample_sweep_def sample_contract_def
      typed_def assert_step2_def Let_def assertPrincipalShape_def assertAuthenticated_def
      pipeline_request_def sample_hook_request_def assertExecutionTimeConfirmation_def
      assertRequiredProtocolHooks_def confirmationIsRequired_def composed_def server_hooks_def
      note_state_def admit_env_def eff_bind_def on_world_def typed_eff_def uuidv7_def sample_start_def
      MAX_TIMESTAMP_MS_def interfere_def enforce_rate_limit_def server_limiter_def enforce_def
      buildRunEnv_def hook_env_of_def rate_policy_def defaultPolicyFor_def preflight_step_def needsPreflight_def
      gate_step_def runConfirmationGate_def reserve_step_def runIdempotencyReserve_def initial_state_def)


lemma sample_context:
  "\<exists>ctx. constructPrincipalContext (buildRunEnv sample_deps (sample_call h) JNull 1000) tn False = Inr ctx
     \<and> ctx_principal ctx = System \<and> bc_actor (ctx_base ctx) = SystemActor ''worker''"
  by (simp add: constructPrincipalContext_def buildRunEnv_def sample_call_def createSystemContext_def typed_def)

text \<open>A handler that writes and crashes, and one that writes and answers.\<close>

definition sample_crash :: "unit app_world handler" where
  "sample_crash input ctx hs =
     (Inl Foreign, hs\<lparr>hs_world := (hs_world hs)\<lparr>ow_sequences := (\<lambda>k. Some \<lparr>sq_companyId = None, sq_lastSequence = 1\<rparr>)\<rparr>\<rparr>)"

definition sample_write :: "unit app_world handler" where
  "sample_write input ctx hs =
     (Inr (JString ''done''), hs\<lparr>hs_world := (hs_world hs)\<lparr>ow_sequences := (\<lambda>k. Some \<lparr>sq_companyId = None, sq_lastSequence = 1\<rparr>)\<rparr>\<rparr>)"

lemma sample_sel:
  "im_handler (iv_action (sample_call h)) = h"
  "im_auditTarget (iv_action (sample_call h)) = Some (\<lambda>te. Inr \<lparr>tr_type = ''order'', tr_id = ''o1''\<rparr>)"
  "im_auditSnapshot (iv_action (sample_call h)) = None" "pr_now sample_start = 1000"
  "pw_tenancy sample_start = sample_tenancy" "im_contract (iv_action (sample_call h)) = sample_sweep"
  "rv_deadline (buildRunEnv sample_deps (sample_call h) JNull 1000) = 11000"
  "rv_contract (buildRunEnv sample_deps (sample_call h) JNull 1000) = sample_sweep"
  "rv_input (buildRunEnv sample_deps (sample_call h) JNull 1000) = JNull"
  "ac_risk sample_sweep = RiskWrite" "ac_consistencySnapshot sample_sweep = False" "ac_audit sample_sweep"
  by (simp_all add: buildRunEnv_def run_deadline_def sample_call_def sample_sweep_def sample_contract_def sample_start_def)

lemmas sample_run_simps = pipeline_steps_def eff_bind_def execute_step_def interfere_def sample_deps_sel
  runExecutionTransaction_def transaction_def execution_body_def applyStatementTimeout_def on_world_def
  sample_sel note_state_def runWithDeadline_def handler_start_def

lemma sample_crashes:
  "\<exists>w'. executeAction sample_deps (sample_call sample_crash) sample_start = (Inl (pipeline_error ForeignThrow), w')"
proof -
  obtain i s where admitted: "admit_steps sample_deps (sample_call sample_crash) 1000 (initial_state, sample_start)
     = (Inr (Admitted JNull i), (s, sample_start\<lparr>pr_uuids := 1\<rparr>))"
    using sample_admitted by blast
  obtain ctx where ctx: "constructPrincipalContext (buildRunEnv sample_deps (sample_call sample_crash) JNull 1000)
      sample_tenancy False = Inr ctx"
    using sample_context by blast
  have "fst (pipeline_steps sample_deps (sample_call sample_crash) 1000 (initial_state, sample_start)) = Inl Foreign"
    by (simp add: sample_run_simps admitted ctx sample_crash_def)
  then show ?thesis
    by (auto simp: executeAction_def run_action_def Let_def sample_sel split: prod.splits sum.splits)
qed


text \<open>A handler that would misbehave for a member of staff is never given one by a system action.\<close>

definition sample_guarded :: "unit app_world handler" where
  "sample_guarded input ctx = (if ctx_principal ctx = Staff then sample_crash input ctx else sample_write input ctx)"

theorem handlers_run_with_verified_authority_witness:
  "run_action sample_deps (with_handler sample_guarded (sample_call sample_crash)) sample_start
   = run_action sample_deps (with_handler sample_write (sample_call sample_crash)) sample_start"
  by (rule handlers_run_with_verified_authority)
   (simp add: handler_called_def sample_guarded_def sample_sel sample_sweep_def Let_def)

lemma sample_answers:
  "\<exists>line w'. run_action sample_deps (sample_call sample_write) sample_start = ((Inr (JString ''done''), line), w')
     \<and> \<not> fl_replayed line"
proof -
  obtain i s where admitted: "admit_steps sample_deps (sample_call sample_write) 1000 (initial_state, sample_start)
     = (Inr (Admitted JNull i), (s, sample_start\<lparr>pr_uuids := 1\<rparr>))" "st_reserved s = None" "\<not> st_replayed s"
    using sample_admitted by blast
  obtain ctx where ctx: "constructPrincipalContext (buildRunEnv sample_deps (sample_call sample_write) JNull 1000)
      sample_tenancy False = Inr ctx" "ctx_principal ctx = System" "bc_actor (ctx_base ctx) = SystemActor ''worker''"
    using sample_context by blast
  have hooks: "ph_audit (server_hooks options limiter) = Some (createAuditHook (po_sha256 options))"
    "ph_jobs (server_hooks options limiter) = Some (po_jobs options)" for options limiter
    by (simp_all add: server_hooks_def)
  obtain s' w' where run: "pipeline_steps sample_deps (sample_call sample_write) 1000 (initial_state, sample_start)
      = (Inr (JString ''done''), (s', w'))" "\<not> st_replayed s'"
    by (simp add: sample_run_simps admitted ctx sample_write_def validateOutput_def typed_def protocol_slots_def
        flush_def createEmitBuffer_def run_job_origin_def jobOriginFor_def enqueue_flush_def createEnqueueBuffer_def
        audit_in_transaction_def hooks audit_success_def requireAuditTarget_def createAuditHook_def recordSuccess_def
        success_row_def success_env_of_def canonicalJsonSha256OfUnknown_def canonicalJsonSha256_def canonicalJson_def
        toAuditActor_def finalize_in_transaction_def runPostCommitReadAudit_def Let_def)
  show ?thesis
    using run by (simp add: run_action_def finish_def sample_sel)
qed

end
