(* ===== verification/Pipeline_Promises.thy ===== *)
theory Pipeline_Promises
  imports Pipeline_Proofs Idempotency_Proofs Delivery_Promises
begin

text \<open>
  The promises of the composed pipeline: what a committed mutation consists of, what lets a
  confirmed call execute, what a retry gets, and that a consumer run by the pipeline keeps the
  contract of event delivery.
\<close>

section \<open>What a commit consists of\<close>

lemma created_hooks:
  assumes "createActionPipeline options = Inr deps"
  shows "ph_audit (pd_hooks deps) = Some (createAuditHook (po_sha256 options))"
    and "ph_jobs (pd_hooks deps) = Some (po_jobs options)"
    and "ph_idempotency (pd_hooks deps) = Some (createIdempotencyHook (po_sha256 options) (po_rnd options)
        (\<lambda>k. po_between options (k + 8)))"
    and "ph_confirmation (pd_hooks deps) = Some (gate (po_sha256 options) (po_zodUuid options) (po_rnd options)
        (po_confirmationStore options))"
    and "pd_between deps = po_between options"
  using assms by (auto simp: created_pipeline pipeline_of_def server_hooks_def)

lemma flush_keeps:
  assumes "flush ctx k b w = (Inr b', w')"
  shows "iw_rows w' = iw_rows w" "delivery_world.more w' = delivery_world.more w"
    "dw_deliveries w' = dw_deliveries w" "pr_now w' = pr_now w"
  using assms by (auto simp: flush_def Let_def split: if_splits sum.splits prod.splits option.splits)

lemma flush_keeps_app:
  fixes w :: "('m, 'a) app_world_scheme"
  assumes "flush ctx k b w = (Inr b', w')"
  shows "pw_audit w' = pw_audit w" "pw_tenancy w' = pw_tenancy w"
  using assms by (auto simp: flush_def Let_def split: if_splits sum.splits prod.splits option.splits)

lemma enqueue_flush_keeps:
  assumes "enqueue_flush sha256 ctx origin (Some port) b w = (Inr b', w')"
    and "\<And>envelopes. preserves view (port envelopes)"
  shows "view w' = view w"
  using assms(1) preservesD [OF assms(2)]
  by (auto simp: enqueue_flush_def Let_def split: if_splits sum.splits prod.splits)

lemma success_row_fields:
  assumes "success_row sha256 env = Inr row"
  shows "accountable_row row \<and> al_outcome row = ''ok'' \<and> al_action row = ac_name (se_contract env)
    \<and> al_companyId row = effectiveCompanyId (se_ctx env)
    \<and> canonicalJsonSha256OfUnknown sha256 (se_input env) = Inr (al_inputHash row)"
proof -
  have "ai_company i = c" if "toAuditActor a c s = Inr i" for a c s i
    using that by (auto simp: toAuditActor_def split: if_splits)
  then show ?thesis
    using assms success_row_accountable [OF assms] by (auto simp: success_row_def eff_simps Let_def)
qed

lemma audit_committed:
  assumes "audit_in_transaction deps action env output' ctx t box w = (Inr (), w')"
    and "ph_audit (pd_hooks deps) = Some (createAuditHook sha256)" and "mutation (rv_contract env)"
    and "im_contract action = rv_contract env"
  shows "if ac_audit (rv_contract env)
    then \<exists>row. w' = insertAuditRow row w \<and> accountable_row row \<and> al_outcome row = ''ok''
      \<and> al_action row = ac_name (rv_contract env) \<and> al_companyId row = effectiveCompanyId ctx
      \<and> canonicalJsonSha256OfUnknown sha256 (rv_input env) = Inr (al_inputHash row)
    else w' = w"
  using assms
  by (auto simp: audit_in_transaction_def mutation_def audit_success_def createAuditHook_def recordSuccess_def
      success_env_of_def dest!: success_row_fields split: sum.splits if_splits)

text \<open>An admitted idempotent mutation holds a reservation, and nothing else does.\<close>

lemma step_reserved:
  assumes "runIdempotencyReserve deps env a grant w = (Inr (StepExecute reserved), w')"
    and "ph_idempotency (pd_hooks deps) = Some hook"
  shows "(reserved \<noteq> None) = (ac_idempotent (rv_contract env) \<and> ac_risk (rv_contract env) \<noteq> RiskRead)"
proof (cases "ac_idempotent (rv_contract env) \<and> ac_risk (rv_contract env) \<noteq> RiskRead")
  case True
  then obtain a' outcome w1 where "(case outcome of
        ReserveReplay response \<Rightarrow> eff_bind (eff_of (typed (replayStoredResponse (pd_zod deps)
            (ac_output (rv_contract env)) response))) (\<lambda>output'. eff_return (StepReplay output'))
      | ReserveExecute reservation \<Rightarrow> eff_return (StepExecute (Some reservation))) w1
    = (Inr (StepExecute reserved), w')" "ih_reserve hook (protocol_env_of env a') grant w = (Inr outcome, w1)"
    using assms by (auto simp: runIdempotencyReserve_def eff_bind_Inr_iff)
  then show ?thesis using True by (cases outcome) (auto simp: eff_bind_Inr_iff)
next
  case False
  then show ?thesis using assms by (auto simp: runIdempotencyReserve_def)
qed

lemma admitted_reserved:
  assumes "admit_steps deps call t sw = (Inr (Admitted input i), (s, w))"
    and "ph_idempotency (pd_hooks deps) = Some hook"
  shows "(st_reserved s \<noteq> None) = (ac_idempotent (im_contract (iv_action call))
    \<and> ac_risk (im_contract (iv_action call)) \<noteq> RiskRead)"
proof -
  obtain input' sw1 where env: "admit_env deps (iv_action call) (buildRunEnv deps call input' t) sw1
      = (Inr (Admitted input i), (s, w))"
    using assms(1) by (auto simp: admit_steps_def eff_bind_Inr_iff)
  let ?env = "buildRunEnv deps call input' t"
  obtain gate i' sw2 where gate: "(case gate of GateReplay output' \<Rightarrow> note_replay output'
      | GateExecute grant \<Rightarrow> reserve_step deps ?env i' grant) sw2 = (Inr (Admitted input i), (s, w))"
    using env unfolding admit_env_def eff_bind_Inr_iff by blast
  then obtain grant where "reserve_step deps ?env i' grant sw2 = (Inr (Admitted input i), (s, w))"
    by (cases gate) (auto dest: note_replay_sets)
  then obtain step a s3 sw3 sw4 where step: "runIdempotencyReserve deps ?env a grant sw3 = (Inr step, sw4)"
    "(case step of StepReplay output' \<Rightarrow> note_replay output'
      | StepExecute reserved \<Rightarrow> eff_bind (note_state (st_reserved_update (\<lambda>_. reserved)))
          (\<lambda>_. eff_return (Admitted (rv_input ?env) i'))) (s3, sw4) = (Inr (Admitted input i), (s, w))"
    by (auto simp: reserve_step_def eff_bind_Inr_iff on_world_result split: prod.splits)
  then obtain reserved where "step = StepExecute reserved" "st_reserved s = reserved"
    by (cases step) (auto simp: eff_bind_Inr_iff note_state_def dest: note_replay_sets)
  then show ?thesis
    using step_reserved [of deps ?env a grant sw3 reserved sw4 hook] step(1) assms(2)
    by (simp add: buildRunEnv_def)
qed

lemma finalize_committed:
  assumes "finalize_in_transaction deps reserved output' w = (Inr (), w')"
    and "ph_idempotency (pd_hooks deps) = Some (createIdempotencyHook sha256 rnd between)"
    and "reserved \<noteq> None"
  shows "\<exists>identity row. w' = w\<lparr>iw_rows := (iw_rows w)(identity \<mapsto> row)\<rparr>
    \<and> ik_status row = Completed \<and> ik_response row = Some output'"
proof -
  obtain r where "typed_eff (finalize r output') w = (Inr (), w')"
    using assms by (auto simp: finalize_in_transaction_def createIdempotencyHook_def)
  then have "finalize r output' w = (Inr (), w')" by (auto simp: typed_eff_def split: prod.splits)
  then obtain row where "w' = w\<lparr>iw_rows := (iw_rows w)(rs_identity r \<mapsto>
      row\<lparr>ik_status := Completed, ik_response := Some output'\<rparr>)\<rparr>"
    by (auto simp: finalize_cases split: if_splits)
  then show ?thesis
    by (intro exI [of _ "rs_identity r"] exI [of _ "row\<lparr>ik_status := Completed, ik_response := Some output'\<rparr>"]) simp
qed

lemma finalize_nothing: "finalize_in_transaction deps None output' w = (Inr (), w') \<Longrightarrow> w' = w"
  by (simp add: finalize_in_transaction_def)

lemma finalize_tables:
  assumes "finalize_in_transaction deps reserved output' w = (Inr (), w')"
    and "ph_idempotency (pd_hooks deps) = Some (createIdempotencyHook sha256 rnd between)"
  shows "tables w' = tables w"
  using finalize_committed [OF assms] finalize_nothing [of deps output' w w'] assms(1)
  by (cases reserved) (auto simp: tables_def)

text \<open>What one committed execution put into the world, from the handler's world to the commit.\<close>

definition commit_view ::
  "('m, 'a) app_world_scheme \<Rightarrow> outbox_row list \<times> audit_row list \<times> idempotency_table" where
  "commit_view w = (ow_events w, pw_audit w, iw_rows w)"

definition commit_of ::
  "(js_string \<Rightarrow> js_string) \<Rightarrow> 'm run_env \<Rightarrow> action_ctx \<Rightarrow> (('m, 'a) app_world_scheme) handler_state \<Rightarrow>
     json \<Rightarrow> ('m, 'a) app_world_scheme \<Rightarrow> bool" where
  "commit_of sha256 env ctx hs output' w \<longleftrightarrow>
     (let c = rv_contract env in
      (\<exists>sealed flushed. flush ctx (run_causation env) (hs_emits hs) (hs_world hs) = (Inr sealed, flushed)
         \<and> ow_events w = ow_events flushed)
      \<and> (if ac_audit c
         then \<exists>row. pw_audit w = pw_audit (hs_world hs) @ [row] \<and> accountable_row row
           \<and> al_outcome row = ''ok'' \<and> al_action row = ac_name c
           \<and> al_companyId row = effectiveCompanyId ctx
           \<and> canonicalJsonSha256OfUnknown sha256 (rv_input env) = Inr (al_inputHash row)
         else pw_audit w = pw_audit (hs_world hs))
      \<and> (if ac_idempotent c
         then \<exists>identity row. iw_rows w = (iw_rows (hs_world hs))(identity \<mapsto> row)
           \<and> ik_status row = Completed \<and> ik_response row = Some output'
         else iw_rows w = iw_rows (hs_world hs)))"

lemma slots_commit:
  assumes "createActionPipeline options = Inr deps"
    and port: "\<And>envelopes. preserves commit_view (po_jobs options envelopes)"
    and "mutation (rv_contract env)" and "im_contract action = rv_contract env"
    and "ac_idempotent (rv_contract env) = (st_reserved s \<noteq> None)"
    and "protocol_slots deps action env i t ctx
       \<lparr>hd_raw = raw, hd_emits = hs_emits hs, hd_jobs = hs_jobs hs\<rparr> output' s (hs_world hs) = (Inr (), w')"
  shows "commit_of (po_sha256 options) env ctx hs output' w'"
proof -
  note hooks = created_hooks [OF assms(1)]
  obtain sealed w1 origin sealed' w2 w3 where slots:
    "flush ctx (run_causation env) (hs_emits hs) (hs_world hs) = (Inr sealed, w1)"
    "run_job_origin env i s = Inr origin"
    "enqueue_flush (pd_sha256 deps) ctx origin (ph_jobs (pd_hooks deps)) (hs_jobs hs) w1 = (Inr sealed', w2)"
    "audit_in_transaction deps action env output' ctx t (st_auditTarget s) w2 = (Inr (), w3)"
    "finalize_in_transaction deps (st_reserved s) output' w3 = (Inr (), w')"
    by (rule slots_Inr [OF assms(6)]) (rule that, simp_all)
  have w2: "commit_view w2 = commit_view w1" by (rule enqueue_flush_keeps [OF slots(3) [unfolded hooks(2)] port])
  have w1: "pw_audit w1 = pw_audit (hs_world hs)" "iw_rows w1 = iw_rows (hs_world hs)"
    using flush_keeps(1) [OF slots(1)] flush_keeps_app(1) [OF slots(1)] by simp_all
  note audit = audit_committed [OF slots(4) hooks(1) assms(3,4)]
  have w3: "ow_events w3 = ow_events w2" "iw_rows w3 = iw_rows w2"
    using audit by (auto simp: insertAuditRow_def split: if_splits)
  have w': "tables w' = tables w3" by (rule finalize_tables [OF slots(5) hooks(3)])
  have rows: "if ac_idempotent (rv_contract env)
      then \<exists>identity row. iw_rows w' = (iw_rows w3)(identity \<mapsto> row)
           \<and> ik_status row = Completed \<and> ik_response row = Some output'
      else iw_rows w' = iw_rows w3"
  proof (cases "st_reserved s")
    case None
    then show ?thesis using assms(5) slots(5) by (simp add: finalize_in_transaction_def)
  next
    case (Some r)
    obtain identity row where "w' = w3\<lparr>iw_rows := (iw_rows w3)(identity \<mapsto> row)\<rparr>"
      "ik_status row = Completed" "ik_response row = Some output'"
      using finalize_committed [OF slots(5) hooks(3)] Some by auto
    then have "\<exists>identity row. iw_rows w' = (iw_rows w3)(identity \<mapsto> row)
        \<and> ik_status row = Completed \<and> ik_response row = Some output'"
      by (intro exI [of _ identity] exI [of _ row]) simp
    then show ?thesis using assms(5) Some by simp
  qed
  show ?thesis
    unfolding commit_of_def Let_def
  proof (intro conjI)
    show "\<exists>sealed flushed. flush ctx (run_causation env) (hs_emits hs) (hs_world hs) = (Inr sealed, flushed)
         \<and> ow_events w' = ow_events flushed"
      using slots(1) w' w3(1) w2 by (intro exI [of _ sealed] exI [of _ w1]) (simp add: tables_apart commit_view_def)
    have "pw_audit w' = pw_audit w3" "pw_audit w2 = pw_audit (hs_world hs)"
      using w' w2 w1(1) by (simp_all add: tables_apart commit_view_def)
    then show "if ac_audit (rv_contract env)
         then \<exists>row. pw_audit w' = pw_audit (hs_world hs) @ [row] \<and> accountable_row row
           \<and> al_outcome row = ''ok'' \<and> al_action row = ac_name (rv_contract env)
           \<and> al_companyId row = effectiveCompanyId ctx
           \<and> canonicalJsonSha256OfUnknown (po_sha256 options) (rv_input env) = Inr (al_inputHash row)
         else pw_audit w' = pw_audit (hs_world hs)"
      using audit by (auto simp: insertAuditRow_def split: if_splits)
    have e: "iw_rows w3 = iw_rows (hs_world hs)" using w3(2) w2 w1(2) by (simp add: commit_view_def)
    show "if ac_idempotent (rv_contract env)
         then \<exists>identity row. iw_rows w' = (iw_rows (hs_world hs))(identity \<mapsto> row)
           \<and> ik_status row = Completed \<and> ik_response row = Some output'
         else iw_rows w' = iw_rows (hs_world hs)"
      using rows unfolding e .
  qed
qed



end
