(* ===== verification/Pipeline_Retry.thy ===== *)
theory Pipeline_Retry
  imports Pipeline_Promises
begin

text \<open>
  What the pipeline promises about repeated and about unconfirmed calls: an answered mutation is
  never executed again for a retry, and a call that needs a confirmation runs no handler without
  one. Both compare runs with different handlers.
\<close>

section \<open>A retry is answered, not repeated\<close>

text \<open>What an invocation is before it reserves: its parsed input and the authority of its preflight.\<close>

definition prepared ::
  "(('m, 'a) app_world_scheme, 'v) pipeline_deps \<Rightarrow> ('m, ('m, 'a) app_world_scheme) action_invocation \<Rightarrow>
     'm tenancy \<Rightarrow> ms \<Rightarrow> json \<Rightarrow> preflight_authorization \<Rightarrow> bool" where
  "prepared deps call tn t input a \<longleftrightarrow>
     parse_input deps call = Inr input \<and> assert_step2 deps call = Inr ()
     \<and> runAuthorizationPreflight (buildRunEnv deps call input t) tn = Inr (Some a)"

definition retry_view :: "('m, 'a) app_world_scheme \<Rightarrow> idempotency_table \<times> ms \<times> 'm tenancy" where
  "retry_view w = (iw_rows w, pr_now w, pw_tenancy w)"

text \<open>The limiter of the server keeps the view when its store does.\<close>

lemma limiter_keeps:
  assumes "createActionPipeline options = Inr deps"
    and "\<And>request. preserves retry_view (rs_consume (po_rateLimitStore options) request)"
    and "enforce_rate_limit deps env w = (r, w')"
  shows "retry_view w' = retry_view w"
  using assms(1,3) preservesD [OF assms(2)]
  by (auto simp: created_pipeline pipeline_of_def server_hooks_def server_limiter_def enforce_rate_limit_def
      enforce_def split: option.splits sum.splits prod.splits rate_decision.splits if_splits)

text \<open>The time of the deadline has no say in the preflight.\<close>

lemma preflight_deadline:
  "runAuthorizationPreflight (env\<lparr>rv_deadline := d\<rparr>) tn = runAuthorizationPreflight env tn"
proof (cases "rv_principal env")
  case (InvokeStaff session selector)
  then show ?thesis
    by (auto simp: runAuthorizationPreflight_def runtime_of_def createStaffContext_def Let_def typed_def
        res_bind_def checkPermissions_def buildBase_def
        split: sum.splits option.splits list.splits)
next
  case (InvokeCustomer session)
  then show ?thesis
    by (auto simp: runAuthorizationPreflight_def runtime_of_def requireResolver_def createCustomerContext_def
        Let_def typed_def res_bind_def buildBase_def split: sum.splits option.splits)
next
  case InvokeShare
  then show ?thesis
    by (auto simp: runAuthorizationPreflight_def runtime_of_def requireResolver_def createShareContext_def
        Let_def typed_def res_bind_def buildBase_def split: sum.splits option.splits)
qed (simp_all add: runAuthorizationPreflight_def runtime_of_def)

lemma env_time:
  "buildRunEnv deps call input t' = (buildRunEnv deps call input t)\<lparr>rv_deadline := run_deadline call t'\<rparr>"
  by (simp add: buildRunEnv_def)

lemma prepared_time: "prepared deps call tn t input a \<Longrightarrow> prepared deps call tn t' input a"
  unfolding prepared_def env_time [of deps call input t' t] preflight_deadline .

lemma protocol_env_time:
  "protocol_env_of (buildRunEnv deps call input t') a = protocol_env_of (buildRunEnv deps call input t) a"
  by (simp add: protocol_env_of_def buildRunEnv_def)

lemma alone_shift: "(\<lambda>k. alone (k + n)) = alone"
  by (simp add: fun_eq_iff)

lemma takeover_keeps_hash:
  assumes "takeover rnd alone rr observed nowMs reset w = (Inr (Execute r), w')"
    and "iw_rows w (rr_identity rr) = Some old" and "\<not> reset \<Longrightarrow> ik_requestHash old = rr_requestHash rr"
  shows "map_option ik_requestHash (iw_rows w' (rr_identity rr)) = Some (rr_requestHash rr)"
  using assms
  by (auto simp: takeover_def Let_def randomUUID_def sql_takeover_def sql_update_def takeover_row_def
      reset_row_def grantColumns_def resolveLostTakeover_def split: option.splits if_splits)

lemma reserve_alone_hash:
  assumes "reserve sha256 rnd alone env grant w = (Inr (Execute r), w')"
    and "reservation_request_of sha256 env grant = Inr rr"
  shows "map_option ik_requestHash (iw_rows w' (rr_identity rr)) = Some (rr_requestHash rr) \<and> rs_identity r = rr_identity rr"
proof -
  have rounds: "reserve_rounds 2 rnd alone rr w = (Inr (Execute r), w')"
    using assms by (simp add: reserve_def eff_bind_def)
  have round: "map_option ik_requestHash (iw_rows v' (rr_identity rr)) = Some (rr_requestHash rr)"
    if "reserve_round rnd alone rr v = (Some (Inr (Execute r)), v')" for v v'
  proof (cases "iw_rows v (rr_identity rr)")
    case None
    then show ?thesis using reserve_round_inserted [of alone v rr rnd] that by auto
  next
    case (Some old)
    then show ?thesis
      using that takeover_keeps_hash [of rnd rr _ _ _ "v\<lparr>pr_uuids := Suc (pr_uuids v)\<rparr>" r v' old]
      by (auto simp: reserve_round_def Let_def randomUUID_def sql_insert_def decide_row_def
          split: if_splits row_status.splits prod.splits row_decision.splits)
  qed
  show ?thesis
    using rounds [unfolded numeral_2_eq_2 reserve_rounds.simps alone_shift] round reserve_rounds_owns [OF rounds]
    by (auto split: prod.splits option.splits)
qed


lemma gate_not_required:
  "\<not> confirmationIsRequired (rv_contract env) (rv_request env) \<Longrightarrow>
     gate_step deps action env sw = (Inr (GateExecute None), sw)"
  by (cases sw) (simp add: gate_step_def runConfirmationGate_def on_world_def)

lemma preflight_step_Inr:
  "needsPreflight (rv_contract env) (rv_request env) \<Longrightarrow>
     preflight_step env (s, w) = (Inr (), sw') \<longleftrightarrow>
       (\<exists>a. runAuthorizationPreflight env (pw_tenancy w) = Inr a \<and> sw' = (s\<lparr>st_authorization := a\<rparr>, w))"
  by (auto simp: preflight_step_def split: sum.splits)

lemma execution_id_Inr:
  "typed_eff (uuidv7 bytes (pr_now w)) w = (Inr i, w') \<longleftrightarrow>
     0 \<le> pr_now w \<and> pr_now w \<le> MAX_TIMESTAMP_MS \<and> w' = w\<lparr>pr_uuids := Suc (pr_uuids w)\<rparr>
     \<and> i = uuid_text (uuidv7_bytes (bytes (pr_uuids w)) (pr_now w))"
  by (auto simp: typed_eff_def uuidv7_def typed_def)

lemma hook_reserve_Inr:
  "ih_reserve (createIdempotencyHook sha256 rnd between) env grant w = (Inr outcome, w') \<longleftrightarrow>
     (\<exists>r. reserve sha256 rnd between env grant w = (Inr r, w') \<and> outcome = reserve_outcome_of r)"
  by (auto simp: createIdempotencyHook_def eff_bind_Inr_iff typed_eff_def typed_def
      split: prod.splits sum.splits)

lemma reserve_outcome_iff [simp]:
  "reserve_outcome_of r = ReserveExecute v \<longleftrightarrow> r = Execute v"
  "reserve_outcome_of r = ReserveReplay out \<longleftrightarrow> r = Replay out"
  by (cases r; auto)+

lemma step_executed:
  assumes "runIdempotencyReserve deps env a grant w = (Inr (StepExecute reserved), w')"
    and "ph_idempotency (pd_hooks deps) = Some hook"
    and "ac_idempotent (rv_contract env)" and "ac_risk (rv_contract env) \<noteq> RiskRead"
  shows "\<exists>a' r. a = Some a' \<and> reserved = Some r
    \<and> ih_reserve hook (protocol_env_of env a') grant w = (Inr (ReserveExecute r), w')"
proof -
  obtain a' outcome w1 where "requireAuthorization a = Inr a'"
    "ih_reserve hook (protocol_env_of env a') grant w = (Inr outcome, w1)"
    "(case outcome of
        ReserveReplay response \<Rightarrow> eff_bind (eff_of (typed (replayStoredResponse (pd_zod deps)
            (ac_output (rv_contract env)) response))) (\<lambda>output'. eff_return (StepReplay output'))
      | ReserveExecute reservation \<Rightarrow> eff_return (StepExecute (Some reservation))) w1
    = (Inr (StepExecute reserved), w')"
    using assms by (auto simp: runIdempotencyReserve_def eff_bind_Inr_iff)
  then show ?thesis
    by (cases outcome) (auto simp: eff_bind_Inr_iff requireAuthorization_def split: option.splits)
qed

text \<open>An admitted idempotent invocation that needs no confirmation has reserved its own key.\<close>

definition plain_retryable :: "action_contract \<Rightarrow> hook_request_meta \<Rightarrow> bool" where
  "plain_retryable c request \<longleftrightarrow>
     mutation c \<and> ac_idempotent c \<and> \<not> confirmationIsRequired c request"

lemma admitted_by_reservation:
  assumes "createActionPipeline options = Inr deps" and "po_between options = alone"
    and store: "\<And>request. preserves retry_view (rs_consume (po_rateLimitStore options) request)"
    and "plain_retryable (im_contract (iv_action call)) (pipeline_request call)"
    and run: "admit_steps deps call t (initial_state, w) = (Inr (Admitted input i), (s1, w1))"
  shows "\<exists>a r w0. prepared deps call (pw_tenancy w) t input a \<and> st_reserved s1 = Some r
    \<and> reserve (po_sha256 options) (po_rnd options) alone
        (protocol_env_of (buildRunEnv deps call input t) a) None w0 = (Inr (Execute r), w1)"
proof -
  note hooks = created_hooks [OF assms(1)]
  have alone: "pd_between deps = alone" using hooks(5) assms(2) by simp
  have parsed: "parse_input deps call = Inr input" "assert_step2 deps call = Inr ()"
    using admitted_input [OF run] by simp_all
  let ?env = "buildRunEnv deps call input t" and ?s0 = "initial_state\<lparr>st_validatedInput := Some input\<rparr>"
  have c: "rv_contract ?env = im_contract (iv_action call)" "rv_request ?env = pipeline_request call"
    by (simp_all add: buildRunEnv_def)
  have env: "admit_env deps (iv_action call) ?env (?s0, w) = (Inr (Admitted input i), (s1, w1))"
    using run by (auto simp: admit_steps_def eff_bind_Inr_iff parsed typed_def note_state_def)
  have pre: "needsPreflight (rv_contract ?env) (rv_request ?env)"
    using assms(4) by (simp add: c needsPreflight_def plain_retryable_def mutation_def)
  have gate: "\<not> confirmationIsRequired (rv_contract ?env) (rv_request ?env)"
    using assms(4) by (simp add: c plain_retryable_def)
  obtain w2 w3 a i' where front: "enforce_rate_limit deps ?env w2 = (Inr (), w3)" "pw_tenancy w2 = pw_tenancy w"
    "runAuthorizationPreflight ?env (pw_tenancy w3) = Inr a"
    "reserve_step deps ?env i' None (?s0\<lparr>st_authorization := a\<rparr>, w3) = (Inr (Admitted input i), (s1, w1))"
    using env pre
    by (auto simp: admit_env_def eff_bind_Inr_iff on_world_result alone interfere_def preflight_step_Inr
        gate_not_required [OF gate] execution_id_Inr)
  have tn: "pw_tenancy w3 = pw_tenancy w"
    using limiter_keeps [OF assms(1) store front(1)] front(2) by (simp add: retry_view_def)
  have hook': "ph_idempotency (pd_hooks deps)
      = Some (createIdempotencyHook (po_sha256 options) (po_rnd options) alone)"
    using hooks(3) unfolding assms(2) alone_shift .
  obtain step w4 where step: "runIdempotencyReserve deps ?env a None w3 = (Inr step, w4)"
    "(case step of StepReplay output' \<Rightarrow> note_replay output'
      | StepExecute reserved \<Rightarrow> eff_bind (note_state (st_reserved_update (\<lambda>_. reserved)))
          (\<lambda>_. eff_return (Admitted (rv_input ?env) i'))) (?s0\<lparr>st_authorization := a\<rparr>, w4)
      = (Inr (Admitted input i), (s1, w1))"
    using front(4)
    by (auto simp: reserve_step_def eff_bind_Inr_iff alone interfere_def on_world_result)
  obtain reserved where reserved: "step = StepExecute reserved" "st_reserved s1 = reserved" "w4 = w1"
    using step(2) by (cases step) (auto simp: eff_bind_Inr_iff note_state_def dest: note_replay_sets)
  obtain a' r where "a = Some a'" "reserved = Some r"
    "reserve (po_sha256 options) (po_rnd options) alone (protocol_env_of ?env a') None w3 = (Inr (Execute r), w1)"
    using step_executed [OF step(1) [unfolded reserved] hook'] assms(4)
    by (auto simp: c plain_retryable_def mutation_def hook_reserve_Inr dest: sym)
  then show ?thesis
    using parsed front(3) tn reserved(2) unfolding prepared_def by auto
qed

text \<open>The row that answers the retries of an invocation.\<close>

definition answered_row ::
  "(('m, 'a) app_world_scheme) pipeline_options \<Rightarrow> 'm run_env \<Rightarrow> preflight_authorization \<Rightarrow> json \<Rightarrow>
     idempotency_table \<Rightarrow> idempotency_row \<Rightarrow> bool" where
  "answered_row options env a out rows row \<longleftrightarrow>
     (\<exists>rr. reservation_request_of (po_sha256 options) (protocol_env_of env a) None = Inr rr
        \<and> rows (rr_identity rr) = Some row \<and> ik_requestHash row = rr_requestHash rr)
     \<and> ik_status row = Completed \<and> ik_response row = Some out"

lemma slots_keep_rows:
  assumes "createActionPipeline options = Inr deps" and "po_between options = alone"
    and port: "\<And>envelopes. preserves commit_view (po_jobs options envelopes)"
    and "mutation (rv_contract env)" and "im_contract action = rv_contract env"
    and "st_reserved s = Some r"
    and "protocol_slots deps action env i t ctx handled output' s w = (Inr (), w')"
  shows "\<exists>w3. iw_rows w3 = iw_rows w \<and> finalize r output' w3 = (Inr (), w')"
proof -
  note hooks = created_hooks [OF assms(1)]
  obtain sealed w1 origin sealed' w2 w3 where slots:
    "flush ctx (run_causation env) (hd_emits handled) w = (Inr sealed, w1)"
    "run_job_origin env i s = Inr origin"
    "enqueue_flush (pd_sha256 deps) ctx origin (ph_jobs (pd_hooks deps)) (hd_jobs handled) w1 = (Inr sealed', w2)"
    "audit_in_transaction deps action env output' ctx t (st_auditTarget s) w2 = (Inr (), w3)"
    "finalize_in_transaction deps (st_reserved s) output' w3 = (Inr (), w')"
    by (rule slots_Inr [OF assms(7)]) (rule that, simp_all)
  have "commit_view w2 = commit_view w1" by (rule enqueue_flush_keeps [OF slots(3) [unfolded hooks(2)] port])
  then have "iw_rows w2 = iw_rows w" using flush_keeps(1) [OF slots(1)] by (simp add: commit_view_def)
  moreover have "iw_rows w3 = iw_rows w2"
    using audit_committed [OF slots(4) hooks(1) assms(4,5)] by (auto simp: insertAuditRow_def split: if_splits)
  moreover have "finalize r output' w3 = (Inr (), w')"
    using slots(5) assms(6)
    by (simp add: finalize_in_transaction_def hooks(3) createIdempotencyHook_def typed_eff_def typed_def
        split: prod.splits sum.splits)
  ultimately show ?thesis by auto
qed

lemma answered:
  fixes w w' :: "('m, 'a) app_world_scheme"
  assumes "createActionPipeline options = Inr deps" and alone: "po_between options = alone"
    and store: "\<And>request. preserves retry_view (rs_consume (po_rateLimitStore options) request)"
    and port: "\<And>envelopes. preserves commit_view (po_jobs options envelopes)"
    and handler: "\<And>input ctx. preserves (\<lambda>hs. iw_rows (hs_world hs)) (im_handler (iv_action call) input ctx)"
    and plain: "plain_retryable (im_contract (iv_action call)) (pipeline_request call)"
    and run: "run_action deps call w = ((Inr out, line), w')" "\<not> fl_replayed line"
  shows "\<exists>input a row. prepared deps call (pw_tenancy w) (pr_now w) input a
    \<and> answered_row options (buildRunEnv deps call input (pr_now w)) a out (iw_rows w') row"
proof -
  let ?t = "pr_now w" and ?c = "im_contract (iv_action call)"
  obtain input i s1 w1 s2 where steps:
    "admit_steps deps call ?t (initial_state, w) = (Inr (Admitted input i), (s1, w1))"
    "execute_step deps (iv_action call) (buildRunEnv deps call input ?t) i ?t (s1, w1) = (Inr out, (s2, w'))"
    using executed_run [OF run] by blast
  let ?env = "buildRunEnv deps call input ?t"
  have env: "rv_contract ?env = ?c" by (simp add: buildRunEnv_def)
  have mut: "mutation (rv_contract ?env)" using plain env by (simp add: plain_retryable_def)
  obtain a r w0 where a: "prepared deps call (pw_tenancy w) ?t input a" "st_reserved s1 = Some r"
    "reserve (po_sha256 options) (po_rnd options) alone (protocol_env_of ?env a) None w0 = (Inr (Execute r), w1)"
    using admitted_by_reservation [OF assms(1) alone store plain steps(1)] by blast
  then obtain rr where rr: "reservation_request_of (po_sha256 options) (protocol_env_of ?env a) None = Inr rr"
    by (auto simp: reserve_def eff_bind_def split: sum.splits)
  obtain row where row: "iw_rows w1 (rs_identity r) = Some row" "ik_requestHash row = rr_requestHash rr"
    "rs_identity r = rr_identity rr"
    using reserve_alone_hash [OF a(3) rr] by auto
  have between: "pd_between deps = alone" using created_hooks(5) [OF assms(1)] alone by simp
  obtain w2 where body: "execution_body deps (iv_action call) ?env i ?t (s1, w1) = (Inr out, (s2, w2))" "w' = w2"
    by (rule execute_mutation [OF steps(2) mut]) (simp add: between)
  obtain ctx raw hs where h:
    "im_handler (iv_action call) (rv_input ?env) ctx (handler_start i (st_auditTarget s1) w1) = (Inr raw, hs)"
    "s2 = s1\<lparr>st_executionCtx := Some ctx, st_auditTarget := hs_target hs\<rparr>"
    "protocol_slots deps (iv_action call) ?env i ?t ctx
       \<lparr>hd_raw = raw, hd_emits = hs_emits hs, hd_jobs = hs_jobs hs\<rparr> out s2 (hs_world hs) = (Inr (), w2)"
    by (rule body_Inr [OF body(1)]) (rule that)
  have rows: "iw_rows (hs_world hs) = iw_rows w1"
    using preservesD [OF handler h(1)] by (simp add: handler_start_def)
  have "st_reserved s2 = Some r" using h(2) a(2) by simp
  then obtain w3 where "iw_rows w3 = iw_rows (hs_world hs)" "finalize r out w3 = (Inr (), w2)"
    using slots_keep_rows [OF assms(1) alone port mut env [symmetric] _ h(3)] by blast
  then have "iw_rows w' (rr_identity rr) = Some (row\<lparr>ik_status := Completed, ik_response := Some out\<rparr>)"
    using rows row(1,3) body(2) by (auto simp: finalize_cases split: if_splits)
  then have "answered_row options ?env a out (iw_rows w') (row\<lparr>ik_status := Completed, ik_response := Some out\<rparr>)"
    using rr row(2) by (simp add: answered_row_def)
  then show ?thesis using a(1) by blast
qed

text \<open>A completed row answers an invocation, whatever its handler.\<close>

lemma replayed_from_row:
  fixes w :: "('m, 'a) app_world_scheme"
  assumes "createActionPipeline options = Inr deps" and alone: "po_between options = alone"
    and store: "\<And>request. preserves retry_view (rs_consume (po_rateLimitStore options) request)"
    and plain: "plain_retryable (im_contract (iv_action call)) (pipeline_request call)"
    and ready: "prepared deps call (pw_tenancy w) (pr_now w) input a"
    and row: "answered_row options (buildRunEnv deps call input (pr_now w)) a out (iw_rows w) row"
      "pr_now w < ik_expiresAt row"
    and clock: "0 \<le> pr_now w" "pr_now w \<le> MAX_TIMESTAMP_MS"
    and limiter: "fst (enforce_rate_limit deps (buildRunEnv deps call input (pr_now w))
      (w\<lparr>pr_uuids := Suc (pr_uuids w)\<rparr>)) = Inr ()"
    and zod: "po_zod options (ac_output (im_contract (iv_action call))) out = Inr out"
  shows "\<exists>s' w'. admit_steps deps call (pr_now w) (initial_state, w) = (Inr (Replayed out), (s', w'))"
proof -
  let ?t = "pr_now w" and ?env = "buildRunEnv deps call input (pr_now w)" and ?w1 = "w\<lparr>pr_uuids := Suc (pr_uuids w)\<rparr>"
  have env: "rv_contract ?env = im_contract (iv_action call)" "rv_request ?env = pipeline_request call"
    by (simp_all add: buildRunEnv_def)
  note hooks = created_hooks [OF assms(1)]
  have between: "pd_between deps = alone" using hooks(5) alone by simp
  have hook: "ph_idempotency (pd_hooks deps) = Some (createIdempotencyHook (po_sha256 options) (po_rnd options) alone)"
    using hooks(3) unfolding alone alone_shift .
  obtain w2 where w2: "enforce_rate_limit deps ?env ?w1 = (Inr (), w2)" using limiter by (metis prod.collapse)
  have view: "iw_rows w2 = iw_rows w" "pr_now w2 = ?t" "pw_tenancy w2 = pw_tenancy w"
    using limiter_keeps [OF assms(1) store w2] by (simp_all add: retry_view_def)
  obtain rr where rr: "reservation_request_of (po_sha256 options) (protocol_env_of ?env a) None = Inr rr"
    "iw_rows w2 (rr_identity rr) = Some row" "ik_requestHash row = rr_requestHash rr" "ik_status row = Completed"
    "stored_response row = out"
    using row(1) view(1) by (auto simp: answered_row_def stored_response_def)
  have acts: "acts_until ?t (alone :: ('m, 'a) app_world_scheme interference)"
    unfolding acts_until_def by auto
  have expires: "?t < ik_expiresAt row" "pr_now w2 \<le> ?t" using row(2) view(2) by simp_all
  obtain w3 where w3: "reserve_round (po_rnd options) alone rr w2 = (Some (Inr (Replay out)), w3)"
    using completed_round [OF acts rr(2,4) expires] rr(3,5) by auto
  have outcome: "ih_reserve (createIdempotencyHook (po_sha256 options) (po_rnd options) alone)
      (protocol_env_of ?env a) None w2 = (Inr (ReserveReplay out), w3)"
    using w3 by (simp add: hook_reserve_Inr reserve_def eff_bind_def rr(1) numeral_2_eq_2)
  have zod': "pd_zod deps (ac_output (rv_contract ?env)) out = Inr out"
    using zod assms(1) env by (auto simp: created_pipeline pipeline_of_def)
  have pre: "needsPreflight (rv_contract ?env) (rv_request ?env)"
    "\<not> confirmationIsRequired (rv_contract ?env) (rv_request ?env)"
    "ac_idempotent (rv_contract ?env)" "ac_risk (rv_contract ?env) \<noteq> RiskRead"
    using plain by (simp_all add: env needsPreflight_def plain_retryable_def mutation_def)
  have step: "runIdempotencyReserve deps ?env (Some a) None w2 = (Inr (StepReplay out), w3)"
    by (simp add: runIdempotencyReserve_def hook pre requireAuthorization_def typed_def eff_bind_def outcome
        replayStoredResponse_def zod')
  have pf: "preflight_step ?env (s, w2) = (Inr (), (s\<lparr>st_authorization := Some a\<rparr>, w2))" for s :: "idempotency_reservation run_state"
    using ready view(3) pre(1) by (simp add: preflight_step_Inr prepared_def)
  have id: "\<exists>i. typed_eff (uuidv7 (pd_randomBytes deps) (pr_now w)) w = (Inr i, ?w1)"
    using clock by (simp add: execution_id_Inr)
  then obtain i where id: "typed_eff (uuidv7 (pd_randomBytes deps) (pr_now w)) w = (Inr i, ?w1)" by blast
  have gate: "gate_step deps (iv_action call) ?env sw = (Inr (GateExecute None), sw)" for sw
    by (rule gate_not_required [OF pre(2)])
  have "\<exists>s'. admit_env deps (iv_action call) ?env (initial_state\<lparr>st_validatedInput := Some input\<rparr>, w)
      = (Inr (Replayed out), (s', w3))"
    by (simp add: admit_env_def eff_bind_def on_world_def id interfere_def between w2 pf gate reserve_step_def
        step note_replay_def)
  then have "\<exists>s'. admit_steps deps call ?t (initial_state, w) = (Inr (Replayed out), (s', w3))"
    using ready by (simp add: admit_steps_def eff_bind_def prepared_def typed_def note_state_def)
  then show ?thesis by blast
qed


section \<open>Nothing runs unconfirmed\<close>

lemma unshown_never_granted:
  assumes "rq_confirmationOnly (pe_request penv) \<or> rq_confirmationChallengeId (pe_request penv) = None"
  shows "gate sha256 zod_uuid rnd store penv summarize w \<noteq> (Inr g, w')"
  using gate_grants [of sha256 zod_uuid rnd store penv summarize w g w'] assms by auto

definition grantless :: "idempotency_table \<Rightarrow> bool" where
  "grantless rows \<longleftrightarrow> (\<forall>i row. rows i = Some row \<longrightarrow> ik_confirmationChallengeId row = None)"

lemma grantless_probe:
  assumes "probe sha256 between env w = (Inr (Resume g), w')" and "grantless (iw_rows (between 0 w))"
  shows False
  using assms
  by (auto simp: probe_def Let_def interpretProbeRow_def unexpiredGrant_def grantless_def
      split: sum.splits option.splits if_splits row_status.splits)

lemma hook_probe_Inr:
  "ih_probe (createIdempotencyHook sha256 rnd between) env w = (Inr r, w') \<longleftrightarrow>
     probe sha256 between env w = (Inr r, w')"
  by (auto simp: createIdempotencyHook_def typed_eff_def typed_def split: prod.splits sum.splits)

lemma gate_closed:
  assumes created: "createActionPipeline options = Inr deps"
    and between: "\<And>k w. retry_view (po_between options k w) = retry_view w"
    and "confirmationIsRequired (rv_contract env) (rv_request env)"
    and "rq_confirmationOnly (rv_request env) \<or> rq_confirmationChallengeId (rv_request env) = None"
    and "grantless (iw_rows w)"
  shows "runConfirmationGate deps action env authorization w \<noteq> (Inr (GateExecute grant), w')"
proof
  note hooks = created_hooks [OF created]
  assume "runConfirmationGate deps action env authorization w = (Inr (GateExecute grant), w')"
  then obtain a probed w1 where run: "probe_for_gate deps env a w = (Inr probed, w1)"
    "(case probed of
        GateReplay output' \<Rightarrow> eff_return (GateReplay output')
      | GateExecute resumed \<Rightarrow>
          eff_bind (gate_unless_granted action env a
            (gate (po_sha256 options) (po_zodUuid options) (po_rnd options) (po_confirmationStore options)) resumed)
            (\<lambda>grant. if rq_confirmationOnly (rv_request env)
              then eff_throw (Typed (pipeline_error ConfirmationOnlyGranted))
              else eff_return (GateExecute (Some grant)))) w1 = (Inr (GateExecute grant), w')"
    using assms(3) by (auto simp: runConfirmationGate_def eff_bind_Inr_iff hooks(4))
  then obtain resumed where probed: "probed = GateExecute resumed" by (cases probed) auto
  have rows: "grantless (iw_rows (po_between options (0 + 8) w))"
    using between [of "0 + 8" w] assms(5) by (simp add: retry_view_def)
  have "resumed = None"
  proof -
    obtain p w2 where "ih_probe (createIdempotencyHook (po_sha256 options) (po_rnd options)
        (\<lambda>k. po_between options (k + 8))) (protocol_env_of env a) w = (Inr p, w2)"
      "(case p of
              ProbeReplay response \<Rightarrow>
                eff_bind (eff_of (typed (replayStoredResponse (pd_zod deps)
                    (ac_output (rv_contract env)) response))) (\<lambda>output'. eff_return (GateReplay output'))
            | Resume grant \<Rightarrow>
                eff_return (GateExecute
                  (if rq_confirmationOnly (rv_request env) then None else Some grant))
            | Fresh \<Rightarrow> eff_return (GateExecute None)) w2 = (Inr (GateExecute resumed), w1)"
      using run(1) by (auto simp: probe_for_gate_def eff_bind_Inr_iff hooks(3) probed)
    then show ?thesis
      using grantless_probe rows by (cases p) (fastforce simp: hook_probe_Inr eff_bind_Inr_iff)+
  qed
  then obtain g w2 where "gate_unless_granted action env a
      (gate (po_sha256 options) (po_zodUuid options) (po_rnd options) (po_confirmationStore options)) None w1 = (Inr g, w2)"
    using run(2) by (auto simp: probed eff_bind_Inr_iff)
  then obtain summarize where "gate (po_sha256 options) (po_zodUuid options) (po_rnd options)
      (po_confirmationStore options) (protocol_env_of env a) summarize w1 = (Inr g, w2)"
    by (auto simp: gate_unless_granted_def eff_bind_Inr_iff)
  moreover have "rq_confirmationOnly (pe_request (protocol_env_of env a))
      \<or> rq_confirmationChallengeId (pe_request (protocol_env_of env a)) = None"
    using assms(4) by (simp add: protocol_env_of_def)
  ultimately show False using unshown_never_granted by blast
qed

text \<open>
  C5: nothing runs unconfirmed. When a call needs a confirmation and brings no challenge - or
  only asks for the card - and no row of the idempotency table holds a grant, the call never
  reaches a handler: whatever the handler, the answer, the log line and the world are the same.
\<close>

theorem unconfirmed_call_never_runs:
  fixes w :: "('m, 'a) app_world_scheme"
  assumes "createActionPipeline options = Inr deps"
    and "\<forall>k w. retry_view (po_between options k w) = retry_view w"
    and "\<forall>request. preserves retry_view (rs_consume (po_rateLimitStore options) request)"
    and "confirmationIsRequired (im_contract (iv_action call)) (pipeline_request call)"
    and "rq_confirmationOnly (pipeline_request call) \<or> rq_confirmationChallengeId (pipeline_request call) = None"
    and "\<forall>i row. iw_rows w i = Some row \<longrightarrow> ik_confirmationChallengeId row = None"
  shows "run_action deps (with_handler h1 call) w = run_action deps (with_handler h2 call) w"
proof -
  let ?t = "pr_now w"
  have "admit_steps deps call ?t (initial_state, w) \<noteq> (Inr (Admitted input i), (s1, w1))" for input i s1 w1
  proof
    assume run: "admit_steps deps call ?t (initial_state, w) = (Inr (Admitted input i), (s1, w1))"
    let ?env = "buildRunEnv deps call input ?t" and ?s0 = "initial_state\<lparr>st_validatedInput := Some input\<rparr>"
    have env: "rv_contract ?env = im_contract (iv_action call)" "rv_request ?env = pipeline_request call"
      by (simp_all add: buildRunEnv_def)
    have parsed: "parse_input deps call = Inr input" "assert_step2 deps call = Inr ()"
      using admitted_input [OF run] by simp_all
    have "admit_env deps (iv_action call) ?env (?s0, w) = (Inr (Admitted input i), (s1, w1))"
      using run by (auto simp: admit_steps_def eff_bind_Inr_iff parsed typed_def note_state_def)
    then obtain w2 s2 w3 gate w4 i' where front:
      "enforce_rate_limit deps ?env (pd_between deps 0 (w\<lparr>pr_uuids := Suc (pr_uuids w)\<rparr>)) = (Inr (), w2)"
      "preflight_step ?env (?s0, pd_between deps 1 w2) = (Inr (), (s2, w3))"
      "runConfirmationGate deps (iv_action call) ?env (st_authorization s2) (pd_between deps 2 w3) = (Inr gate, w4)"
      "(case gate of GateReplay output' \<Rightarrow> note_replay output'
        | GateExecute grant \<Rightarrow> reserve_step deps ?env i' grant) (s2, w4) = (Inr (Admitted input i), (s1, w1))"
      by (auto simp: admit_env_def eff_bind_Inr_iff on_world_result interfere_def execution_id_Inr gate_step_def)
    then obtain grant where gate: "gate = GateExecute grant" by (cases gate) (auto dest: note_replay_sets)
    have "w3 = pd_between deps 1 w2" using front(2) by (auto simp: preflight_step_def split: if_splits sum.splits)
    moreover have "pd_between deps = po_between options" using created_hooks(5) [OF assms(1)] .
    ultimately have "retry_view (pd_between deps 2 w3) = retry_view w"
      using assms(2) limiter_keeps [OF assms(1) _ front(1)] assms(3) by (simp add: retry_view_def)
    then have "grantless (iw_rows (pd_between deps 2 w3))"
      using assms(6) by (simp add: grantless_def retry_view_def)
    then show False
      using gate_closed [OF assms(1)] assms(2,4,5) front(3) env gate by metis
  qed
  then have never: "admit_steps deps call ?t (initial_state, w) \<noteq> (Inr (Admitted input i), sw1)" for input i sw1
    by (cases sw1) simp
  have "pipeline_steps deps (with_handler h call) ?t (initial_state, w)
      = eff_bind (admit_steps deps call ?t) (\<lambda>admission. case admission of
          Replayed output' \<Rightarrow> eff_return output' | Admitted input i \<Rightarrow> eff_throw Foreign) (initial_state, w)" for h
    unfolding pipeline_steps_def admit_steps_handler
  proof (rule eff_bind_agree [OF refl])
    fix admission sw assume "admit_steps deps call ?t (initial_state, w) = (Inr admission, sw)"
    then show "(case admission of Replayed output' \<Rightarrow> eff_return output'
       | Admitted input i \<Rightarrow> execute_step deps (iv_action (with_handler h call))
           (buildRunEnv deps (with_handler h call) input ?t) i ?t) sw
      = (case admission of Replayed output' \<Rightarrow> eff_return output' | Admitted input i \<Rightarrow> eff_throw Foreign) sw"
      using never by (cases admission) auto
  qed
  then show ?thesis by (simp add: run_action_def cong: sum.case_cong)
qed

section \<open>Witness\<close>

definition sample_once :: "unit app_world handler \<Rightarrow> (unit, unit app_world) action_invocation" where
  "sample_once h = (sample_call h)\<lparr>iv_action := (iv_action (sample_call h))\<lparr>im_contract := sample_sweep\<lparr>ac_idempotent := True\<rparr>\<rparr>\<rparr>"

lemma sample_once_sel:
  "im_handler (iv_action (sample_once h)) = h"
  "im_auditTarget (iv_action (sample_once h)) = Some (\<lambda>te. Inr \<lparr>tr_type = ''order'', tr_id = ''o1''\<rparr>)"
  "im_auditSnapshot (iv_action (sample_once h)) = None"
  "im_contract (iv_action (sample_once h)) = sample_sweep\<lparr>ac_idempotent := True\<rparr>"
  "rv_deadline (buildRunEnv sample_deps (sample_once h) JNull 1000) = 11000"
  "rv_contract (buildRunEnv sample_deps (sample_once h) JNull 1000) = sample_sweep\<lparr>ac_idempotent := True\<rparr>"
  "rv_input (buildRunEnv sample_deps (sample_once h) JNull 1000) = JNull"
  by (simp_all add: sample_once_def buildRunEnv_def run_deadline_def sample_call_def sample_sweep_def sample_contract_def)

lemma sample_server_sel:
  "po_sha256 sample_server = (\<lambda>t. ''h'')" "po_between sample_server = alone"
  "po_rnd sample_server = (\<lambda>n. replicate n (CHR ''1''))" "po_jobs sample_server = (\<lambda>envelopes. eff_return ())"
  by (simp_all add: sample_server_def memory_options_def)

lemma sample_once_admitted:
  "\<exists>i s w1 r. admit_steps sample_deps (sample_once h) 1000 (initial_state, sample_start)
     = (Inr (Admitted JNull i), (s, w1)) \<and> \<not> st_replayed s \<and> st_reserved s = Some r \<and> owns r w1
     \<and> pr_now w1 = 1000 \<and> pw_tenancy w1 = sample_tenancy
     \<and> (\<forall>k row. iw_rows w1 k = Some row \<longrightarrow> 1000 < ik_expiresAt row)
     \<and> (\<exists>a. st_authorization s = Some a \<and> pa_actor a = SystemActor ''worker'' \<and> pa_companyId a = None)"
  by (simp add: admit_steps_def parse_input_def sample_deps_sel sample_call_def sample_once_def sample_sweep_def sample_contract_def
      typed_def assert_step2_def Let_def assertPrincipalShape_def assertAuthenticated_def
      pipeline_request_def sample_hook_request_def assertExecutionTimeConfirmation_def
      assertRequiredProtocolHooks_def confirmationIsRequired_def composed_def server_hooks_def
      note_state_def admit_env_def eff_bind_def on_world_def typed_eff_def uuidv7_def sample_start_def
      MAX_TIMESTAMP_MS_def interfere_def enforce_rate_limit_def server_limiter_def enforce_def
      buildRunEnv_def hook_env_of_def rate_policy_def defaultPolicyFor_def preflight_step_def needsPreflight_def
      runAuthorizationPreflight_def requireAuthorization_def createIdempotencyHook_def reserve_def reservation_request_of_def
      requireIdempotencyKey_def principalKeyFor_def protocol_env_of_def scopeKeyFor_def requestHashOf_def
      canonicalJsonSha256OfUnknown_def canonicalJsonSha256_def canonicalJson_def sorted_members_def sample_server_sel
      gate_step_def runConfirmationGate_def reserve_step_def runIdempotencyReserve_def initial_state_def
      numeral_2_eq_2 reserve_round_def randomUUID_def sql_insert_def owns_def owned_in_progress_def IDEMPOTENCY_RETENTION_MS_def)

lemma sample_once_answers:
  "\<exists>line w'. run_action sample_deps (sample_once sample_write) sample_start = ((Inr (JString ''done''), line), w')
     \<and> \<not> fl_replayed line \<and> pr_now w' = 1000 \<and> pw_tenancy w' = sample_tenancy
     \<and> (\<forall>k row. iw_rows w' k = Some row \<longrightarrow> 1000 < ik_expiresAt row)"
proof -
  obtain i s w1 r a where admitted: "admit_steps sample_deps (sample_once sample_write) 1000 (initial_state, sample_start)
     = (Inr (Admitted JNull i), (s, w1))" "\<not> st_replayed s" "st_reserved s = Some r" "owns r w1" "pr_now w1 = 1000"
    "pw_tenancy w1 = sample_tenancy" "st_authorization s = Some a" "pa_actor a = SystemActor ''worker''" "pa_companyId a = None"
    "\<And>k row. iw_rows w1 k = Some row \<Longrightarrow> 1000 < ik_expiresAt row"
    using sample_once_admitted by metis
  obtain ctx where ctx: "constructPrincipalContext (buildRunEnv sample_deps (sample_once sample_write) JNull 1000)
      sample_tenancy False = Inr ctx" "ctx_principal ctx = System" "bc_actor (ctx_base ctx) = SystemActor ''worker''"
    by (simp add: constructPrincipalContext_def buildRunEnv_def sample_once_def sample_call_def createSystemContext_def typed_def)
  obtain row where row: "iw_rows w1 (rs_identity r) = Some row" "owned_in_progress (rs_attemptId r) row"
    using admitted(4) by (auto simp: owns_def)
  have hooks: "ph_audit (server_hooks options limiter) = Some (createAuditHook (po_sha256 options))"
    "ph_jobs (server_hooks options limiter) = Some (po_jobs options)"
    "ph_idempotency (server_hooks options limiter)
       = Some (createIdempotencyHook (po_sha256 options) (po_rnd options) (\<lambda>k. po_between options (k + 8)))" for options limiter
    by (simp_all add: server_hooks_def)
  have env: "protocol_env_of (buildRunEnv sample_deps (sample_once sample_write) JNull 1000) a
      = \<lparr>pe_contract = sample_sweep\<lparr>ac_idempotent := True\<rparr>, pe_request = sample_hook_request\<lparr>rq_action := ''orders.sweep''\<rparr>,
         pe_principal = InvokeSystem ''worker'' GlobalScopeInput False, pe_input = JNull, pe_authorization = a\<rparr>"
    by (simp add: protocol_env_of_def buildRunEnv_def sample_once_def sample_call_def pipeline_request_def sample_sweep_def)
  have origin: "run_job_origin (buildRunEnv sample_deps (sample_once sample_write) JNull 1000) i s'
      = Inr (FromIdempotency ''system:worker'' ''global'' ''orders.sweep'' ''k1'')"
    if "st_reserved s' = Some r" "st_authorization s' = Some a" for s'
    using that
    by (simp add: run_job_origin_def admitted env jobOriginFor_def principalKeyFor_def scopeKeyFor_def
        requireIdempotencyKey_def sample_hook_request_def sample_sweep_def)
  obtain s' w' where run: "pipeline_steps sample_deps (sample_once sample_write) 1000 (initial_state, sample_start)
      = (Inr (JString ''done''), (s', w'))" "\<not> st_replayed s'" "pr_now w' = 1000" "pw_tenancy w' = sample_tenancy"
    "iw_rows w' = (iw_rows w1)(rs_identity r \<mapsto> row\<lparr>ik_status := Completed, ik_response := Some (JString ''done'')\<rparr>)"
    by (simp add: sample_run_simps sample_once_sel admitted ctx sample_write_def validateOutput_def typed_def protocol_slots_def
        flush_def createEmitBuffer_def origin enqueue_flush_def createEnqueueBuffer_def typed_eff_def finalize_cases row
        audit_in_transaction_def hooks audit_success_def requireAuditTarget_def createAuditHook_def recordSuccess_def
        success_row_def success_env_of_def canonicalJsonSha256OfUnknown_def canonicalJsonSha256_def canonicalJson_def
        insertAuditRow_def createIdempotencyHook_def
        toAuditActor_def finalize_in_transaction_def runPostCommitReadAudit_def Let_def)
  then show ?thesis
    using admitted(10) row(1) by (auto simp: run_action_def finish_def sample_sel)
qed

lemma sample_store: "\<forall>request. preserves retry_view (rs_consume (po_rateLimitStore sample_server) request)"
  by (auto simp: sample_server_def memory_options_def createInMemoryRateLimitStore_def memory_consume_def
      retry_view_def Let_def intro!: preservesI split: prod.splits)


text \<open>A confirmed order that is submitted for the first time.\<close>

definition sample_submit :: "unit app_world handler \<Rightarrow> (unit, unit app_world) action_invocation" where
  "sample_submit h = \<lparr>iv_action = (iv_action (sample_call h))\<lparr>im_contract := sample_contract\<rparr>, iv_input = JNull,
     iv_request = sample_hook_request, iv_principal = InvokeStaff (Some ''u1'') (Some sample_company)\<rparr>"

theorem unconfirmed_call_never_runs_witness:
  "run_action sample_deps (with_handler sample_crash (sample_submit sample_write)) sample_start
   = run_action sample_deps (with_handler sample_write (sample_submit sample_write)) sample_start"
  by (rule unconfirmed_call_never_runs [OF sample_created(1) _ sample_store])
    (simp_all add: sample_server_sel sample_submit_def pipeline_request_def sample_hook_request_def
      confirmationIsRequired_def sample_contract_def sample_start_def)

end
