(* ===== verification/Pipeline_Delivery.thy ===== *)
theory Pipeline_Delivery
  imports Pipeline_Promises
begin

text \<open>
  Event handlers run by the pipeline. The delivery transaction invokes the pipeline with the
  delivery row in the idempotency slot; here that invocation is shown to keep the contract
  \<open>finalizes\<close> that the delivery protocol rests on, so its promises hold for the two together.
\<close>

section \<open>The hooks of a delivery are quiet\<close>

definition delivery_deps ::
  "(('m, 'a) app_world_scheme) pipeline_options \<Rightarrow> (('m, 'a) app_world_scheme, core_error, unit) eff \<Rightarrow>
     (('m, 'a) app_world_scheme, unit) pipeline_deps" where
  "delivery_deps options finalize' = pipeline_of options alone
     (delivery_hooks (server_hooks options (server_limiter options)) finalize')"

lemma delivery_hooks_sel:
  "ph_idempotency (pd_hooks (delivery_deps options fin)) = Some (createDeliveryReservationHook fin)"
  "ph_audit (pd_hooks (delivery_deps options fin)) = Some (createAuditHook (po_sha256 options))"
  "ph_jobs (pd_hooks (delivery_deps options fin)) = Some (po_jobs options)"
  "pd_between (delivery_deps options fin) = alone"
  by (simp_all add: delivery_deps_def pipeline_of_def delivery_hooks_def server_hooks_def)

lemma delivery_quiet:
  assumes "quiet_options options"
  shows "quiet_hooks (delivery_deps options fin)"
proof -
  note server = hooks_quiet [OF assms]
  have same: "ph_rateLimit (pd_hooks (delivery_deps options fin)) = Some (server_limiter options)"
    "ph_confirmation (pd_hooks (delivery_deps options fin)) = Some (gate (po_sha256 options) (po_zodUuid options)
        (po_rnd options) (po_confirmationStore options))"
    by (simp_all add: delivery_deps_def pipeline_of_def delivery_hooks_def server_hooks_def)
  have slots: "ph_rateLimit (pd_hooks (pipeline_of options (po_between options) (server_hooks options (server_limiter options))))
      = Some (server_limiter options)"
    "ph_confirmation (pd_hooks (pipeline_of options (po_between options) (server_hooks options (server_limiter options))))
      = Some (gate (po_sha256 options) (po_zodUuid options) (po_rnd options) (po_confirmationStore options))"
    by (simp_all add: pipeline_of_def server_hooks_def)
  show ?thesis
  proof (unfold_locales, goal_cases)
    case (2 limiter henv)
    then show ?case using quiet_hooks.limiter_quiet [OF server slots(1)] same(1) by simp
  next
    case (3 confirm run penv)
    then show ?case using quiet_hooks.gate_quiet [OF server slots(2) 3(2)] same(2) by simp
  next
    case (7 audit fenv w)
    then show ?case using recordFailure_rows [of "po_sha256 options" fenv w]
      by (auto simp: delivery_hooks_sel createAuditHook_def)
  qed (auto simp: delivery_hooks_sel createDeliveryReservationHook_def keeps)
qed

interpretation delivery: quiet_hooks "delivery_deps (memory_options options) fin" for options fin
  by (rule delivery_quiet [OF memory_quiet])

section \<open>An event handler run by the pipeline\<close>

definition delivery_view :: "'a delivery_world_scheme \<Rightarrow> outbox_row list \<times> (delivery_key \<Rightarrow> delivery_row option)" where
  "delivery_view w = (ow_events w, dw_deliveries w)"

lemma flush_grows:
  assumes "flush ctx k b w = (Inr b', w')"
  shows "events_grow (ow_events w) (ow_events w')"
  using assms by (auto simp: flush_def Let_def events_grow_def split: if_splits sum.splits prod.splits option.splits)

lemma typed_eff_Inr: "typed_eff run w = (Inr x, w') \<longleftrightarrow> run w = (Inr x, w')"
  by (auto simp: typed_eff_def typed_def split: prod.splits sum.splits)

text \<open>The slot of a delivery row never answers in the place of the handler.\<close>

lemma delivery_gate_executes:
  assumes "runConfirmationGate (delivery_deps options fin) action env a w = (Inr gated, w')"
  shows "\<exists>grant. gated = GateExecute grant"
proof -
  have "probe_for_gate (delivery_deps options fin) env a' = eff_return (GateExecute None)" for a'
    by (auto simp: probe_for_gate_def delivery_hooks_sel createDeliveryReservationHook_def eff_bind_def fun_eq_iff)
  then show ?thesis
    using assms by (auto simp: runConfirmationGate_def eff_bind_Inr_iff split: if_splits option.splits)
qed

lemma delivery_step_executes:
  assumes "runIdempotencyReserve (delivery_deps options fin) env a grant w = (Inr step, w')"
  shows "\<exists>r. step = StepExecute r"
  using assms
  by (auto simp: runIdempotencyReserve_def delivery_hooks_sel createDeliveryReservationHook_def eff_bind_Inr_iff
      split: if_splits)

lemma delivery_never_replays:
  assumes "admit_steps (delivery_deps options fin) call t sw = (Inr admission, sw')"
  shows "\<exists>input i. admission = Admitted input i"
proof -
  let ?deps = "delivery_deps options fin"
  obtain env sw1 where env: "admit_env ?deps (iv_action call) env sw1 = (Inr admission, sw')"
    using assms by (auto simp: admit_steps_def eff_bind_Inr_iff)
  then obtain gated i sw2 sw3 where gated: "gate_step ?deps (iv_action call) env sw2 = (Inr gated, sw3)"
    "(case gated of GateReplay output' \<Rightarrow> note_replay output'
      | GateExecute grant \<Rightarrow> reserve_step ?deps env i grant) sw3 = (Inr admission, sw')"
    unfolding admit_env_def eff_bind_Inr_iff by blast
  have "runConfirmationGate ?deps (iv_action call) env (st_authorization (fst sw2)) (snd sw2) = (Inr gated, snd sw3)"
    using gated(1) by (cases sw2; cases sw3) (simp add: gate_step_def on_world_result)
  then obtain grant where "gated = GateExecute grant" using delivery_gate_executes by blast
  then obtain step authz w sw4 where step: "runIdempotencyReserve ?deps env authz grant w = (Inr step, snd sw4)"
    "(case step of StepReplay output' \<Rightarrow> note_replay output'
      | StepExecute reserved \<Rightarrow> eff_bind (note_state (st_reserved_update (\<lambda>_. reserved)))
          (\<lambda>_. eff_return (Admitted (rv_input env) i))) sw4 = (Inr admission, sw')"
    using gated(2) by (auto simp: reserve_step_def eff_bind_Inr_iff on_world_result split: prod.splits)
  then show ?thesis using delivery_step_executes [OF step(1)] by (auto simp: eff_bind_Inr_iff)
qed

text \<open>What the rest of the server owes: its handlers and its job port leave the outbox and the deliveries alone.\<close>

definition minds_the_outbox ::
  "(('m, 'a) app_world_scheme) pipeline_options \<Rightarrow>
     ('m, ('m, 'a) app_world_scheme) action_implementation \<Rightarrow> bool" where
  "minds_the_outbox options action \<longleftrightarrow>
     (\<forall>envelopes. preserves delivery_view (po_jobs options envelopes))
     \<and> (\<forall>input ctx. preserves (\<lambda>hs. delivery_view (hs_world hs)) (im_handler action input ctx))"

lemma delivery_slots:
  assumes port: "\<And>envelopes. preserves delivery_view (po_jobs options envelopes)"
    and "mutation (rv_contract env)" and "im_contract action = rv_contract env" and "st_reserved s \<noteq> None"
    and "protocol_slots (delivery_deps options fin) action env i t ctx handled output' s w = (Inr (), w')"
  shows "\<exists>v. fin v = (Inr (), w') \<and> dw_deliveries v = dw_deliveries w \<and> events_grow (ow_events w) (ow_events v)"
proof -
  let ?deps = "delivery_deps options fin"
  obtain sealed w1 origin sealed' w2 w3 where slots:
    "flush ctx (run_causation env) (hd_emits handled) w = (Inr sealed, w1)"
    "enqueue_flush (pd_sha256 ?deps) ctx origin (ph_jobs (pd_hooks ?deps)) (hd_jobs handled) w1 = (Inr sealed', w2)"
    "audit_in_transaction ?deps action env output' ctx t (st_auditTarget s) w2 = (Inr (), w3)"
    "finalize_in_transaction ?deps (st_reserved s) output' w3 = (Inr (), w')"
    by (rule slots_Inr [OF assms(5)]) (rule that, simp_all)
  have w1: "dw_deliveries w1 = dw_deliveries w" "events_grow (ow_events w) (ow_events w1)"
    using flush_keeps(3) [OF slots(1)] flush_grows [OF slots(1)] by simp_all
  have "delivery_view w2 = delivery_view w1"
    by (rule enqueue_flush_keeps [OF slots(2) [unfolded delivery_hooks_sel] port])
  moreover have "delivery_view w3 = delivery_view w2"
    using audit_committed [OF slots(3) delivery_hooks_sel(2) assms(2,3)]
    by (auto simp: insertAuditRow_def delivery_view_def split: if_splits)
  moreover have "fin w3 = (Inr (), w')"
    using slots(4) assms(4)
    by (auto simp: finalize_in_transaction_def delivery_hooks_sel createDeliveryReservationHook_def typed_eff_Inr)
  ultimately show ?thesis using w1 by (intro exI [of _ w3]) (simp add: delivery_view_def)
qed

lemma delivery_execution:
  fixes w :: "('m, 'a) app_world_scheme"
  assumes quiet: "quiet_options options" and minds: "minds_the_outbox options (iv_action call)"
    and "mutation (im_contract (iv_action call))" and "ac_idempotent (im_contract (iv_action call))"
    and run: "executeAction (delivery_deps options fin) call w = (Inr out, w')"
  shows "\<exists>v. fin v = (Inr (), w') \<and> dw_deliveries v = dw_deliveries w \<and> events_grow (ow_events w) (ow_events v)"
proof -
  let ?deps = "delivery_deps options fin" and ?t = "pr_now w" and ?c = "im_contract (iv_action call)"
  note hooks = delivery_hooks_sel [of options fin]
  obtain s where "pipeline_steps ?deps call ?t (initial_state, w) = (Inr out, (s, w'))"
    using run by (auto simp: executeAction_def run_action_def Let_def split: prod.splits sum.splits)
  then obtain admission sw1 where a: "admit_steps ?deps call ?t (initial_state, w) = (Inr admission, sw1)"
    "(case admission of Replayed output' \<Rightarrow> eff_return output'
       | Admitted input i \<Rightarrow> execute_step ?deps (iv_action call) (buildRunEnv ?deps call input ?t) i ?t) sw1
      = (Inr out, (s, w'))"
    unfolding pipeline_steps_def eff_bind_Inr_iff by auto
  obtain input i where admission: "admission = Admitted input i" using delivery_never_replays [OF a(1)] by blast
  obtain s1 w1 where sw1: "sw1 = (s1, w1)" by fastforce
  let ?env = "buildRunEnv ?deps call input ?t"
  have env: "rv_contract ?env = ?c" by (simp add: buildRunEnv_def)
  have mut: "mutation (rv_contract ?env)" using assms(3) env by simp
  have view1: "delivery_view w1 = delivery_view w"
    using preservesD [OF quiet_hooks.admit_keeps [OF delivery_quiet [OF quiet]] a(1)]
    by (simp add: sw1 tables_def delivery_view_def)
  have reserved: "st_reserved s1 \<noteq> None"
    using admitted_reserved [OF a(1) [unfolded admission sw1] hooks(1)] assms(3,4) by (simp add: mutation_def)
  have step: "execute_step ?deps (iv_action call) ?env i ?t (s1, w1) = (Inr out, (s, w'))"
    using a(2) by (simp add: admission sw1)
  obtain w2 where body: "execution_body ?deps (iv_action call) ?env i ?t (s1, w1) = (Inr out, (s, w2))" "w' = w2"
    by (rule execute_mutation [OF step mut]) (simp add: hooks(4))
  obtain ctx raw hs where h:
    "im_handler (iv_action call) (rv_input ?env) ctx (handler_start i (st_auditTarget s1) w1) = (Inr raw, hs)"
    "s = s1\<lparr>st_executionCtx := Some ctx, st_auditTarget := hs_target hs\<rparr>"
    "protocol_slots ?deps (iv_action call) ?env i ?t ctx
       \<lparr>hd_raw = raw, hd_emits = hs_emits hs, hd_jobs = hs_jobs hs\<rparr> out s (hs_world hs) = (Inr (), w2)"
    by (rule body_Inr [OF body(1)]) (rule that)
  have handler: "preserves (\<lambda>hs. delivery_view (hs_world hs)) (im_handler (iv_action call) (rv_input ?env) ctx)"
    using minds unfolding minds_the_outbox_def by blast
  have "delivery_view (hs_world hs) = delivery_view w1"
    using preservesD [OF handler h(1)] by (simp add: handler_start_def)
  moreover have "\<exists>v. fin v = (Inr (), w2) \<and> dw_deliveries v = dw_deliveries (hs_world hs)
      \<and> events_grow (ow_events (hs_world hs)) (ow_events v)"
  proof (rule delivery_slots [OF _ mut _ _ h(3)])
    show "preserves delivery_view (po_jobs options envelopes)" for envelopes
      using minds by (simp add: minds_the_outbox_def)
  qed (use reserved h(2) env in simp_all)
  ultimately show ?thesis using view1 body(2) by (simp add: delivery_view_def)
qed

text \<open>The contract of the delivery protocol, kept by the pipeline.\<close>

definition subscription_hooks ::
  "(('m, 'a) app_world_scheme) pipeline_options \<Rightarrow> (('m, 'a) app_world_scheme, idempotency_reservation) pipeline_hooks" where
  "subscription_hooks options = server_hooks options (server_limiter options)"

lemma subscription_finalizes:
  assumes "quiet_options options" and "minds_the_outbox options action"
    and "mutation (im_contract action)" and "ac_idempotent (im_contract action)"
  shows "finalizes (subscription_invoke options (subscription_hooks options) action)"
  unfolding finalizes_def
proof (intro allI impI)
  fix c i who invocation and w w' :: "('a, 'b) app_world_scheme"
  assume "subscription_invoke options (subscription_hooks options) action (delivery_finalize c i who) invocation w = (Inr (), w')"
  then obtain out where "executeAction (delivery_deps options (delivery_finalize c i who))
      \<lparr>iv_action = action, iv_input = envelope_json (di_input invocation),
       iv_request = di_request invocation, iv_principal = di_principal invocation\<rparr> w = (Inr out, w')"
    by (auto simp: subscription_invoke_def subscription_hooks_def delivery_deps_def split: prod.splits sum.splits)
  then obtain v where v: "delivery_finalize c i who v = (Inr (), w')" "dw_deliveries v = dw_deliveries w"
    "events_grow (ow_events w) (ow_events v)"
    using delivery_execution [OF assms(1) _ _ _] assms(2-4) by (metis action_invocation.select_convs(1))
  moreover have "ow_events w' = ow_events v" using v(1) by (auto simp: delivery_finalize_Inr)
  ultimately show "\<exists>v v' :: ('a, 'b) app_world_scheme. delivery_finalize c i who v = (Inr (), v') \<and> dw_deliveries v = dw_deliveries w
     \<and> dw_deliveries w' = dw_deliveries v' \<and> events_grow (ow_events w) (ow_events w')"
    by (intro exI [of _ v] exI [of _ w']) simp
qed


definition sample_consumer :: "(unit, unit app_world) action_implementation" where
  "sample_consumer = (iv_action (sample_call sample_write))\<lparr>im_contract := sample_sweep\<lparr>ac_idempotent := True\<rparr>\<rparr>"


end
