(* ===== verification/Nested.thy ===== *)
theory Nested
  imports Pipeline
begin

text \<open>
  Nested calls: \<open>ctx.call\<close> (\<open>runtime/pipeline/ctx-call.ts\<close>) and \<open>ctx.callAtomic\<close>
  (\<open>runtime/pipeline/ctx-call-atomic.ts\<close>) on the machinery they share
  (\<open>runtime/pipeline/nested-invocation.ts\<close>). A handler is here a program over its context: a tree of
  the calls it makes on \<open>ctx\<close>, each with what it does next, errors included, since a handler may
  catch them. A handler passes the action object it calls; \<open>'k\<close> are these references, so actions may
  refer to each other in circles. A statement that writes does not exist on a read facade.

  The abort signal and the sinks of logs and spans are left out, but the lines themselves are kept
  in the order they are written. The separate transaction that audits a nested read is one step
  on the same world; a rollback of the root takes its row along here.
\<close>

section \<open>Handlers as programs\<close>

datatype ('k, 'w) program =
    Return json
  | Throw thrown
  | Wait nat "('k, 'w) program"
  | Select "'w \<Rightarrow> thrown + json" "thrown + json \<Rightarrow> ('k, 'w) program"
  | Mutate "'w \<Rightarrow> (thrown + json) \<times> 'w" "thrown + json \<Rightarrow> ('k, 'w) program"
  | Emit event_definition event_aggregate_ref json "thrown + json \<Rightarrow> ('k, 'w) program"
  | Enqueue job json "thrown + json \<Rightarrow> ('k, 'w) program"
  | AuditTarget js_string "thrown + json \<Rightarrow> ('k, 'w) program"
  | Call 'k json "thrown + json \<Rightarrow> ('k, 'w) program"
  | CallAtomic 'k json "thrown + json \<Rightarrow> ('k, 'w) program"

record ('m, 'k, 'w) nested_action =
  nx_contract :: action_contract
  nx_handler :: "json \<Rightarrow> action_ctx \<Rightarrow> ('k, 'w) program"
  nx_resolveTarget :: "(json \<Rightarrow> 'm tenancy \<Rightarrow> resolver) option"
  nx_auditTarget :: "audit_target_fn option"
  nx_auditSnapshot :: "audit_snapshot_fn option"

datatype invocation_kind = NestedCall | AtomicKind

text \<open>The lines of the two channels: kind, callee, and caller or outcome, identity and duration.\<close>

datatype call_line =
    CallStarted invocation_kind js_string js_string
  | CallFinished invocation_kind js_string js_string finish_identity ms

text \<open>What an invocation owns while its handler runs; \<open>fr_used\<close> is the latch of \<open>ctx.callAtomic\<close>.\<close>

record 'w frame =
  fr_world :: 'w
  fr_emits :: emit_buffer
  fr_jobs :: enqueue_buffer
  fr_target :: audit_target_box
  fr_used :: bool
  fr_lines :: "call_line list"

type_synonym 'w frame_eff = "('w frame, core_error, json) eff"

record ('k, 'w) capabilities =
  cp_db :: db_capability
  cp_emit :: "event_definition \<Rightarrow> event_aggregate_ref \<Rightarrow> json \<Rightarrow> 'w frame_eff"
  cp_enqueue :: "job \<Rightarrow> json \<Rightarrow> 'w frame_eff"
  cp_auditTarget :: "js_string \<Rightarrow> 'w frame_eff"
  cp_call :: "'k \<Rightarrow> json \<Rightarrow> 'w frame_eff"
  cp_callAtomic :: "'k \<Rightarrow> json \<Rightarrow> 'w frame_eff"

primrec run_program ::
  "('k, 'a process_scheme) capabilities \<Rightarrow> ('k, 'a process_scheme) program \<Rightarrow>
     ('a process_scheme frame, thrown, json) eff" where
  "run_program cap (Return output') fr = (Inr output', fr)"
| "run_program cap (Throw e) fr = (Inl e, fr)"
| "run_program cap (Wait n next') fr =
     run_program cap next' (fr\<lparr>fr_world := (fr_world fr)\<lparr>pr_now := pr_now (fr_world fr) + int n\<rparr>\<rparr>)"
| "run_program cap (Select query next') fr = run_program cap (next' (query (fr_world fr))) fr"
| "run_program cap (Mutate statement next') fr =
     (if cp_db cap = WritableTx
      then case statement (fr_world fr) of
        (r, w) \<Rightarrow> run_program cap (next' r) (fr\<lparr>fr_world := w\<rparr>)
      else run_program cap (next' (Inl Foreign)) fr)"
| "run_program cap (Emit definition' aggregate payload next') fr =
     (case cp_emit cap definition' aggregate payload fr of
        (r, fr') \<Rightarrow> run_program cap (next' (typed r)) fr')"
| "run_program cap (Enqueue job payload next') fr =
     (case cp_enqueue cap job payload fr of (r, fr') \<Rightarrow> run_program cap (next' (typed r)) fr')"
| "run_program cap (AuditTarget i next') fr =
     (case cp_auditTarget cap i fr of (r, fr') \<Rightarrow> run_program cap (next' (typed r)) fr')"
| "run_program cap (Call callee input next') fr =
     (case cp_call cap callee input fr of (r, fr') \<Rightarrow> run_program cap (next' (typed r)) fr')"
| "run_program cap (CallAtomic callee input next') fr =
     (case cp_callAtomic cap callee input fr of (r, fr') \<Rightarrow> run_program cap (next' (typed r)) fr')"

section \<open>Emission, jobs and the audit target\<close>

definition frame_emit ::
  "('a process_scheme, 'v) pipeline_deps \<Rightarrow> action_contract \<Rightarrow> event_definition \<Rightarrow>
     event_aggregate_ref \<Rightarrow> json \<Rightarrow> 'a process_scheme frame_eff" where
  "frame_emit deps contract definition' aggregate payload fr =
     (case emit (pd_zod deps) (pd_randomBytes deps) contract definition' aggregate payload
             (fr_emits fr) (fr_world fr) of
        (Inl e, w) \<Rightarrow> (Inl e, fr\<lparr>fr_world := w\<rparr>)
      | (Inr buffer, w) \<Rightarrow> (Inr JUndefined, fr\<lparr>fr_world := w, fr_emits := buffer\<rparr>))"

definition frame_enqueue ::
  "('w, 'v) pipeline_deps \<Rightarrow> (job \<Rightarrow> json \<Rightarrow> zod_issue list + payload_object) \<Rightarrow> action_contract \<Rightarrow>
     job \<Rightarrow> json \<Rightarrow> 'w frame_eff" where
  "frame_enqueue deps jobZod contract job payload fr =
     (case enqueue (pd_sha256 deps) jobZod contract job payload (fr_jobs fr) of
        Inl e \<Rightarrow> (Inl e, fr)
      | Inr buffer \<Rightarrow> (Inr JUndefined, fr\<lparr>fr_jobs := buffer\<rparr>))"

definition frame_auditTarget :: "js_string \<Rightarrow> 'w frame_eff" where
  "frame_auditTarget i fr =
     (case record_audit_target i (fr_target fr) of
        Inl e \<Rightarrow> (Inl e, fr)
      | Inr box \<Rightarrow> (Inr JUndefined, fr\<lparr>fr_target := box\<rparr>))"

definition rejectNestedEnqueue :: "job \<Rightarrow> json \<Rightarrow> 'w frame_eff" where
  "rejectNestedEnqueue job payload = eff_throw (job_error NestedEnqueue)"

definition rejectNestedCallAtomic :: "'k \<Rightarrow> json \<Rightarrow> 'w frame_eff" where
  "rejectNestedCallAtomic callee input = eff_throw (call_error NestedAtomicCall)"

section \<open>The machinery of the channels\<close>

definition CALL_DEPTH_LIMIT :: nat where
  "CALL_DEPTH_LIMIT = 3"

record ('m, 'k, 'w, 'v) call_env =
  ce_deps :: "('w, 'v) pipeline_deps"
  ce_jobZod :: "job \<Rightarrow> json \<Rightarrow> zod_issue list + payload_object"
  ce_actions :: "'k \<Rightarrow> ('m, 'k, 'w) nested_action"
  ce_caller :: action_contract
  ce_request :: hook_request_meta
  ce_deadline :: ms
  ce_execution :: "action_ctx option"
  ce_path :: "js_string list"

definition assertNestedDeadline :: "ms \<Rightarrow> ms \<Rightarrow> core_error + unit" where
  "assertNestedDeadline deadline nowMs =
     (if deadline - nowMs \<le> 0 then Inl timeout_error else Inr ())"

definition validateNestedInput ::
  "(zod_schema \<Rightarrow> json \<Rightarrow> zod_issue list + json) \<Rightarrow> zod_schema \<Rightarrow> json \<Rightarrow> core_error + json" where
  "validateNestedInput zod schema input =
     (case zod schema input of Inl issues \<Rightarrow> Inl (validation_error issues) | Inr parsed \<Rightarrow> Inr parsed)"

definition validateNestedOutput ::
  "(zod_schema \<Rightarrow> json \<Rightarrow> zod_issue list + json) \<Rightarrow> zod_schema \<Rightarrow> json \<Rightarrow> core_error + json" where
  "validateNestedOutput zod schema raw =
     (case zod schema raw of Inl _ \<Rightarrow> Inl (call_error CalleeOutputMismatch) | Inr parsed \<Rightarrow> Inr parsed)"

fun toNestedInvocationError :: "thrown \<Rightarrow> core_error" where
  "toNestedInvocationError (Typed e) = e"
| "toNestedInvocationError Foreign = call_error CalleeForeignThrow"

definition nested_request ::
  "('m, 'k, 'w, 'v) call_env \<Rightarrow> ('m, 'k, 'w) nested_action \<Rightarrow> hook_request_meta" where
  "nested_request env action = (ce_request env)\<lparr>rq_action := ac_name (nx_contract action)\<rparr>"

definition nested_identity :: "action_ctx option \<Rightarrow> finish_identity" where
  "nested_identity calleeCtx =
     (case calleeCtx of
        None \<Rightarrow> \<lparr>fi_actorType = None, fi_actorId = None, fi_companyId = None\<rparr>
      | Some ctx \<Rightarrow> \<lparr>fi_actorType = Some (actor_type (bc_actor (ctx_base ctx))),
          fi_actorId = Some (actor_id (bc_actor (ctx_base ctx))), fi_companyId = effectiveCompanyId ctx\<rparr>)"

definition add_line :: "call_line \<Rightarrow> 'w frame \<Rightarrow> 'w frame" where
  "add_line line fr = fr\<lparr>fr_lines := fr_lines fr @ [line]\<rparr>"

text \<open>The started line, the guarded run of the callee, the finished line and the attributed error.\<close>

definition nested_invocation ::
  "invocation_kind \<Rightarrow> ('m, 'k, 'a process_scheme, 'v) call_env \<Rightarrow>
     ('m, 'k, 'a process_scheme) nested_action \<Rightarrow>
     (ms \<Rightarrow> 'a process_scheme frame \<Rightarrow>
        ((thrown + json) \<times> action_ctx option) \<times> 'a process_scheme frame) \<Rightarrow>
     'a process_scheme frame_eff" where
  "nested_invocation kind env action body fr =
     (let startedAt = pr_now (fr_world fr);
          calleeName = ac_name (nx_contract action) in
      case body startedAt (add_line (CallStarted kind calleeName (ac_name (ce_caller env))) fr) of
        ((r, calleeCtx), fr') \<Rightarrow>
          (let finish' = (\<lambda>outcome. add_line (CallFinished kind calleeName outcome
                 (nested_identity calleeCtx) (pr_now (fr_world fr') - startedAt)) fr') in
           case r of
             Inr output' \<Rightarrow> (Inr output', finish' ''ok'')
           | Inl thrown \<Rightarrow>
               (let err = toNestedInvocationError thrown in (Inl err, finish' (wire_code (error_code err))))))"

definition requireNestedAuditTarget ::
  "('m, 'k, 'w) nested_action \<Rightarrow> core_error + audit_target_fn" where
  "requireNestedAuditTarget action =
     (case nx_auditTarget action of
        None \<Rightarrow> Inl (call_error CalleeAuditTargetMissing)
      | Some target \<Rightarrow> Inr target)"

section \<open>The context of the callee\<close>

definition requireNestedResolver ::
  "('m, 'k, 'w) nested_action \<Rightarrow> json \<Rightarrow> 'm tenancy \<Rightarrow> core_error + resolver" where
  "requireNestedResolver action input tn =
     (case nx_resolveTarget action of
        None \<Rightarrow> Inl (call_error CalleeResolverMissing)
      | Some resolve \<Rightarrow> Inr (resolve input tn))"

fun constructCalleeContext ::
  "('m, 'k, 'w) nested_action \<Rightarrow> json \<Rightarrow> hook_request_meta \<Rightarrow> context_runtime \<Rightarrow> 'm tenancy \<Rightarrow>
     action_ctx \<Rightarrow> thrown + action_ctx" where
  "constructCalleeContext action input request runtime tn (StaffCtx _ userId companyId _) =
     typed (res_bind (createStaffContext tn request runtime (Some userId) (Some companyId))
       (checkPermissions (nx_contract action)))"
| "constructCalleeContext action input request runtime tn (CustomerCtx _ userId target) =
     res_bind (typed (requireNestedResolver action input tn)) (\<lambda>resolve.
       createCustomerContext request runtime (Some userId) resolve (Some (tg_companyId target)))"
| "constructCalleeContext action input request runtime tn (PublicTargetCtx _ _ target) =
     res_bind (typed (requireNestedResolver action input tn)) (\<lambda>resolve.
       createPublicContext request runtime (PublicTargetInput resolve (Some (tg_companyId target))))"
| "constructCalleeContext action input request runtime tn (PublicGlobalCtx _ _ _) =
     Inl (Typed (call_error PublicGlobalCaller))"
| "constructCalleeContext action input request runtime tn (SystemTenantCtx _ serviceName companyId) =
     typed (createSystemContext serviceName
       (if ac_systemScope (nx_contract action) = Some GlobalScope then GlobalScopeInput
        else TenantScope companyId) request runtime)"
| "constructCalleeContext action input request runtime tn (SystemGlobalCtx _ serviceName) =
     (if ac_systemScope (nx_contract action) = Some GlobalScope
      then typed (createSystemContext serviceName GlobalScopeInput request runtime)
      else Inl (Typed (call_error GlobalSystemCaller)))"
| "constructCalleeContext action input request runtime tn (ConsumerCtx _ userId _) =
     typed (createConsumerContext request runtime (Some userId))"
| "constructCalleeContext action input request runtime tn (AccountCtx _ userId _) =
     (if ac_principal (nx_contract action) = Consumer
      then typed (createConsumerContext request runtime (Some userId))
      else typed (createAccountContext request runtime (Some userId)))"
| "constructCalleeContext action input request runtime tn (ShareCtx _ _ target _) =
     res_bind (typed (requireNestedResolver action input tn)) (\<lambda>resolve.
       createShareContext request runtime resolve (Some (tg_companyId target)))"

section \<open>Running a callee\<close>

definition callee_frame :: "'w frame \<Rightarrow> 'w frame" where
  "callee_frame fr = fr\<lparr>fr_emits := createEmitBuffer, fr_target := createAuditTargetBox\<rparr>"

text \<open>The caller gets back the world and the lines; its own buffers, target and latch are untouched.\<close>

definition back_to_caller :: "'w frame \<Rightarrow> 'w frame \<Rightarrow> 'w frame" where
  "back_to_caller fr fr' = fr\<lparr>fr_world := fr_world fr', fr_lines := fr_lines fr'\<rparr>"

definition callee_capabilities ::
  "('m, 'k, 'a process_scheme, 'v) call_env \<Rightarrow> ('m, 'k, 'a process_scheme) nested_action \<Rightarrow>
     db_capability \<Rightarrow> ('k \<Rightarrow> json \<Rightarrow> 'a process_scheme frame_eff) \<Rightarrow> ('k, 'a process_scheme) capabilities" where
  "callee_capabilities env action db call =
     \<lparr>cp_db = db, cp_emit = frame_emit (ce_deps env) (nx_contract action),
      cp_enqueue = rejectNestedEnqueue, cp_auditTarget = frame_auditTarget, cp_call = call,
      cp_callAtomic = rejectNestedCallAtomic\<rparr>"

definition run_callee ::
  "('m, 'k, ('m, 'a) app_world_scheme, 'v) call_env \<Rightarrow> ('m, 'k, ('m, 'a) app_world_scheme) nested_action \<Rightarrow>
     db_capability \<Rightarrow> json \<Rightarrow> action_ctx \<Rightarrow>
     (action_ctx \<Rightarrow> 'k \<Rightarrow> json \<Rightarrow> ('m, 'a) app_world_scheme frame_eff) \<Rightarrow>
     (action_ctx \<Rightarrow> json \<Rightarrow> (('m, 'a) app_world_scheme frame, thrown, unit) eff) \<Rightarrow>
     ('m, 'a) app_world_scheme frame \<Rightarrow>
     ((thrown + json) \<times> action_ctx option) \<times> ('m, 'a) app_world_scheme frame" where
  "run_callee env action db input callerCtx call settle fr =
     (case constructCalleeContext action input (nested_request env action)
             \<lparr>rt_db = db, rt_deadline = ce_deadline env\<rparr> (pw_tenancy (fr_world fr)) callerCtx of
        Inl e \<Rightarrow> ((Inl e, None), fr)
      | Inr ctx \<Rightarrow>
          (case eff_bind (run_program (callee_capabilities env action (bc_db (ctx_base ctx)) (call ctx))
                    (nx_handler action input ctx)) (\<lambda>raw.
                eff_bind (eff_of (typed (validateNestedOutput (pd_zod (ce_deps env))
                    (ac_output (nx_contract action)) raw))) (\<lambda>output'.
                eff_bind (settle ctx output') (\<lambda>_. eff_return output'))) (callee_frame fr) of
             (r, fr') \<Rightarrow> ((r, Some ctx), back_to_caller fr fr')))"

definition nested_success_env ::
  "('m, 'k, 'w) nested_action \<Rightarrow> json \<Rightarrow> json \<Rightarrow> action_ctx \<Rightarrow> ms \<Rightarrow> audit_target_box \<Rightarrow>
     audit_target_fn \<Rightarrow> success_env" where
  "nested_success_env action input output' ctx durationMs box target =
     \<lparr>se_ctx = ctx, se_contract = nx_contract action, se_input = input, se_output = output',
      se_durationMs = durationMs, se_auditTarget = target, se_auditSnapshot = nx_auditSnapshot action,
      se_resolvedId = box\<rparr>"

section \<open>\<open>ctx.call\<close>\<close>

definition audit_nested_read ::
  "('m, 'k, ('m, 'a) app_world_scheme, 'v) call_env \<Rightarrow> ('m, 'k, ('m, 'a) app_world_scheme) nested_action \<Rightarrow>
     json \<Rightarrow> ms \<Rightarrow> action_ctx \<Rightarrow> json \<Rightarrow> (('m, 'a) app_world_scheme frame, thrown, unit) eff" where
  "audit_nested_read env action input startedAt ctx output' fr =
     (case ph_audit (pd_hooks (ce_deps env)) of
        None \<Rightarrow> (Inr (), fr)
      | Some hook \<Rightarrow>
          if \<not> ac_audit (nx_contract action) then (Inr (), fr)
          else case requireNestedAuditTarget action of
            Inl e \<Rightarrow> (Inl (Typed e), fr)
          | Inr target \<Rightarrow> (Inr (), fr\<lparr>fr_world := snd (in_transaction
              (ah_recordSuccess hook (nested_success_env action input output' ctx
                 (pr_now (fr_world fr) - startedAt) (fr_target fr) target)) (fr_world fr))\<rparr>))"

text \<open>The checks before a read callee starts; what they prove is the execution it runs in.\<close>

definition call_guard ::
  "('m, 'k, 'w, 'v) call_env \<Rightarrow> action_contract \<Rightarrow> ms \<Rightarrow> core_error + action_ctx" where
  "call_guard env callee nowMs =
     (case ce_execution env of
        None \<Rightarrow> Inl (call_error CallOutsideHandler)
      | Some callerCtx \<Rightarrow>
          if length (callTargetProblems (ce_caller env) callee) > 0 then Inl (call_error CallRulesViolated)
          else if ac_name callee \<in> set (ce_path env) then Inl (call_error CallCycle)
          else if length (ce_path env) > CALL_DEPTH_LIMIT then Inl (call_error CallDepthExceeded)
          else res_bind (assertNestedDeadline (ce_deadline env) nowMs) (\<lambda>_. Inr callerCtx))"

definition callee_env ::
  "('m, 'k, 'w, 'v) call_env \<Rightarrow> ('m, 'k, 'w) nested_action \<Rightarrow> action_ctx \<Rightarrow> ('m, 'k, 'w, 'v) call_env" where
  "callee_env env action ctx = env\<lparr>ce_caller := nx_contract action, ce_request := nested_request env action,
     ce_execution := Some ctx, ce_path := ce_path env @ [ac_name (nx_contract action)]\<rparr>"

text \<open>The recursion ends because the guard refuses a path that is longer than the limit.\<close>

function createCtxCall ::
  "('m, 'k, ('m, 'a) app_world_scheme, 'v) call_env \<Rightarrow> 'k \<Rightarrow> json \<Rightarrow> ('m, 'a) app_world_scheme frame_eff" where
  "createCtxCall env callee input fr =
     (let action = ce_actions env callee in
      case call_guard env (nx_contract action) (pr_now (fr_world fr)) of
        Inl e \<Rightarrow> (Inl e, fr)
      | Inr callerCtx \<Rightarrow>
     (case validateNestedInput (pd_zod (ce_deps env)) (ac_input (nx_contract action)) input of
        Inl e \<Rightarrow> (Inl e, fr)
      | Inr parsed \<Rightarrow>
          nested_invocation NestedCall env action (\<lambda>startedAt.
            run_callee env action (createReadTx WritableTx) parsed callerCtx
              (\<lambda>ctx callee' input' fr'. createCtxCall (callee_env env action ctx) callee' input' fr')
              (audit_nested_read env action parsed startedAt)) fr))"
  by pat_completeness auto

termination
  by (relation "measure (\<lambda>(env, callee, input, fr). CALL_DEPTH_LIMIT + 1 - length (ce_path env))")
    (auto simp: call_guard_def callee_env_def split: option.splits if_splits)

declare createCtxCall.simps [simp del]

section \<open>\<open>ctx.callAtomic\<close>\<close>

definition settle_atomic ::
  "('m, 'k, ('m, 'a) app_world_scheme, 'v) call_env \<Rightarrow> ('m, 'k, ('m, 'a) app_world_scheme) nested_action \<Rightarrow>
     json \<Rightarrow> ms \<Rightarrow> action_ctx \<Rightarrow> json \<Rightarrow> (('m, 'a) app_world_scheme frame, thrown, unit) eff" where
  "settle_atomic env action input startedAt ctx output' fr =
     (case flush ctx (case rq_causationId (ce_request env) of
             Some i \<Rightarrow> i | None \<Rightarrow> rq_requestId (ce_request env)) (fr_emits fr) (fr_world fr) of
        (Inl e, w) \<Rightarrow> (Inl e, fr\<lparr>fr_world := w\<rparr>)
      | (Inr buffer, w) \<Rightarrow>
          (case ph_audit (pd_hooks (ce_deps env)) of
             None \<Rightarrow> (Inr (), fr\<lparr>fr_world := w, fr_emits := buffer\<rparr>)
           | Some hook \<Rightarrow>
               if \<not> ac_audit (nx_contract action)
               then (Inr (), fr\<lparr>fr_world := w, fr_emits := buffer\<rparr>)
               else case requireNestedAuditTarget action of
                 Inl e \<Rightarrow> (Inl (Typed e), fr\<lparr>fr_world := w, fr_emits := buffer\<rparr>)
               | Inr target \<Rightarrow>
                   (case ah_recordSuccess hook (nested_success_env action input output' ctx
                           (pr_now w - startedAt) (fr_target fr) target) w of
                      (r, w') \<Rightarrow> (r, fr\<lparr>fr_world := w', fr_emits := buffer\<rparr>))))"

definition atomic_guard ::
  "('m, 'k, 'w, 'v) call_env \<Rightarrow> action_contract \<Rightarrow> bool \<Rightarrow> core_error + action_ctx" where
  "atomic_guard env callee used =
     (case ce_execution env of
        None \<Rightarrow> Inl (call_error CallOutsideHandler)
      | Some callerCtx \<Rightarrow>
          if length (atomicCallTargetProblems (ce_caller env) callee) > 0
          then Inl (call_error CallRulesViolated)
          else if used then Inl (call_error AtomicCallTwice) else Inr callerCtx)"

definition createCtxCallAtomic ::
  "('m, 'k, ('m, 'a) app_world_scheme, 'v) call_env \<Rightarrow> 'k \<Rightarrow> json \<Rightarrow> ('m, 'a) app_world_scheme frame_eff" where
  "createCtxCallAtomic env callee input fr =
     (let action = ce_actions env callee in
      case atomic_guard env (nx_contract action) (fr_used fr) of
        Inl e \<Rightarrow> (Inl e, fr)
      | Inr callerCtx \<Rightarrow>
     (let fr1 = fr\<lparr>fr_used := True\<rparr> in
      case res_bind (assertNestedDeadline (ce_deadline env) (pr_now (fr_world fr1))) (\<lambda>_.
             validateNestedInput (pd_zod (ce_deps env)) (ac_input (nx_contract action)) input) of
        Inl e \<Rightarrow> (Inl e, fr1)
      | Inr parsed \<Rightarrow>
          nested_invocation AtomicKind env action (\<lambda>startedAt.
            run_callee env action WritableTx parsed callerCtx
              (\<lambda>ctx. createCtxCall (callee_env env action ctx))
              (settle_atomic env action parsed startedAt)) fr1))"

section \<open>The handler of a root action\<close>

definition root_env ::
  "('w, 'v) pipeline_deps \<Rightarrow> (job \<Rightarrow> json \<Rightarrow> zod_issue list + payload_object) \<Rightarrow>
     ('k \<Rightarrow> ('m, 'k, 'w) nested_action) \<Rightarrow> action_contract \<Rightarrow> hook_request_meta \<Rightarrow> action_ctx \<Rightarrow>
     ('m, 'k, 'w, 'v) call_env" where
  "root_env deps jobZod actions contract request ctx =
     \<lparr>ce_deps = deps, ce_jobZod = jobZod, ce_actions = actions, ce_caller = contract,
      ce_request = request, ce_deadline = bc_deadline (ctx_base ctx), ce_execution = Some ctx,
      ce_path = [ac_name contract]\<rparr>"

definition root_capabilities ::
  "('m, 'k, ('m, 'a) app_world_scheme, 'v) call_env \<Rightarrow> action_ctx \<Rightarrow> ('k, ('m, 'a) app_world_scheme) capabilities" where
  "root_capabilities env ctx =
     \<lparr>cp_db = bc_db (ctx_base ctx), cp_emit = frame_emit (ce_deps env) (ce_caller env),
      cp_enqueue = frame_enqueue (ce_deps env) (ce_jobZod env) (ce_caller env),
      cp_auditTarget = frame_auditTarget, cp_call = createCtxCall env,
      cp_callAtomic = createCtxCallAtomic env\<rparr>"

definition root_frame :: "'w handler_state \<Rightarrow> 'w frame" where
  "root_frame hs = \<lparr>fr_world = hs_world hs, fr_emits = hs_emits hs, fr_jobs = hs_jobs hs,
     fr_target = hs_target hs, fr_used = False, fr_lines = []\<rparr>"

text \<open>What the pipeline runs for an action whose handler is a program, with the lines it writes.\<close>

definition run_root ::
  "(('m, 'a) app_world_scheme, 'v) pipeline_deps \<Rightarrow> (job \<Rightarrow> json \<Rightarrow> zod_issue list + payload_object) \<Rightarrow>
     ('k \<Rightarrow> ('m, 'k, ('m, 'a) app_world_scheme) nested_action) \<Rightarrow> 'k \<Rightarrow> hook_request_meta \<Rightarrow> json \<Rightarrow>
     action_ctx \<Rightarrow> (('m, 'a) app_world_scheme frame, thrown, json) eff" where
  "run_root deps jobZod actions rootAction request input ctx =
     run_program (root_capabilities (root_env deps jobZod actions (nx_contract (actions rootAction)) request ctx) ctx)
       (nx_handler (actions rootAction) input ctx)"

definition program_handler ::
  "(('m, 'a) app_world_scheme, 'v) pipeline_deps \<Rightarrow> (job \<Rightarrow> json \<Rightarrow> zod_issue list + payload_object) \<Rightarrow>
     ('k \<Rightarrow> ('m, 'k, ('m, 'a) app_world_scheme) nested_action) \<Rightarrow> 'k \<Rightarrow> hook_request_meta \<Rightarrow>
     (('m, 'a) app_world_scheme) handler" where
  "program_handler deps jobZod actions rootAction request input ctx hs =
     (case run_root deps jobZod actions rootAction request input ctx (root_frame hs) of
        (r, fr) \<Rightarrow> (r, \<lparr>hs_world = fr_world fr, hs_emits = fr_emits fr, hs_jobs = fr_jobs fr,
                        hs_target = fr_target fr\<rparr>))"

end
