(* ===== verification/Nested_Proofs.thy ===== *)
theory Nested_Proofs
  imports Nested Pipeline_Promises
begin

text \<open>
  What nested calls promise. The locale is the induction over the calls of a handler: a relation
  between frames that every capability keeps is kept by every program; it is interpreted for the
  trail of the lines and for what a read may leave in the world.
\<close>

section \<open>Relations that programs keep\<close>

definition obeys :: "('s \<Rightarrow> 's \<Rightarrow> bool) \<Rightarrow> ('s, 'e, 'x) eff \<Rightarrow> bool" where
  "obeys R run = (\<forall>s r s'. run s = (r, s') \<longrightarrow> R s s')"

lemma obeysD: "obeys R run \<Longrightarrow> run s = (r, s') \<Longrightarrow> R s s'"
  by (auto simp: obeys_def)

lemma obeysI: "(\<And>s r s'. run s = (r, s') \<Longrightarrow> R s s') \<Longrightarrow> obeys R run"
  by (auto simp: obeys_def)

lemma obeys_snd: "(\<And>s. R s (snd (run s))) \<Longrightarrow> obeys R run"
  by (metis obeysI snd_conv)

lemma obeys_mono: "obeys R run \<Longrightarrow> (\<And>s s'. R s s' \<Longrightarrow> R' s s') \<Longrightarrow> obeys R' run"
  by (auto simp: obeys_def)

definition wait :: "nat \<Rightarrow> 'a process_scheme frame \<Rightarrow> 'a process_scheme frame" where
  "wait n fr = fr\<lparr>fr_world := (fr_world fr)\<lparr>pr_now := pr_now (fr_world fr) + int n\<rparr>\<rparr>"

text \<open>The laws of a relation that may be proved call by call.\<close>

locale frame_order =
  fixes R :: "('m, 'a) app_world_scheme frame \<Rightarrow> ('m, 'a) app_world_scheme frame \<Rightarrow> bool"
  assumes stays: "R fr fr"
    and follows: "R fr fr1 \<Longrightarrow> R fr1 fr2 \<Longrightarrow> R fr fr2"
    and waits: "R fr (wait n fr)"
begin

lemma then_keeps:
  assumes "obeys R run" and "\<And>r. obeys R (next' r)"
  shows "obeys R (\<lambda>fr. case run fr of (r, fr') \<Rightarrow> next' r fr')"
  using assms follows by (fastforce simp: obeys_def split: prod.splits)

lemma program_keeps:
  assumes writes: "\<And>fr w. cp_db cap = WritableTx \<Longrightarrow> R fr (fr\<lparr>fr_world := w\<rparr>)"
    and emits: "\<And>d a p. obeys R (cp_emit cap d a p)" and enqueues: "\<And>j p. obeys R (cp_enqueue cap j p)"
    and targets: "\<And>i. obeys R (cp_auditTarget cap i)" and calls: "\<And>k v. obeys R (cp_call cap k v)"
    and atomics: "\<And>k v. obeys R (cp_callAtomic cap k v)"
  shows "obeys R (run_program cap program)"
proof (induction program)
  case (Wait n next')
  have run: "run_program cap (Wait n next') fr = run_program cap next' (wait n fr)" for fr
    by (simp add: wait_def)
  show ?case using Wait follows [OF waits] unfolding obeys_def run by blast
next
  case (Select query next')
  have next': "obeys R (run_program cap (next' r))" for r using Select by simp
  show ?case by (rule obeysI) (use next' [THEN obeysD] in simp)
next
  case (Mutate statement next')
  have next': "obeys R (run_program cap (next' r))" for r using Mutate by simp
  show ?case
  proof (rule obeysI)
    fix fr r fr' assume run: "run_program cap (Mutate statement next') fr = (r, fr')"
    show "R fr fr'"
    proof (cases "cp_db cap = WritableTx")
      case True
      then show ?thesis using run follows [OF writes [OF True] obeysD [OF next']]
        by (simp split: prod.splits)
    next
      case False
      then show ?thesis using run obeysD [OF next'] by simp
    qed
  qed
next
  case (Emit d a p next')
  have "obeys R (run_program cap (next' r))" for r using Emit by simp
  then show ?case by (simp add: then_keeps [OF emits])
next
  case (Enqueue j p next')
  have "obeys R (run_program cap (next' r))" for r using Enqueue by simp
  then show ?case by (simp add: then_keeps [OF enqueues])
next
  case (AuditTarget i next')
  have "obeys R (run_program cap (next' r))" for r using AuditTarget by simp
  then show ?case by (simp add: then_keeps [OF targets])
next
  case (Call k v next')
  have "obeys R (run_program cap (next' r))" for r using Call by simp
  then show ?case by (simp add: then_keeps [OF calls])
next
  case (CallAtomic k v next')
  have "obeys R (run_program cap (next' r))" for r using CallAtomic by simp
  then show ?case by (simp add: then_keeps [OF atomics])
qed (simp_all add: obeys_def stays)

lemma bind_keeps: "obeys R m \<Longrightarrow> (\<And>x. obeys R (f x)) \<Longrightarrow> obeys R (eff_bind m f)"
  using follows by (fastforce simp: obeys_def eff_bind_def split: prod.splits sum.splits)

lemma pure_keeps: "obeys R (eff_return x)" "obeys R (eff_of v)" "obeys R (eff_throw e)"
  by (simp_all add: obeys_def stays)

end

section \<open>The frame of a call\<close>

lemma nested_invocation_frame:
  assumes "nested_invocation kind env action body fr = (r, fr')"
  shows "\<exists>x c fr1 outcome. body (pr_now (fr_world fr))
       (add_line (CallStarted kind (ac_name (nx_contract action)) (ac_name (ce_caller env))) fr) = ((x, c), fr1)
     \<and> fr' = add_line (CallFinished kind (ac_name (nx_contract action)) outcome (nested_identity c)
         (pr_now (fr_world fr1) - pr_now (fr_world fr))) fr1
     \<and> (case x of Inr v \<Rightarrow> r = Inr v \<and> outcome = ''ok''
        | Inl e \<Rightarrow> r = Inl (toNestedInvocationError e) \<and> outcome = wire_code (error_code (toNestedInvocationError e)))"
  using assms by (auto simp: nested_invocation_def Let_def split: prod.splits sum.splits)

lemma nested_invocation_ok:
  assumes "nested_invocation kind env action body fr = (Inr v, fr')"
  shows "\<exists>c fr1 line. body (pr_now (fr_world fr))
       (add_line (CallStarted kind (ac_name (nx_contract action)) (ac_name (ce_caller env))) fr) = ((Inr v, c), fr1)
     \<and> fr' = add_line line fr1"
  using assms by (auto simp: nested_invocation_def Let_def split: prod.splits sum.splits)

lemma run_callee_frame:
  assumes "run_callee env action db input callerCtx call settle fr = ((x, c), fr')"
  shows "(\<exists>e. x = Inl e \<and> c = None \<and> fr' = fr
        \<and> constructCalleeContext action input (nested_request env action)
             \<lparr>rt_db = db, rt_deadline = ce_deadline env\<rparr> (pw_tenancy (fr_world fr)) callerCtx = Inl e)
   \<or> (\<exists>ctx fr1. c = Some ctx \<and> fr' = back_to_caller fr fr1
        \<and> constructCalleeContext action input (nested_request env action)
             \<lparr>rt_db = db, rt_deadline = ce_deadline env\<rparr> (pw_tenancy (fr_world fr)) callerCtx = Inr ctx
        \<and> eff_bind (run_program (callee_capabilities env action (bc_db (ctx_base ctx)) (call ctx))
                    (nx_handler action input ctx)) (\<lambda>raw.
                eff_bind (eff_of (typed (validateNestedOutput (pd_zod (ce_deps env))
                    (ac_output (nx_contract action)) raw))) (\<lambda>output'.
                eff_bind (settle ctx output') (\<lambda>_. eff_return output'))) (callee_frame fr) = (x, fr1))"
  using assms by (auto simp: run_callee_def split: sum.splits prod.splits)

context frame_order
begin

text \<open>A callee runs as its capabilities and its settlement allow.\<close>

lemma callee_keeps:
  assumes "run_callee env action db input callerCtx call settle fr = ((x, Some ctx), fr')"
    and writes: "\<And>fr w. bc_db (ctx_base ctx) = WritableTx \<Longrightarrow> R fr (fr\<lparr>fr_world := w\<rparr>)"
    and emits: "\<And>d a p. obeys R (frame_emit (ce_deps env) (nx_contract action) d a p)"
    and targets: "\<And>i. obeys R (frame_auditTarget i)" and calls: "\<And>k v. obeys R (call ctx k v)"
    and settles: "\<And>v. obeys R (settle ctx v)"
  shows "\<exists>fr1. R (callee_frame fr) fr1 \<and> fr' = back_to_caller fr fr1"
proof -
  have body: "obeys R (eff_bind (run_program (callee_capabilities env action (bc_db (ctx_base ctx)) (call ctx))
                    (nx_handler action input ctx)) (\<lambda>raw.
                eff_bind (eff_of (typed (validateNestedOutput (pd_zod (ce_deps env))
                    (ac_output (nx_contract action)) raw))) (\<lambda>output'.
                eff_bind (settle ctx output') (\<lambda>_. eff_return output'))))"
  proof (intro bind_keeps pure_keeps settles program_keeps)
    show "obeys R (cp_enqueue (callee_capabilities env action (bc_db (ctx_base ctx)) (call ctx)) j p)"
      "obeys R (cp_callAtomic (callee_capabilities env action (bc_db (ctx_base ctx)) (call ctx)) k v)" for j p k v
      by (simp_all add: callee_capabilities_def rejectNestedEnqueue_def rejectNestedCallAtomic_def pure_keeps)
  qed (simp_all add: callee_capabilities_def writes emits targets calls)
  then show ?thesis using run_callee_frame [OF assms(1)] obeysD [OF body] by blast
qed

end

section \<open>The trail of the calls\<close>

text \<open>
  A trail under a path: started and finished lines in pairs, what happens between them under the
  path extended by the callee. A read starts only within the limit and never an action that is
  already on the path; one atomic call may start at the root, if the flag allows it.
\<close>

inductive trail :: "bool \<Rightarrow> js_string list \<Rightarrow> call_line list \<Rightarrow> bool" where
  trail_end: "trail atomic path []"
| trail_read: "length path \<le> CALL_DEPTH_LIMIT \<Longrightarrow> callee \<notin> set path \<Longrightarrow>
    trail False (path @ [callee]) inner \<Longrightarrow> trail atomic path rest \<Longrightarrow>
    trail atomic path (CallStarted NestedCall callee (last path) # inner
      @ CallFinished NestedCall callee outcome who ms # rest)"
| trail_atomic: "callee \<noteq> name \<Longrightarrow> trail False [name, callee] inner \<Longrightarrow> trail False [name] rest \<Longrightarrow>
    trail True [name] (CallStarted AtomicKind callee name # inner
      @ CallFinished AtomicKind callee outcome who ms # rest)"

lemma trail_mono: "trail b path xs \<Longrightarrow> b \<longrightarrow> b' \<Longrightarrow> trail b' path xs"
proof (induction arbitrary: b' rule: trail.induct)
  case (trail_end b path)
  then show ?case by (simp add: trail.trail_end)
next
  case (trail_read path callee inner b rest outcome who ms)
  then show ?case by (intro trail.trail_read) simp_all
next
  case (trail_atomic callee name inner rest outcome who ms)
  then show ?case using trail.trail_atomic [OF trail_atomic.hyps(1-3)] by simp
qed

lemma trail_append: "trail b path xs \<Longrightarrow> trail b' path ys \<Longrightarrow> \<not> (b \<and> b') \<Longrightarrow> trail (b \<or> b') path (xs @ ys)"
proof (induction arbitrary: b' rule: trail.induct)
  case (trail_end b path)
  then show ?case by (auto intro: trail_mono)
next
  case (trail_read path callee inner b rest outcome who ms)
  then have "trail (b \<or> b') path (rest @ ys)" by simp
  then show ?case using trail.trail_read [OF trail_read.hyps(1-3), of "b \<or> b'" "rest @ ys" outcome who ms] by simp
next
  case (trail_atomic callee name inner rest outcome who ms)
  then have "trail False [name] (rest @ ys)" using trail_atomic.IH(2) [of False] by simp
  then show ?case using trail.trail_atomic [OF trail_atomic.hyps(1,2), of "rest @ ys" outcome who ms] by simp
qed

text \<open>What a step of a handler adds under its path, and what it adds when the latch stays as it is.\<close>

definition trail_step :: "js_string list \<Rightarrow> 'w frame \<Rightarrow> 'w frame \<Rightarrow> bool" where
  "trail_step path fr fr' \<longleftrightarrow> (fr_used fr \<longrightarrow> fr_used fr')
     \<and> (\<exists>new. fr_lines fr' = fr_lines fr @ new \<and> trail (\<not> fr_used fr \<and> fr_used fr') path new)"

definition read_step :: "js_string list \<Rightarrow> 'w frame \<Rightarrow> 'w frame \<Rightarrow> bool" where
  "read_step path fr fr' \<longleftrightarrow> fr_used fr' = fr_used fr
     \<and> (\<exists>new. fr_lines fr' = fr_lines fr @ new \<and> trail False path new)"

lemma read_step_same: "fr_lines fr' = fr_lines fr \<Longrightarrow> fr_used fr' = fr_used fr \<Longrightarrow> read_step path fr fr'"
  by (auto simp: read_step_def intro: trail_end)

lemma read_step_trail: "read_step path fr fr' \<Longrightarrow> trail_step path fr fr'"
  by (auto simp: read_step_def trail_step_def)

lemma read_step_trans: "read_step path fr fr1 \<Longrightarrow> read_step path fr1 fr2 \<Longrightarrow> read_step path fr fr2"
  by (auto simp: read_step_def dest: trail_append)

lemma trail_step_trans:
  assumes "trail_step path fr fr1" and "trail_step path fr1 fr2"
  shows "trail_step path fr fr2"
proof -
  obtain xs where xs: "fr_lines fr1 = fr_lines fr @ xs" "trail (\<not> fr_used fr \<and> fr_used fr1) path xs"
    using assms(1) by (auto simp: trail_step_def)
  obtain ys where ys: "fr_lines fr2 = fr_lines fr1 @ ys" "trail (\<not> fr_used fr1 \<and> fr_used fr2) path ys"
    using assms(2) by (auto simp: trail_step_def)
  have used: "fr_used fr \<longrightarrow> fr_used fr1" "fr_used fr1 \<longrightarrow> fr_used fr2" using assms by (auto simp: trail_step_def)
  have "trail ((\<not> fr_used fr \<and> fr_used fr1) \<or> (\<not> fr_used fr1 \<and> fr_used fr2)) path (xs @ ys)"
    by (rule trail_append [OF xs(2) ys(2)]) blast
  then have "trail (\<not> fr_used fr \<and> fr_used fr2) path (xs @ ys)" by (rule trail_mono) (use used in blast)
  then show ?thesis using xs(1) ys(1) used by (auto simp: trail_step_def)
qed

interpretation trails: frame_order "trail_step path" for path
  by unfold_locales (auto simp: read_step_same read_step_trail wait_def intro: trail_step_trans)

interpretation reads: frame_order "read_step path" for path
  by unfold_locales (auto simp: read_step_same wait_def intro: read_step_trans)

lemma keeps_lines:
  "obeys (read_step path) (frame_emit deps c d a p)" "obeys (read_step path) (frame_enqueue deps z c j v)"
  "obeys (read_step path) (frame_auditTarget i)" "obeys (read_step path) (audit_nested_read env action input t ctx v')"
  "obeys (read_step path) (settle_atomic env action input t ctx v')"
  by (auto intro!: obeysI read_step_same simp: frame_emit_def frame_enqueue_def frame_auditTarget_def
      audit_nested_read_def settle_atomic_def split: prod.splits sum.splits option.splits if_splits)

text \<open>Calls of an environment whose path ends in the caller leave a trail under that path.\<close>

lemma invocation_trail:
  assumes "nested_invocation kind env action (\<lambda>t. run_callee env action db input callerCtx call (settle t)) fr = (r, fr')"
    and "\<And>ctx k v. obeys (read_step (path @ [ac_name (nx_contract action)])) (call ctx k v)"
    and "\<And>t ctx v. obeys (read_step (path @ [ac_name (nx_contract action)])) (settle t ctx v)"
  shows "\<exists>inner outcome who ms. trail False (path @ [ac_name (nx_contract action)]) inner
    \<and> fr_used fr' = fr_used fr \<and> fr_lines fr' = fr_lines fr @ CallStarted kind (ac_name (nx_contract action)) (ac_name (ce_caller env))
        # inner @ [CallFinished kind (ac_name (nx_contract action)) outcome who ms]"
proof -
  let ?name = "ac_name (nx_contract action)"
  let ?fr0 = "add_line (CallStarted kind ?name (ac_name (ce_caller env))) fr"
  obtain x c fr1 outcome where run: "run_callee env action db input callerCtx call (settle (pr_now (fr_world fr))) ?fr0 = ((x, c), fr1)"
    "fr' = add_line (CallFinished kind ?name outcome (nested_identity c)
         (pr_now (fr_world fr1) - pr_now (fr_world fr))) fr1"
    using nested_invocation_frame [OF assms(1)] by blast
  have "\<exists>inner. trail False (path @ [?name]) inner \<and> fr_lines fr1 = fr_lines ?fr0 @ inner \<and> fr_used fr1 = fr_used fr"
  proof (cases c)
    case None
    then have "fr1 = ?fr0" using run_callee_frame [OF run(1)] by auto
    then show ?thesis by (intro exI [of _ "[]"]) (simp add: trail_end add_line_def)
  next
    case (Some ctx)
    obtain fr2 where "read_step (path @ [?name]) (callee_frame ?fr0) fr2" "fr1 = back_to_caller ?fr0 fr2"
      using reads.callee_keeps [OF run(1) [unfolded Some], of "path @ [?name]"] assms(2,3)
      by (auto simp: keeps_lines read_step_same)
    then show ?thesis by (auto simp: read_step_def back_to_caller_def callee_frame_def add_line_def)
  qed
  then show ?thesis using run(2) by (auto simp: add_line_def)
qed

lemma call_trail:
  assumes "last (ce_path env) = ac_name (ce_caller env)"
  shows "read_step (ce_path env) fr (snd (createCtxCall env callee input fr))"
  using assms
proof (induction env callee input fr rule: createCtxCall.induct)
  case (1 env callee input fr)
  let ?action = "ce_actions env callee"
  let ?c = "nx_contract ?action"
  show ?case
  proof (cases "call_guard env ?c (pr_now (fr_world fr))")
    case (Inl e)
    then show ?thesis by (simp add: createCtxCall.simps [of env] reads.stays)
  next
    case guard: (Inr callerCtx)
    show ?thesis
    proof (cases "validateNestedInput (pd_zod (ce_deps env)) (ac_input ?c) input")
      case (Inl e)
      then show ?thesis using guard by (simp add: createCtxCall.simps [of env] reads.stays)
    next
      case parsed: (Inr parsed)
      have path: "length (ce_path env) \<le> CALL_DEPTH_LIMIT" "ac_name ?c \<notin> set (ce_path env)"
        using guard by (auto simp: call_guard_def split: option.splits if_splits)
      have calls: "obeys (read_step (ce_path env @ [ac_name ?c])) (createCtxCall (callee_env env ?action ctx) k v)" for ctx k v
      proof (rule obeysI)
        fix fr1 r fr2 assume run: "createCtxCall (callee_env env ?action ctx) k v fr1 = (r, fr2)"
        have "read_step (ce_path (callee_env env ?action ctx)) fr1 (snd (createCtxCall (callee_env env ?action ctx) k v fr1))"
          by (rule "1.IH" [OF refl guard parsed]) (simp add: callee_env_def)
        then show "read_step (ce_path env @ [ac_name ?c]) fr1 fr2" using run by (simp add: callee_env_def)
      qed
      obtain r fr' where run: "createCtxCall env callee input fr = (r, fr')" by fastforce
      then have "nested_invocation NestedCall env ?action (\<lambda>t. run_callee env ?action (createReadTx WritableTx) parsed callerCtx
          (\<lambda>ctx. createCtxCall (callee_env env ?action ctx)) (audit_nested_read env ?action parsed t)) fr = (r, fr')"
        using guard parsed by (simp add: createCtxCall.simps [of env] Let_def)
      from invocation_trail [OF this calls keeps_lines(4)] obtain inner outcome who ms where
        "trail False (ce_path env @ [ac_name ?c]) inner"
        "fr_used fr' = fr_used fr" "fr_lines fr' = fr_lines fr @ CallStarted NestedCall (ac_name ?c) (ac_name (ce_caller env))
          # inner @ [CallFinished NestedCall (ac_name ?c) outcome who ms]" by blast
      then show ?thesis
        using trail_read [OF path _ trail_end, of inner False outcome who ms] run "1.prems"
        by (auto simp: read_step_def)
    qed
  qed
qed

lemma atomic_trail:
  assumes "ce_path env = [ac_name (ce_caller env)]"
  shows "trail_step (ce_path env) fr (snd (createCtxCallAtomic env callee input fr))"
proof -
  let ?action = "ce_actions env callee"
  let ?c = "nx_contract ?action"
  show ?thesis
  proof (cases "atomic_guard env ?c (fr_used fr)")
    case (Inl e)
    then show ?thesis by (simp add: createCtxCallAtomic_def trails.stays)
  next
    case guard: (Inr callerCtx)
    have edge: "ac_name ?c \<noteq> ac_name (ce_caller env)" and unused: "\<not> fr_used fr"
      using guard by (auto simp: atomic_guard_def atomicCallTarget_ok split: option.splits if_splits)
    let ?fr1 = "fr\<lparr>fr_used := True\<rparr>"
    show ?thesis
    proof (cases "res_bind (assertNestedDeadline (ce_deadline env) (pr_now (fr_world ?fr1))) (\<lambda>_.
             validateNestedInput (pd_zod (ce_deps env)) (ac_input ?c) input)")
      case (Inl e)
      then have "createCtxCallAtomic env callee input fr = (Inl e, ?fr1)"
        using guard by (simp add: createCtxCallAtomic_def Let_def)
      then show ?thesis using unused by (auto simp: trail_step_def intro: trail_end)
    next
      case parsed: (Inr parsed)
      obtain r fr' where run: "createCtxCallAtomic env callee input fr = (r, fr')" by fastforce
      have calls: "obeys (read_step (ce_path env @ [ac_name ?c])) (createCtxCall (callee_env env ?action ctx) k v)" for ctx k v
        using call_trail [of "callee_env env ?action ctx"] by (intro obeys_snd) (simp add: callee_env_def)
      from run have "nested_invocation AtomicKind env ?action (\<lambda>t. run_callee env ?action WritableTx parsed callerCtx
          (\<lambda>ctx. createCtxCall (callee_env env ?action ctx)) (settle_atomic env ?action parsed t)) ?fr1 = (r, fr')"
        using guard parsed by (simp add: createCtxCallAtomic_def Let_def)
      from invocation_trail [OF this calls keeps_lines(5)] obtain inner outcome who ms where
        "trail False (ce_path env @ [ac_name ?c]) inner"
        "fr_used fr' = fr_used ?fr1" "fr_lines fr' = fr_lines ?fr1 @ CallStarted AtomicKind (ac_name ?c) (ac_name (ce_caller env))
          # inner @ [CallFinished AtomicKind (ac_name ?c) outcome who ms]" by blast
      then show ?thesis
        using trail_atomic [OF edge _ trail_end, of inner outcome who ms] run unused assms
        by (auto simp: trail_step_def)
    qed
  qed
qed

lemma keeps_trail:
  "obeys (trail_step path) (frame_emit deps c d a p)" "obeys (trail_step path) (frame_enqueue deps z c j v)"
  "obeys (trail_step path) (frame_auditTarget i)"
  subgoal by (rule obeys_mono [OF keeps_lines(1) read_step_trail])
  subgoal by (rule obeys_mono [OF keeps_lines(2) read_step_trail])
  subgoal by (rule obeys_mono [OF keeps_lines(3) read_step_trail])
  done

lemma root_trail:
  "trail_step [ac_name (nx_contract (actions rootAction))] fr
     (snd (run_root deps jobZod actions rootAction request input ctx fr))"
proof -
  let ?env = "root_env deps jobZod actions (nx_contract (actions rootAction)) request ctx"
  have path: "ce_path ?env = [ac_name (ce_caller ?env)]" "last (ce_path ?env) = ac_name (ce_caller ?env)"
    "ce_path ?env = [ac_name (nx_contract (actions rootAction))]" by (simp_all add: root_env_def)
  have "obeys (trail_step (ce_path ?env)) (run_program (root_capabilities ?env ctx) (nx_handler (actions rootAction) input ctx))"
  proof (rule trails.program_keeps)
    show "obeys (trail_step (ce_path ?env)) (cp_call (root_capabilities ?env ctx) k v)" for k v
      unfolding root_capabilities_def capabilities.simps
      by (rule obeys_snd) (rule read_step_trail [OF call_trail [OF path(2)]])
    show "obeys (trail_step (ce_path ?env)) (cp_callAtomic (root_capabilities ?env ctx) k v)" for k v
      unfolding root_capabilities_def capabilities.simps by (rule obeys_snd) (rule atomic_trail [OF path(1)])
  qed (simp_all add: root_capabilities_def keeps_trail read_step_same read_step_trail)
  then show ?thesis unfolding run_root_def path(3) by (rule obeysD) (rule surjective_pairing)
qed

text \<open>How many calls are open after some of the lines.\<close>

fun open_calls :: "call_line list \<Rightarrow> int" where
  "open_calls [] = 0"
| "open_calls (CallStarted _ _ _ # lines) = 1 + open_calls lines"
| "open_calls (CallFinished _ _ _ _ _ # lines) = open_calls lines - 1"

lemma open_calls_append [simp]: "open_calls (xs @ ys) = open_calls xs + open_calls ys"
  by (induction xs rule: open_calls.induct) simp_all

definition nested_within :: "nat \<Rightarrow> call_line list \<Rightarrow> bool" where
  "nested_within d lines \<longleftrightarrow> open_calls lines = 0 \<and> (\<forall>n. open_calls (take n lines) \<in> {0 .. int d})"

lemma nested_within_call:
  assumes "nested_within d inner" and "nested_within (Suc d) rest"
  shows "nested_within (Suc d) (CallStarted k c r # inner @ CallFinished k c o' w m # rest)"
proof -
  have "open_calls (take n (CallStarted k c r # inner @ CallFinished k c o' w m # rest)) \<in> {0 .. int (Suc d)}" for n
  proof -
    consider "n = 0" | j where "n = Suc j" "j \<le> length inner" | j where "n = Suc (length inner + Suc j)"
      by (metis add_Suc_right less_iff_Suc_add not_le_imp_less old.nat.exhaust)
    then show ?thesis
    proof cases
      case 2
      then show ?thesis using assms(1) by (auto simp: nested_within_def)
    next
      case 3
      then show ?thesis using assms by (auto simp: nested_within_def)
    qed simp
  qed
  then show ?thesis using assms by (simp add: nested_within_def)
qed

lemma trail_nested:
  assumes "trail b path xs" and "1 \<le> length path"
  shows "nested_within (CALL_DEPTH_LIMIT + 1 - length path) xs"
  using assms
proof (induction rule: trail.induct)
  case (trail_end b path)
  then show ?case by (simp add: nested_within_def)
next
  case (trail_read path callee inner b rest outcome who ms)
  have "CALL_DEPTH_LIMIT + 1 - length path = Suc (CALL_DEPTH_LIMIT + 1 - length (path @ [callee]))"
    using trail_read.hyps(1) by simp
  then show ?case using trail_read.IH trail_read.prems by (simp only:) (rule nested_within_call, simp_all)
next
  case (trail_atomic callee name inner rest outcome who ms)
  have "CALL_DEPTH_LIMIT + 1 - length [name] = Suc (CALL_DEPTH_LIMIT + 1 - length [name, callee])"
    by (simp add: CALL_DEPTH_LIMIT_def)
  then show ?case using trail_atomic.IH by (simp only:) (rule nested_within_call, simp_all)
qed

text \<open>
  C7: nested calls end and stay nested. Whatever the programs are, and however their actions refer to
  each other, the run of a root handler returns, and the lines it wrote are well bracketed: every
  call that started has finished, at most three are open at a time, no read enters an action that is
  already on its path, and at most one atomic call ran, directly under the root.
\<close>

theorem nested_calls_stay_bounded:
  "\<exists>lines. fr_lines (snd (run_root deps jobZod actions rootAction request input ctx (root_frame hs))) = lines
     \<and> trail True [ac_name (nx_contract (actions rootAction))] lines
     \<and> open_calls lines = 0 \<and> (\<forall>n. open_calls (take n lines) \<in> {0 .. 3})"
proof -
  let ?fr = "snd (run_root deps jobZod actions rootAction request input ctx (root_frame hs))"
  have "trail (\<not> fr_used (root_frame hs) \<and> fr_used ?fr) [ac_name (nx_contract (actions rootAction))] (fr_lines ?fr)"
    using root_trail [of actions rootAction "root_frame hs" deps jobZod request input ctx]
    by (auto simp: trail_step_def root_frame_def)
  then have "trail True [ac_name (nx_contract (actions rootAction))] (fr_lines ?fr)" by (rule trail_mono) simp
  with trail_nested [OF this] show ?thesis by (simp add: nested_within_def CALL_DEPTH_LIMIT_def)
qed

section \<open>The context of a callee\<close>

definition callee_ctx_ok :: "action_contract \<Rightarrow> hook_request_meta \<Rightarrow> context_runtime \<Rightarrow> action_ctx \<Rightarrow> action_ctx \<Rightarrow> bool" where
  "callee_ctx_ok callee request rt caller ctx \<longleftrightarrow>
     ctx_inv ctx \<and> bc_actor (ctx_base ctx) = bc_actor (ctx_base caller)
     \<and> effectiveCompanyId ctx = (if ac_systemScope callee = Some GlobalScope \<and> ctx_principal caller = System
         then None else effectiveCompanyId caller)
     \<and> ctx_principal ctx = (if ctx_principal caller = Account \<and> ac_principal callee = Consumer
         then Consumer else ctx_principal caller)
     \<and> bc_db (ctx_base ctx) \<in> {rt_db rt, createReadTx (rt_db rt)}
     \<and> bc_deadline (ctx_base ctx) = rt_deadline rt
     \<and> bc_correlationId (ctx_base ctx) = rq_correlationId request
     \<and> (\<forall>m. ctx_membership ctx = Some m \<longrightarrow> assertDeclaredPermissions m (ac_permissions callee) = Inr ())"

lemma public_target_shape:
  assumes "createPublicContext rq rt (PublicTargetInput resolve inherited) = Inr ctx"
  shows "\<exists>ip t. ctx = PublicTargetCtx (buildBase rq rt (createReadTx (rt_db rt)) AnonymousActor
      (Some (tg_companyId t))) ip t \<and> (inherited = None \<or> inherited = Some (tg_companyId t))"
proof -
  obtain ip where "requireClientIp rq = Inr ip"
    using assms by (cases "requireClientIp rq") (auto simp: createPublicContext_def)
  then show ?thesis using assms
    by (auto simp: createPublicContext_def assertInheritedCompany_Inr split: sum.splits)
qed

lemma callee_ctx:
  assumes "constructCalleeContext action input request rt tn caller = Inr ctx" and "ctx_inv caller"
  shows "callee_ctx_ok (nx_contract action) request rt caller ctx"
proof (cases caller)
  case (StaffCtx b u c m)
  then show ?thesis using assms
    by (auto simp: res_bind_Inr_iff checkPermissions_Inr callee_ctx_ok_def ctx_inv_def ctx_actor_ok_def
        assertDeclaredPermissions_ok_iff dest!: staff_ctx_shape)
next
  case (CustomerCtx b u t)
  then show ?thesis using assms
    by (auto simp: res_bind_Inr_iff callee_ctx_ok_def ctx_inv_def ctx_actor_ok_def dest!: customer_ctx_shape)
next
  case (PublicTargetCtx b ip t)
  then show ?thesis using assms
    by (auto simp: res_bind_Inr_iff callee_ctx_ok_def ctx_inv_def ctx_actor_ok_def dest!: public_target_shape)
next
  case (SystemTenantCtx b n c)
  then show ?thesis using assms
    by (auto simp: callee_ctx_ok_def ctx_inv_def ctx_actor_ok_def createSystemContext_def split: if_splits)
next
  case (SystemGlobalCtx b n)
  then show ?thesis using assms
    by (auto simp: callee_ctx_ok_def ctx_inv_def ctx_actor_ok_def createSystemContext_def split: if_splits)
next
  case (ConsumerCtx b u ip)
  then show ?thesis using assms
    by (auto simp: callee_ctx_ok_def ctx_inv_def ctx_actor_ok_def dest!: consumer_ctx_shape)
next
  case (AccountCtx b u ip)
  then show ?thesis using assms
    by (auto simp: callee_ctx_ok_def ctx_inv_def ctx_actor_ok_def dest!: consumer_ctx_shape account_ctx_shape split: if_splits)
next
  case (ShareCtx b ip t h)
  then show ?thesis using assms
    by (auto simp: res_bind_Inr_iff callee_ctx_ok_def ctx_inv_def ctx_actor_ok_def dest!: share_ctx_shape)
qed (use assms in simp)

section \<open>Reads write nothing\<close>

lemma callee_read_only:
  assumes "constructCalleeContext action input request rt tn caller = Inr ctx" and "rt_db rt \<noteq> WritableTx"
  shows "bc_db (ctx_base ctx) \<noteq> WritableTx"
  using assms by (cases caller) (auto simp: res_bind_Inr_iff checkPermissions_Inr createSystemContext_def
      dest!: staff_ctx_shape customer_ctx_shape public_ctx_shape consumer_ctx_shape account_ctx_shape
      share_ctx_shape split: if_splits)

definition audited :: "('m, 'a) app_world_scheme \<Rightarrow> ('m, 'a) app_world_scheme \<Rightarrow> bool" where
  "audited w w' \<longleftrightarrow> (\<exists>rows t. w' = w\<lparr>pw_audit := pw_audit w @ rows, pr_now := t\<rparr>
     \<and> list_all (\<lambda>row. accountable_row row \<and> al_outcome row = ''ok'') rows)"

lemma auditedI:
  "list_all (\<lambda>row. accountable_row row \<and> al_outcome row = ''ok'') rows \<Longrightarrow>
     audited w (w\<lparr>pw_audit := pw_audit w @ rows, pr_now := t\<rparr>)"
  unfolding audited_def by blast

lemma audited_same: "audited w (w\<lparr>pr_now := t\<rparr>)" "audited w w"
  using auditedI [of "[]" w t] auditedI [of "[]" w "pr_now w"] by simp_all

lemma audited_trans:
  assumes "audited w w1" and "audited w1 w2"
  shows "audited w w2"
proof -
  obtain rows t rows' t' where "w1 = w\<lparr>pw_audit := pw_audit w @ rows, pr_now := t\<rparr>"
    "w2 = w1\<lparr>pw_audit := pw_audit w1 @ rows', pr_now := t'\<rparr>"
    "list_all (\<lambda>row. accountable_row row \<and> al_outcome row = ''ok'') (rows @ rows')"
    using assms by (auto simp: audited_def)
  then show ?thesis using auditedI [of "rows @ rows'" w t'] by simp
qed

definition only_read :: "('m, 'a) app_world_scheme frame \<Rightarrow> ('m, 'a) app_world_scheme frame \<Rightarrow> bool" where
  "only_read fr fr' \<longleftrightarrow> audited (fr_world fr) (fr_world fr') \<and> fr_emits fr' = fr_emits fr
     \<and> fr_jobs fr' = fr_jobs fr \<and> fr_used fr' = fr_used fr"

interpretation only_reads: frame_order only_read
  by unfold_locales (auto simp: only_read_def wait_def audited_same intro: audited_trans)

definition audit_hook_ok :: "(('m, 'a) app_world_scheme, 'v) pipeline_deps \<Rightarrow> bool" where
  "audit_hook_ok deps \<longleftrightarrow> (\<forall>hook. ph_audit (pd_hooks deps) = Some hook \<longrightarrow> (\<exists>sha256. hook = createAuditHook sha256))"

lemma keeps_reading:
  "ac_risk c = RiskRead \<Longrightarrow> obeys only_read (frame_emit deps c d a p)"
  "obeys only_read (frame_auditTarget i)"
  by (auto intro!: obeysI simp: frame_emit_def emit_def frame_auditTarget_def only_read_def audited_same
      split: sum.splits prod.splits if_splits)

lemma recordSuccess_audited:
  "audited w (snd (in_transaction (recordSuccess sha256 senv) w))"
proof (cases "success_row sha256 senv")
  case (Inl e)
  then show ?thesis by (simp add: in_transaction_def recordSuccess_def rollback_to_def audited_same)
next
  case (Inr row)
  then show ?thesis using auditedI [of "[row]" w "pr_now w"] success_row_accountable [OF Inr]
    by (simp add: in_transaction_def recordSuccess_def insertAuditRow_def)
qed

lemma audit_nested_reading:
  "audit_hook_ok (ce_deps env) \<Longrightarrow> obeys only_read (audit_nested_read env action input t ctx output')"
  by (rule obeys_snd) (auto simp: audit_nested_read_def only_read_def audit_hook_ok_def createAuditHook_def audited_same
      recordSuccess_audited split: option.splits sum.splits)

lemma call_reads:
  assumes "audit_hook_ok (ce_deps env)"
  shows "\<exists>w lines. snd (createCtxCall env callee input fr) = fr\<lparr>fr_world := w, fr_lines := lines\<rparr>
    \<and> audited (fr_world fr) w"
  using assms
proof (induction env callee input fr rule: createCtxCall.induct)
  case (1 env callee input fr)
  let ?action = "ce_actions env callee"
  let ?c = "nx_contract ?action"
  have stop: "\<exists>w lines. fr = fr\<lparr>fr_world := w, fr_lines := lines\<rparr> \<and> audited (fr_world fr) w"
    by (intro exI [of _ "fr_world fr"] exI [of _ "fr_lines fr"]) (simp add: audited_same)
  show ?case
  proof (cases "call_guard env ?c (pr_now (fr_world fr))")
    case (Inl e)
    then show ?thesis using stop by (simp add: createCtxCall.simps [of env])
  next
    case guard: (Inr callerCtx)
    show ?thesis
    proof (cases "validateNestedInput (pd_zod (ce_deps env)) (ac_input ?c) input")
      case (Inl e)
      then show ?thesis using guard stop by (simp add: createCtxCall.simps [of env])
    next
      case parsed: (Inr parsed)
      have read: "ac_risk ?c = RiskRead"
        using guard by (auto simp: call_guard_def callTarget_ok split: option.splits if_splits)
      have calls: "obeys only_read (createCtxCall (callee_env env ?action ctx) k v)" for ctx k v
      proof (rule obeys_snd)
        fix fr1
        have "audit_hook_ok (ce_deps (callee_env env ?action ctx))" using "1.prems" by (simp add: callee_env_def)
        from "1.IH" [OF refl guard parsed this] obtain w lines where
          "snd (createCtxCall (callee_env env ?action ctx) k v fr1) = fr1\<lparr>fr_world := w, fr_lines := lines\<rparr>"
          "audited (fr_world fr1) w" by blast
        then show "only_read fr1 (snd (createCtxCall (callee_env env ?action ctx) k v fr1))" by (simp add: only_read_def)
      qed
      obtain r fr' where run: "createCtxCall env callee input fr = (r, fr')" by fastforce
      then have "nested_invocation NestedCall env ?action (\<lambda>t. run_callee env ?action (createReadTx WritableTx) parsed callerCtx
          (\<lambda>ctx. createCtxCall (callee_env env ?action ctx)) (audit_nested_read env ?action parsed t)) fr = (r, fr')"
        using guard parsed by (simp add: createCtxCall.simps [of env] Let_def)
      from nested_invocation_frame [OF this] obtain x c fr1 line line' t where body:
        "run_callee env ?action (createReadTx WritableTx) parsed callerCtx
          (\<lambda>ctx. createCtxCall (callee_env env ?action ctx)) (audit_nested_read env ?action parsed t) (add_line line fr) = ((x, c), fr1)"
        "fr' = add_line line' fr1" by blast
      have "\<exists>w lines. fr1 = fr\<lparr>fr_world := w, fr_lines := lines\<rparr> \<and> audited (fr_world fr) w"
      proof (cases c)
        case None
        then have "fr1 = add_line line fr" using run_callee_frame [OF body(1)] by auto
        then show ?thesis using stop by (intro exI [of _ "fr_world fr"]) (auto simp: add_line_def audited_same)
      next
        case (Some ctx)
        have "bc_db (ctx_base ctx) \<noteq> WritableTx"
          using run_callee_frame [OF body(1)] Some callee_read_only by fastforce
        then obtain fr2 where "only_read (callee_frame (add_line line fr)) fr2" "fr1 = back_to_caller (add_line line fr) fr2"
          using only_reads.callee_keeps [OF body(1) [unfolded Some]] keeps_reading(1) [OF read] keeps_reading(2) calls
            audit_nested_reading [OF "1.prems"] by blast
        then show ?thesis
          by (intro exI [of _ "fr_world fr2"] exI [of _ "fr_lines fr2"])
            (simp add: only_read_def back_to_caller_def callee_frame_def add_line_def)
      qed
      then obtain w lines where "fr1 = fr\<lparr>fr_world := w, fr_lines := lines\<rparr>" "audited (fr_world fr) w" by blast
      then show ?thesis using run body(2)
        by (intro exI [of _ w] exI [of _ "lines @ [line']"]) (simp add: add_line_def)
    qed
  qed
qed

end
