(* ===== verification/Nested_Promises.thy ===== *)
theory Nested_Promises
  imports Nested_Proofs
begin

text \<open>
  What an atomic call commits, the cost of a caught failure, and the nested calls of a sample
  family of actions on which the promises are applied.
\<close>

section \<open>What the context and the reads of a callee can do\<close>

text \<open>
  C9: a nested call widens no authority. The callee runs as the caller's actor, in the caller's
  company (or, for a global system action, in none), in the mode of its own contract and within the
  caller's deadline; a staff member still has to hold every permission of the callee, and a callee
  that got the read facade has no context that writes.
\<close>

theorem nested_context_widens_nothing:
  assumes "constructCalleeContext action input request rt tn caller = Inr ctx"
    and "ctx_inv caller" and "ctx_principal caller = ac_principal contract"
    and "callTargetProblems contract (nx_contract action) = []
      \<or> atomicCallTargetProblems contract (nx_contract action) = []"
  shows "bc_actor (ctx_base ctx) = bc_actor (ctx_base caller)
    \<and> (effectiveCompanyId ctx = effectiveCompanyId caller
       \<or> effectiveCompanyId ctx = None \<and> ac_systemScope (nx_contract action) = Some GlobalScope)
    \<and> ctx_principal ctx = ac_principal (nx_contract action)
    \<and> bc_deadline (ctx_base ctx) = rt_deadline rt
    \<and> (rt_db rt \<noteq> WritableTx \<longrightarrow> bc_db (ctx_base ctx) \<noteq> WritableTx)
    \<and> (\<forall>m. ctx_membership ctx = Some m \<longrightarrow>
         assertDeclaredPermissions m (ac_permissions (nx_contract action)) = Inr ())"
proof -
  have mode: "ac_principal (nx_contract action) = ac_principal contract
      \<or> (ac_principal contract = Account \<and> ac_principal (nx_contract action) = Consumer)"
    using assms(4) callPrincipalCompatible_cases [of contract "nx_contract action"]
    by (auto simp: callTarget_ok atomicCallTarget_ok atomicPrincipalCompatible_def split: if_splits)
  show ?thesis
    using callee_ctx [OF assms(1,2)] mode assms(3)
    by (auto simp: callee_ctx_ok_def createReadTx_not_writable [symmetric])
qed

text \<open>
  C8: \<open>ctx.call\<close> is read-only. Whatever the handlers of the callees do, and at whatever depth, a
  nested read leaves the caller's world as it was except for the clock and for appended \<open>ok\<close> audit
  rows of accountable actors, and it touches neither the caller's buffers nor its audit target nor
  its atomic latch.
\<close>

theorem nested_reads_write_nothing:
  assumes "audit_hook_ok (ce_deps env)"
  shows "\<exists>rows t lines. snd (createCtxCall env callee input fr)
      = fr\<lparr>fr_world := (fr_world fr)\<lparr>pw_audit := pw_audit (fr_world fr) @ rows, pr_now := t\<rparr>, fr_lines := lines\<rparr>
    \<and> list_all (\<lambda>row. accountable_row row \<and> al_outcome row = ''ok'') rows"
  using call_reads [OF assms, of callee input fr] by (fastforce simp: audited_def)

section \<open>What an atomic call leaves in the root transaction\<close>

lemma validateNestedOutput_Inr: "validateNestedOutput zod schema raw = Inr output' \<longleftrightarrow> zod schema raw = Inr output'"
  by (auto simp: validateNestedOutput_def split: sum.splits)

lemma settled:
  assumes "settle_atomic env action input t ctx output' fr = (Inr (), fr')"
    and "ph_audit (pd_hooks (ce_deps env)) = Some (createAuditHook sha256)" and "ac_audit (nx_contract action)"
  shows "\<exists>buffer w row. flush ctx (case rq_causationId (ce_request env) of
        Some i \<Rightarrow> i | None \<Rightarrow> rq_requestId (ce_request env)) (fr_emits fr) (fr_world fr) = (Inr buffer, w)
    \<and> fr_world fr' = insertAuditRow row w \<and> fr_lines fr' = fr_lines fr
    \<and> accountable_row row \<and> al_outcome row = ''ok'' \<and> al_action row = ac_name (nx_contract action)
    \<and> al_companyId row = effectiveCompanyId ctx
    \<and> canonicalJsonSha256OfUnknown sha256 input = Inr (al_inputHash row)"
  using assms by (auto simp: settle_atomic_def createAuditHook_def recordSuccess_def nested_success_env_def
      dest!: success_row_fields split: prod.splits sum.splits)

definition atomic_settled ::
  "(js_string \<Rightarrow> js_string) \<Rightarrow> ('m, 'k, ('m, 'a) app_world_scheme, 'v) call_env \<Rightarrow> 'k \<Rightarrow> json \<Rightarrow>
     ('m, 'a) app_world_scheme frame \<Rightarrow> json \<Rightarrow> ('m, 'a) app_world_scheme frame \<Rightarrow> bool" where
  "atomic_settled sha256 env callee input fr output' fr' \<longleftrightarrow>
     (let action = ce_actions env callee; c = nx_contract action in
      \<exists>callerCtx ctx parsed raw fr1 buffer w row lines.
        ce_execution env = Some callerCtx \<and> pd_zod (ce_deps env) (ac_input c) input = Inr parsed
        \<and> constructCalleeContext action parsed (nested_request env action)
            \<lparr>rt_db = WritableTx, rt_deadline = ce_deadline env\<rparr> (pw_tenancy (fr_world fr)) callerCtx = Inr ctx
        \<and> run_program (callee_capabilities env action (bc_db (ctx_base ctx)) (createCtxCall (callee_env env action ctx)))
            (nx_handler action parsed ctx) (callee_frame (add_line (CallStarted AtomicKind (ac_name c)
              (ac_name (ce_caller env))) (fr\<lparr>fr_used := True\<rparr>))) = (Inr raw, fr1)
        \<and> pd_zod (ce_deps env) (ac_output c) raw = Inr output'
        \<and> flush ctx (case rq_causationId (ce_request env) of
            Some i \<Rightarrow> i | None \<Rightarrow> rq_requestId (ce_request env)) (fr_emits fr1) (fr_world fr1) = (Inr buffer, w)
        \<and> fr' = fr\<lparr>fr_world := insertAuditRow row w, fr_used := True, fr_lines := lines\<rparr>
        \<and> accountable_row row \<and> al_outcome row = ''ok'' \<and> al_action row = ac_name c
        \<and> al_companyId row = effectiveCompanyId ctx
        \<and> canonicalJsonSha256OfUnknown sha256 parsed = Inr (al_inputHash row))"

text \<open>
  C10: an atomic call settles in the root transaction. A \<open>ctx.callAtomic\<close> that returns has the edge
  declared on both sides and was the first of its root; its callee's handler ran with the root's
  transaction in a context of its own, and what that left, then the events the callee emitted, then
  exactly one \<open>ok\<close> audit row of the callee is what the root's world now holds. The caller's own
  buffers and audit target are as before, and its latch is used up.
\<close>

theorem atomic_call_settles_in_root:
  assumes "createCtxCallAtomic env callee input fr = (Inr output', fr')"
    and "ph_audit (pd_hooks (ce_deps env)) = Some (createAuditHook sha256)"
    and "ac_audit (nx_contract (ce_actions env callee))"
  shows "atomicCallTargetProblems (ce_caller env) (nx_contract (ce_actions env callee)) = [] \<and> \<not> fr_used fr
    \<and> pr_now (fr_world fr) < ce_deadline env \<and> atomic_settled sha256 env callee input fr output' fr'"
proof -
  let ?action = "ce_actions env callee"
  let ?c = "nx_contract ?action"
  let ?fr1 = "fr\<lparr>fr_used := True\<rparr>"
  obtain callerCtx where guard: "atomic_guard env ?c (fr_used fr) = Inr callerCtx"
    using assms(1) by (auto simp: createCtxCallAtomic_def Let_def split: sum.splits)
  obtain parsed where parsed: "res_bind (assertNestedDeadline (ce_deadline env) (pr_now (fr_world ?fr1))) (\<lambda>_.
             validateNestedInput (pd_zod (ce_deps env)) (ac_input ?c) input) = Inr parsed"
    using assms(1) guard by (auto simp: createCtxCallAtomic_def Let_def split: sum.splits)
  have open': "ce_execution env = Some callerCtx" "atomicCallTargetProblems (ce_caller env) ?c = []" "\<not> fr_used fr"
    using guard by (auto simp: atomic_guard_def split: option.splits if_splits)
  have time: "pr_now (fr_world fr) < ce_deadline env" "pd_zod (ce_deps env) (ac_input ?c) input = Inr parsed"
    using parsed by (auto simp: res_bind_Inr_iff assertNestedDeadline_def validateNestedInput_def
        split: if_splits sum.splits)
  let ?call = "\<lambda>ctx. createCtxCall (callee_env env ?action ctx)"
  have "nested_invocation AtomicKind env ?action (\<lambda>t. run_callee env ?action WritableTx parsed callerCtx
          ?call (settle_atomic env ?action parsed t)) ?fr1 = (Inr output', fr')"
    using assms(1) guard parsed by (simp add: createCtxCallAtomic_def Let_def)
  from nested_invocation_ok [OF this] obtain c fr1 line t where body:
    "run_callee env ?action WritableTx parsed callerCtx ?call (settle_atomic env ?action parsed t)
      (add_line (CallStarted AtomicKind (ac_name ?c) (ac_name (ce_caller env))) ?fr1) = ((Inr output', c), fr1)"
    "fr' = add_line line fr1" by blast
  let ?fr2 = "add_line (CallStarted AtomicKind (ac_name ?c) (ac_name (ce_caller env))) ?fr1"
  obtain ctx fr3 where callee: "fr1 = back_to_caller ?fr2 fr3"
    "constructCalleeContext ?action parsed (nested_request env ?action)
       \<lparr>rt_db = WritableTx, rt_deadline = ce_deadline env\<rparr> (pw_tenancy (fr_world ?fr2)) callerCtx = Inr ctx"
    "eff_bind (run_program (callee_capabilities env ?action (bc_db (ctx_base ctx)) (?call ctx))
          (nx_handler ?action parsed ctx)) (\<lambda>raw.
        eff_bind (eff_of (typed (validateNestedOutput (pd_zod (ce_deps env)) (ac_output ?c) raw))) (\<lambda>output'.
        eff_bind (settle_atomic env ?action parsed t ctx output') (\<lambda>_. eff_return output'))) (callee_frame ?fr2)
      = (Inr output', fr3)"
    using run_callee_frame [OF body(1)] by blast
  obtain raw fr4 where run: "run_program (callee_capabilities env ?action (bc_db (ctx_base ctx)) (?call ctx))
          (nx_handler ?action parsed ctx) (callee_frame ?fr2) = (Inr raw, fr4)"
    "pd_zod (ce_deps env) (ac_output ?c) raw = Inr output'"
    "settle_atomic env ?action parsed t ctx output' fr4 = (Inr (), fr3)"
    using callee(3) by (auto simp: eff_bind_Inr_iff validateNestedOutput_Inr)
  obtain buffer w row where settle:
    "flush ctx (case rq_causationId (ce_request env) of
        Some i \<Rightarrow> i | None \<Rightarrow> rq_requestId (ce_request env)) (fr_emits fr4) (fr_world fr4) = (Inr buffer, w)"
    "fr_world fr3 = insertAuditRow row w" "accountable_row row" "al_outcome row = ''ok''"
    "al_action row = ac_name ?c" "al_companyId row = effectiveCompanyId ctx"
    "canonicalJsonSha256OfUnknown sha256 parsed = Inr (al_inputHash row)"
    using settled [OF run(3) assms(2,3)] by blast
  have "fr' = fr\<lparr>fr_world := insertAuditRow row w, fr_used := True, fr_lines := fr_lines fr3 @ [line]\<rparr>"
    using body(2) callee(1) settle(2) by (simp add: back_to_caller_def add_line_def)
  moreover have "pw_tenancy (fr_world ?fr2) = pw_tenancy (fr_world fr)" by (simp add: add_line_def)
  ultimately have "atomic_settled sha256 env callee input fr output' fr'"
    unfolding atomic_settled_def Let_def
    using open'(1) time(2) callee(2) run(1,2) settle(1,3-7)
    by (intro exI [of _ callerCtx] exI [of _ ctx] exI [of _ parsed] exI [of _ raw] exI [of _ fr4]
        exI [of _ buffer] exI [of _ w] exI [of _ row] exI [of _ "fr_lines fr3 @ [line]"]) simp
  then show ?thesis using open'(2,3) time(1) by blast
qed

section \<open>A family of actions\<close>

definition sample_root :: action_contract where
  "sample_root = sample_contract\<lparr>ac_principal := System, ac_systemScope := Some GlobalScope, ac_permissions := []\<rparr>"

definition sample_reserve :: action_contract where
  "sample_reserve = sample_atomic_callee\<lparr>ac_principal := System, ac_systemScope := Some GlobalScope, ac_permissions := []\<rparr>"

definition sample_get :: action_contract where
  "sample_get = sample_read_callee\<lparr>ac_principal := System, ac_systemScope := Some GlobalScope, ac_permissions := [],
     ac_audit := True\<rparr>"

text \<open>The root reads a customer and reserves; it answers even if the reservation fails.\<close>

definition sample_action :: "action_contract \<Rightarrow> (js_string, unit app_world) program \<Rightarrow> (unit, js_string, unit app_world) nested_action" where
  "sample_action c p = \<lparr>nx_contract = c, nx_handler = (\<lambda>input ctx. p), nx_resolveTarget = None,
     nx_auditTarget = Some (\<lambda>te. Inr \<lparr>tr_type = ''order'', tr_id = ''o1''\<rparr>), nx_auditSnapshot = None\<rparr>"

definition sample_family :: "(js_string, unit app_world) program \<Rightarrow> js_string \<Rightarrow> (unit, js_string, unit app_world) nested_action" where
  "sample_family ending name =
     (if name = ''customers.get'' then sample_action sample_get (Return JNull)
      else if name = ''inventory.reserve'' then sample_action sample_reserve
        (Mutate (\<lambda>w. (Inr JNull, w\<lparr>pw_tenancy := sample_tenancy\<lparr>tn_companies := []\<rparr>\<rparr>)) (\<lambda>_. ending))
      else sample_action sample_root (CallAtomic ''inventory.reserve'' JNull
        (\<lambda>r. case r of Inr v \<Rightarrow> Return v | Inl _ \<Rightarrow> Return (JString ''kept''))))"

definition sample_ctx :: action_ctx where
  "sample_ctx = SystemGlobalCtx (buildBase sample_hook_request sample_runtime WritableTx (SystemActor ''worker'') None) ''worker''"

definition sample_env_of :: "(js_string, unit app_world) program \<Rightarrow> (unit, js_string, unit app_world, idempotency_reservation) call_env" where
  "sample_env_of ending = root_env sample_deps (\<lambda>job payload. Inl []) (sample_family ending) sample_root sample_hook_request sample_ctx"

definition sample_frame :: "unit app_world frame" where
  "sample_frame = root_frame (handler_start ''i1'' createAuditTargetBox sample_start)"

lemma sample_family_sel:
  "nx_contract (sample_family e ''customers.get'') = sample_get"
  "nx_contract (sample_family e ''inventory.reserve'') = sample_reserve"
  "nx_contract (sample_family e ''orders.confirm'') = sample_root"
  by (simp_all add: sample_family_def sample_action_def)

lemma sample_edges:
  "callTargetProblems sample_root sample_get = []" "atomicCallTargetProblems sample_root sample_reserve = []"
  by (simp_all add: callTarget_ok atomicCallTarget_ok sample_root_def sample_get_def sample_reserve_def sample_contract_def
      sample_atomic_callee_def sample_read_callee_def sample_callee_names callPrincipalCompatible_def atomicPrincipalCompatible_def)

lemma sample_reserve_sel:
  "ac_name sample_reserve = ''inventory.reserve''" "ac_systemScope sample_reserve = Some GlobalScope" "ac_audit sample_reserve"
  by (simp_all add: sample_reserve_def sample_atomic_callee_def sample_contract_def)

lemmas sample_atomic_simps = createCtxCallAtomic_def Let_def sample_env_of_def root_env_def atomic_guard_def
  sample_family_sel assertNestedDeadline_def validateNestedInput_def sample_deps_sel sample_frame_def root_frame_def
  handler_start_def sample_ctx_def sample_runtime_def nested_invocation_def run_callee_def createSystemContext_def
  sample_start_def sample_family_def sample_action_def sample_reserve_sel callee_capabilities_def eff_bind_def
  callee_frame_def add_line_def back_to_caller_def typed_def

lemma sample_audited: "ph_audit (pd_hooks sample_deps) = Some (createAuditHook (\<lambda>t. ''h''))"
  using created_hooks(1) [OF sample_created(1)] by (simp add: sample_server_def memory_options_def)

lemma sample_deps_audited: "audit_hook_ok (ce_deps (sample_env_of e))"
  unfolding audit_hook_ok_def by (auto simp: sample_env_of_def root_env_def sample_audited)


section \<open>Witnesses\<close>

lemma sample_atomic_ok:
  "\<exists>fr. createCtxCallAtomic (sample_env_of (Return (JString ''done''))) ''inventory.reserve'' JNull sample_frame
     = (Inr (JString ''done''), fr)"
  using sample_edges(2)
  by (simp add: sample_atomic_simps sample_audited [unfolded sample_deps_sel] validateNestedOutput_def settle_atomic_def flush_def createEmitBuffer_def
    requireNestedAuditTarget_def createAuditHook_def recordSuccess_def success_row_def nested_success_env_def
    canonicalJsonSha256OfUnknown_def canonicalJsonSha256_def canonicalJson_def toAuditActor_def)

theorem atomic_call_settles_in_root_witness:
  "\<exists>fr row w. createCtxCallAtomic (sample_env_of (Return (JString ''done''))) ''inventory.reserve'' JNull sample_frame
       = (Inr (JString ''done''), fr) \<and> fr_world fr = insertAuditRow row w
     \<and> al_action row = ''inventory.reserve'' \<and> al_outcome row = ''ok'' \<and> fr_used fr \<and> fr_emits fr = fr_emits sample_frame"
proof -
  let ?env = "sample_env_of (Return (JString ''done''))"
  have sel: "ce_deps ?env = sample_deps" "ce_actions ?env = sample_family (Return (JString ''done''))"
    by (simp_all add: sample_env_of_def root_env_def)
  obtain fr where run: "createCtxCallAtomic ?env ''inventory.reserve'' JNull sample_frame = (Inr (JString ''done''), fr)"
    using sample_atomic_ok by blast
  have "atomic_settled (\<lambda>t. ''h'') ?env ''inventory.reserve'' JNull sample_frame (JString ''done'') fr"
    using atomic_call_settles_in_root [OF run] by (simp add: sel sample_audited sample_family_sel sample_reserve_sel)
  then obtain row w lines where "fr = sample_frame\<lparr>fr_world := insertAuditRow row w, fr_used := True, fr_lines := lines\<rparr>"
    "al_outcome row = ''ok''" "al_action row = ''inventory.reserve''"
    by (auto simp: atomic_settled_def Let_def sel sample_family_sel sample_reserve_sel)
  then show ?thesis using run by auto
qed

theorem nested_reads_write_nothing_witness:
  "tn_companies (pw_tenancy (fr_world (snd (createCtxCall (sample_env_of (Return JNull)) ''customers.get'' JNull sample_frame))))
     = tn_companies (pw_tenancy (fr_world sample_frame))
   \<and> fr_used (snd (createCtxCall (sample_env_of (Return JNull)) ''customers.get'' JNull sample_frame)) = fr_used sample_frame"
  using nested_reads_write_nothing [OF sample_deps_audited, of "Return JNull" "''customers.get''" JNull sample_frame] by auto

theorem nested_context_widens_nothing_witness:
  "\<exists>ctx. constructCalleeContext (sample_family (Return JNull) ''customers.get'') JNull sample_hook_request
       \<lparr>rt_db = ReadOnlyTx, rt_deadline = 10000\<rparr> sample_tenancy sample_ctx = Inr ctx
     \<and> bc_actor (ctx_base ctx) = SystemActor ''worker'' \<and> bc_db (ctx_base ctx) \<noteq> WritableTx"
proof -
  let ?rt = "\<lparr>rt_db = ReadOnlyTx, rt_deadline = 10000\<rparr>"
  have inv': "ctx_inv sample_ctx" "ctx_principal sample_ctx = ac_principal sample_root"
    "bc_actor (ctx_base sample_ctx) = SystemActor ''worker''"
    by (simp_all add: sample_ctx_def ctx_inv_def ctx_actor_ok_def sample_root_def)
  obtain ctx where ctx: "constructCalleeContext (sample_family (Return JNull) ''customers.get'') JNull sample_hook_request
      ?rt sample_tenancy sample_ctx = Inr ctx"
    by (simp add: sample_ctx_def createSystemContext_def sample_family_sel sample_get_def)
  have "callTargetProblems sample_root (nx_contract (sample_family (Return JNull) ''customers.get'')) = []"
    by (simp add: sample_family_sel sample_edges)
  from nested_context_widens_nothing [OF ctx inv'(1,2) disjI1 [OF this]] show ?thesis using ctx inv'(3) by auto
qed

end
