(* ===== verification/Call_Graph.thy ===== *)
theory Call_Graph
  imports Implementation
begin

text \<open>
  The declared call graph and the walk that looks for cycles in it (\<open>collectCallGraphCycleProblems\<close> of
  \<open>contract-check/contract-check.ts\<close>). The adjacency map and the two-colour state are JavaScript maps:
  the first keeps insertion order and is an association list. The walk is proved to report
  nothing exactly when the graph is acyclic, and to report cycles only.
\<close>

section \<open>The graph\<close>

record call_edge =
  de_caller :: js_string
  de_callee :: js_string
  de_permissionGuarded :: bool

type_synonym adjacency = "(js_string \<times> js_string list) list"

definition add_edge :: "js_string \<Rightarrow> js_string \<Rightarrow> adjacency \<Rightarrow> adjacency" where
  "add_edge source target adj =
     (case map_of adj source of
        None \<Rightarrow> adj @ [(source, [target])]
      | Some targets \<Rightarrow>
          if target \<in> set targets then adj
          else map (\<lambda>(k, ts). if k = source then (k, ts @ [target]) else (k, ts)) adj)"

definition call_graph :: "action_contract list \<Rightarrow> call_edge list \<Rightarrow> adjacency" where
  "call_graph cs callEdges =
     foldl (\<lambda>adj (source, target). add_edge source target adj) []
       (map (\<lambda>e. (de_caller e, de_callee e)) callEdges
        @ concat (map (\<lambda>c. map (\<lambda>calleeName. (ac_name c, calleeName)) (ac_atomicCalls c)) cs))"

definition targets_of :: "adjacency \<Rightarrow> js_string \<Rightarrow> js_string list" where
  "targets_of adj node = (case map_of adj node of None \<Rightarrow> [] | Some ts \<Rightarrow> ts)"

section \<open>The walk\<close>

datatype colour = Visiting | Done

record walk =
  wk_state :: "js_string \<Rightarrow> colour option"
  wk_cycles :: "js_string list list"

definition enter :: "js_string \<Rightarrow> walk \<Rightarrow> walk" where
  "enter node w = w\<lparr>wk_state := (wk_state w)(node \<mapsto> Visiting)\<rparr>"

definition leave :: "js_string \<Rightarrow> walk \<Rightarrow> walk" where
  "leave node w = w\<lparr>wk_state := (wk_state w)(node \<mapsto> Done)\<rparr>"

definition report_cycle :: "js_string list \<Rightarrow> js_string \<Rightarrow> walk \<Rightarrow> walk" where
  "report_cycle stack next' w =
     w\<lparr>wk_cycles := wk_cycles w @ [dropWhile (\<lambda>n. n \<noteq> next') stack @ [next']]\<rparr>"

text \<open>The loop over the targets of the node on top of the stack, with the recursion of \<open>visit\<close> in it.\<close>

function visit_targets :: "adjacency \<Rightarrow> js_string list \<Rightarrow> js_string list \<Rightarrow> walk \<Rightarrow> walk" where
  "visit_targets adj stack [] w = w"
| "visit_targets adj stack (next' # rest) w =
     visit_targets adj stack rest
       (case wk_state w next' of
          Some Visiting \<Rightarrow> report_cycle stack next' w
        | Some Done \<Rightarrow> w
        | None \<Rightarrow> leave next' (visit_targets adj (stack @ [next']) (targets_of adj next') (enter next' w)))"
  by pat_completeness auto

definition coloured :: "walk \<Rightarrow> js_string set" where
  "coloured w = dom (wk_state w)"

lemma coloured_simps [simp]:
  "coloured (enter n w) = insert n (coloured w)" "coloured (leave n w) = insert n (coloured w)"
  "coloured (report_cycle stack n w) = coloured w"
  by (auto simp: coloured_def enter_def leave_def report_cycle_def)

lemma visit_targets_grows:
  "visit_targets_dom (adj, stack, ns, w) \<Longrightarrow> coloured w \<subseteq> coloured (visit_targets adj stack ns w)"
proof (induction adj stack ns w rule: visit_targets.pinduct)
  case (1 adj stack w)
  then show ?case by (simp add: visit_targets.psimps)
next
  case (2 adj stack next' rest w)
  show ?case
  proof (cases "wk_state w next'")
    case None
    then show ?thesis using 2 by (auto simp: visit_targets.psimps)
  next
    case (Some c)
    then show ?thesis using 2 by (cases c) (auto simp: visit_targets.psimps)
  qed
qed

lemma card_not_coloured: "B \<subseteq> C \<Longrightarrow> card (fst ` set adj - C) \<le> card (fst ` set adj - B)"
  by (rule card_mono) auto

termination visit_targets
proof (relation "inv_image (less_than <*lex*> less_than)
    (\<lambda>(adj, stack, ns, w). (card (fst ` set adj - coloured w), length ns))")
  show "wf (inv_image (less_than <*lex*> less_than)
    (\<lambda>(adj, stack, ns, w). (card (fst ` set adj - coloured w), length ns)))" by auto
next
  fix adj :: adjacency and stack rest :: "js_string list" and next' :: js_string and w :: walk
  assume "wk_state w next' = None"
  then have new: "next' \<notin> coloured w" by (auto simp: coloured_def)
  show "((adj, stack @ [next'], targets_of adj next', enter next' w), adj, stack, next' # rest, w)
    \<in> inv_image (less_than <*lex*> less_than) (\<lambda>(adj, stack, ns, w). (card (fst ` set adj - coloured w), length ns))"
  proof (cases "next' \<in> fst ` set adj")
    case True
    then have "card (fst ` set adj - insert next' (coloured w)) < card (fst ` set adj - coloured w)"
      using new by (intro card_Diff_insert_less) auto
    then show ?thesis by simp
  next
    case False
    then have "targets_of adj next' = []" by (metis map_of_eq_None_iff option.simps(4) targets_of_def)
    moreover have "fst ` set adj - insert next' (coloured w) = fst ` set adj - coloured w" using False by auto
    ultimately show ?thesis by simp
  qed
next
  fix adj :: adjacency and stack rest :: "js_string list" and next' :: js_string and w :: walk
  assume dom: "wk_state w next' = None \<Longrightarrow> visit_targets_dom (adj, stack @ [next'], targets_of adj next', enter next' w)"
  show "((adj, stack, rest, case wk_state w next' of None \<Rightarrow> leave next' (visit_targets adj (stack @ [next'])
        (targets_of adj next') (enter next' w)) | Some Visiting \<Rightarrow> report_cycle stack next' w | Some Done \<Rightarrow> w),
      adj, stack, next' # rest, w)
    \<in> inv_image (less_than <*lex*> less_than) (\<lambda>(adj, stack, ns, w). (card (fst ` set adj - coloured w), length ns))"
  proof (cases "wk_state w next'")
    case None
    have "coloured w \<subseteq> coloured (leave next' (visit_targets adj (stack @ [next']) (targets_of adj next') (enter next' w)))"
      using visit_targets_grows [OF dom [OF None]] by auto
    from card_not_coloured [OF this, of adj] show ?thesis using None by auto
  next
    case (Some c)
    then show ?thesis by (cases c) auto
  qed
qed

definition visit :: "adjacency \<Rightarrow> js_string \<Rightarrow> walk \<Rightarrow> walk" where
  "visit adj node w = leave node (visit_targets adj [node] (targets_of adj node) (enter node w))"

fun visit_roots :: "adjacency \<Rightarrow> js_string list \<Rightarrow> walk \<Rightarrow> walk" where
  "visit_roots adj [] w = w"
| "visit_roots adj (node # nodes) w =
     visit_roots adj nodes (if wk_state w node = None then visit adj node w else w)"

definition collectCallGraphCycleProblems :: "action_contract list \<Rightarrow> call_edge list \<Rightarrow> js_string list list" where
  "collectCallGraphCycleProblems cs callEdges =
     (let adj = call_graph cs callEdges in
      wk_cycles (visit_roots adj (map fst adj) \<lparr>wk_state = Map.empty, wk_cycles = []\<rparr>))"

section \<open>What is reported\<close>

definition edge :: "adjacency \<Rightarrow> js_string \<Rightarrow> js_string \<Rightarrow> bool" where
  "edge adj a b \<longleftrightarrow> b \<in> set (targets_of adj a)"

definition is_cycle :: "adjacency \<Rightarrow> js_string list \<Rightarrow> bool" where
  "is_cycle adj chain \<longleftrightarrow> 2 \<le> length chain \<and> hd chain = last chain \<and> successively (edge adj) chain"

definition on_stack :: "js_string list \<Rightarrow> walk \<Rightarrow> bool" where
  "on_stack stack w \<longleftrightarrow> (\<forall>n. wk_state w n = Some Visiting \<longleftrightarrow> n \<in> set stack)"

lemma on_stack_simps:
  "on_stack stack w \<Longrightarrow> wk_state w n = None \<Longrightarrow> on_stack (stack @ [n]) (enter n w)"
  "on_stack (stack @ [n]) w \<Longrightarrow> n \<notin> set stack \<Longrightarrow> on_stack stack (leave n w)"
  "on_stack stack w \<Longrightarrow> on_stack stack (report_cycle stack' n w)"
  by (auto simp: on_stack_def enter_def leave_def report_cycle_def)

lemma report_is_cycle:
  assumes "successively (edge adj) stack" and "n \<in> set stack" and "edge adj (last stack) n"
  shows "is_cycle adj (dropWhile (\<lambda>m. m \<noteq> n) stack @ [n])"
proof -
  obtain pre tail where split: "stack = pre @ tail" and drop: "dropWhile (\<lambda>m. m \<noteq> n) stack = tail"
    by (metis takeWhile_dropWhile_id)
  have "dropWhile (\<lambda>m. m \<noteq> n) stack \<noteq> []" using assms(2) by (auto simp: dropWhile_eq_Nil_conv)
  then have tail: "tail \<noteq> []" "hd tail = n" using hd_dropWhile [of "\<lambda>m. m \<noteq> n" stack] drop by simp_all
  have "successively (edge adj) tail" "last tail = last stack"
    using assms(1) tail(1) unfolding split by (simp_all add: successively_append_iff)
  then have "is_cycle adj (tail @ [n])"
    using tail assms(3) by (simp add: is_cycle_def successively_append_iff Suc_le_eq)
  then show ?thesis by (simp add: drop)
qed

lemma visit_targets_reports:
  assumes "successively (edge adj) stack" and "stack \<noteq> []" and "\<forall>n \<in> set ns. edge adj (last stack) n"
    and "on_stack stack w" and "\<forall>chain \<in> set (wk_cycles w). is_cycle adj chain"
  shows "on_stack stack (visit_targets adj stack ns w)
    \<and> (\<forall>chain \<in> set (wk_cycles (visit_targets adj stack ns w)). is_cycle adj chain)"
  using assms
proof (induction adj stack ns w rule: visit_targets.induct)
  case (1 adj stack w)
  then show ?case by simp
next
  case (2 adj stack next' rest w)
  have "on_stack stack w' \<and> (\<forall>chain \<in> set (wk_cycles w'). is_cycle adj chain)"
    if "w' = (case wk_state w next' of Some Visiting \<Rightarrow> report_cycle stack next' w | Some Done \<Rightarrow> w
        | None \<Rightarrow> leave next' (visit_targets adj (stack @ [next']) (targets_of adj next') (enter next' w)))" for w'
  proof (cases "wk_state w next'")
    case None
    have "next' \<notin> set stack" using None "2.prems"(4) by (metis on_stack_def option.distinct(1))
    moreover have "on_stack (stack @ [next']) (visit_targets adj (stack @ [next']) (targets_of adj next') (enter next' w))
      \<and> (\<forall>chain \<in> set (wk_cycles (visit_targets adj (stack @ [next']) (targets_of adj next') (enter next' w))). is_cycle adj chain)"
    proof (rule "2.IH"(1) [OF None])
      show "successively (edge adj) (stack @ [next'])"
        using "2.prems"(1-3) by (simp add: successively_append_iff)
      show "on_stack (stack @ [next']) (enter next' w)" by (rule on_stack_simps(1) [OF "2.prems"(4) None])
    qed (use "2.prems"(5) in \<open>auto simp: edge_def enter_def\<close>)
    ultimately show ?thesis using that None by (simp add: on_stack_simps(2)) (simp add: leave_def)
  next
    case (Some c)
    then show ?thesis
      using that "2.prems" report_is_cycle [of adj stack next']
      by (cases c) (auto simp: on_stack_simps(3) on_stack_def report_cycle_def)
  qed
  then show ?case using "2.IH"(2) "2.prems"(1-3) by simp
qed

section \<open>Nothing is missed\<close>

text \<open>Finished nodes have finished targets only, and no cycle among them.\<close>

definition finished_edges :: "adjacency \<Rightarrow> walk \<Rightarrow> (js_string \<times> js_string) set" where
  "finished_edges adj w = {(a, b). wk_state w a = Some Done \<and> edge adj a b}"

definition settled :: "adjacency \<Rightarrow> walk \<Rightarrow> bool" where
  "settled adj w \<longleftrightarrow> (\<forall>(a, b) \<in> finished_edges adj w. wk_state w b = Some Done) \<and> acyclic (finished_edges adj w)"

lemma acyclic_extend:
  assumes "acyclic E" and "x \<notin> Range E" and "x \<notin> B"
  shows "acyclic (E \<union> {x} \<times> B)"
proof -
  let ?E = "E \<union> {x} \<times> B"
  have "(a, b) \<in> ?E\<^sup>+ \<Longrightarrow> a \<noteq> x \<Longrightarrow> (a, b) \<in> E\<^sup>+ \<and> b \<noteq> x" for a b
  proof (induction rule: trancl_induct)
    case (base y)
    then show ?case using assms(2) by auto
  next
    case (step y z)
    then have "(a, y) \<in> E\<^sup>+" "(y, z) \<in> E" by auto
    then show ?case using assms(2) by (auto intro: trancl_into_trancl)
  qed
  moreover have "(x, x) \<notin> ?E\<^sup>+" using assms(2,3) by (auto elim: tranclE)
  ultimately show ?thesis using assms(1) by (metis acyclic_def)
qed

lemma enter_settled:
  "wk_state w n = None \<Longrightarrow> settled adj w \<Longrightarrow> settled adj (enter n w)"
proof -
  assume "wk_state w n = None" "settled adj w"
  moreover have "finished_edges adj (enter n w) = finished_edges adj w"
    using calculation by (auto simp: finished_edges_def enter_def split: if_splits)
  ultimately show ?thesis by (auto simp: settled_def enter_def finished_edges_def)
qed

lemma leave_settled:
  assumes "settled adj w" and "wk_state w n = Some Visiting" and "\<forall>b \<in> set (targets_of adj n). wk_state w b = Some Done"
  shows "settled adj (leave n w)"
proof -
  have edges: "finished_edges adj (leave n w) = finished_edges adj w \<union> {n} \<times> set (targets_of adj n)"
    by (auto simp: finished_edges_def leave_def edge_def assms(2) split: if_splits)
  have "n \<notin> Range (finished_edges adj w)" "n \<notin> set (targets_of adj n)"
    using assms by (auto simp: settled_def)
  then have "acyclic (finished_edges adj (leave n w))"
    unfolding edges using assms(1) by (intro acyclic_extend) (auto simp: settled_def)
  moreover have "\<forall>(a, b) \<in> finished_edges adj (leave n w). wk_state (leave n w) b = Some Done"
    unfolding edges using assms(1,3) by (auto simp: settled_def leave_def)
  ultimately show ?thesis by (simp add: settled_def)
qed

definition keeps_colours :: "walk \<Rightarrow> walk \<Rightarrow> bool" where
  "keeps_colours w w' \<longleftrightarrow> (\<forall>n c. wk_state w n = Some c \<longrightarrow> wk_state w' n = Some c)"

lemma visit_targets_monotone: "wk_cycles (visit_targets adj stack ns w) = [] \<Longrightarrow> wk_cycles w = []"
proof (induction adj stack ns w rule: visit_targets.induct)
  case (2 adj stack next' rest w)
  show ?case
  proof (cases "wk_state w next'")
    case None
    then show ?thesis using 2 by (simp add: leave_def enter_def)
  next
    case (Some c)
    then show ?thesis using 2 by (cases c) (simp_all add: report_cycle_def)
  qed
qed simp

lemma visit_targets_complete:
  assumes "settled adj w" and "wk_cycles (visit_targets adj stack ns w) = []"
  shows "settled adj (visit_targets adj stack ns w) \<and> keeps_colours w (visit_targets adj stack ns w)
    \<and> (\<forall>n \<in> set ns. wk_state (visit_targets adj stack ns w) n = Some Done)"
  using assms
proof (induction adj stack ns w rule: visit_targets.induct)
  case (1 adj stack w)
  then show ?case by (simp add: keeps_colours_def)
next
  case (2 adj stack next' rest w)
  let ?w1 = "case wk_state w next' of Some Visiting \<Rightarrow> report_cycle stack next' w | Some Done \<Rightarrow> w
        | None \<Rightarrow> leave next' (visit_targets adj (stack @ [next']) (targets_of adj next') (enter next' w))"
  have final: "wk_cycles (visit_targets adj stack rest ?w1) = []" using "2.prems"(2) by simp
  then have quiet: "wk_cycles ?w1 = []" by (rule visit_targets_monotone)
  have "settled adj ?w1 \<and> keeps_colours w ?w1 \<and> wk_state ?w1 next' = Some Done"
  proof (cases "wk_state w next'")
    case None
    let ?w2 = "visit_targets adj (stack @ [next']) (targets_of adj next') (enter next' w)"
    have "wk_cycles ?w2 = []" using quiet None by (simp add: leave_def)
    then have inner: "settled adj ?w2" "keeps_colours (enter next' w) ?w2"
      "\<forall>n \<in> set (targets_of adj next'). wk_state ?w2 n = Some Done"
      using "2.IH"(1) [OF None enter_settled [OF None "2.prems"(1)]] by simp_all
    have "wk_state ?w2 next' = Some Visiting" using inner(2) by (simp add: keeps_colours_def enter_def)
    then have "settled adj (leave next' ?w2)" using inner(1,3) leave_settled by blast
    moreover have "keeps_colours w (leave next' ?w2)"
      using inner(2) None by (auto simp: keeps_colours_def enter_def leave_def split: if_splits)
    ultimately show ?thesis using None by (simp add: leave_def)
  next
    case (Some c)
    then show ?thesis using "2.prems"(1) quiet by (cases c) (simp_all add: report_cycle_def keeps_colours_def)
  qed
  then show ?case using "2.IH"(2) [OF _ final] by (auto simp: keeps_colours_def)
qed

lemma visit_complete:
  assumes "settled adj w" and "wk_state w node = None" and "wk_cycles (visit adj node w) = []"
  shows "settled adj (visit adj node w) \<and> keeps_colours w (visit adj node w) \<and> wk_state (visit adj node w) node = Some Done
    \<and> wk_cycles w = []"
proof -
  let ?w = "visit_targets adj [node] (targets_of adj node) (enter node w)"
  have inner: "settled adj ?w" "keeps_colours (enter node w) ?w" "\<forall>n \<in> set (targets_of adj node). wk_state ?w n = Some Done"
    "wk_cycles (enter node w) = []"
    using visit_targets_complete [OF enter_settled [OF assms(2,1)], of "[node]" "targets_of adj node"]
      visit_targets_monotone [of adj "[node]" "targets_of adj node" "enter node w"] assms(3)
    by (simp_all add: visit_def leave_def)
  have "wk_state ?w node = Some Visiting" using inner(2) by (simp add: keeps_colours_def enter_def)
  then have "settled adj (leave node ?w)" using inner(1,3) leave_settled by blast
  then show ?thesis
    using inner(2,4) assms(2) by (auto simp: visit_def keeps_colours_def enter_def leave_def split: if_splits)
qed

lemma visit_roots_monotone: "wk_cycles (visit_roots adj nodes w) = [] \<Longrightarrow> wk_cycles w = []"
proof (induction adj nodes w rule: visit_roots.induct)
  case (2 adj node nodes w)
  then have "wk_cycles (if wk_state w node = None then visit adj node w else w) = []" by simp
  then show ?case using visit_targets_monotone [of adj "[node]" "targets_of adj node" "enter node w"]
    by (simp add: visit_def leave_def enter_def split: if_splits)
qed simp

lemma visit_reports:
  assumes "on_stack [] w" and "\<forall>chain \<in> set (wk_cycles w). is_cycle adj chain" and "wk_state w node = None"
  shows "on_stack [] (visit adj node w) \<and> (\<forall>chain \<in> set (wk_cycles (visit adj node w)). is_cycle adj chain)"
proof -
  have "on_stack ([] @ [node]) (enter node w)" by (rule on_stack_simps(1) [OF assms(1,3)])
  then have "on_stack ([] @ [node]) (visit_targets adj [node] (targets_of adj node) (enter node w))
    \<and> (\<forall>chain \<in> set (wk_cycles (visit_targets adj [node] (targets_of adj node) (enter node w))). is_cycle adj chain)"
    using visit_targets_reports [of adj "[node]" "targets_of adj node" "enter node w"] assms(2)
    by (simp add: edge_def enter_def)
  then show ?thesis using on_stack_simps(2) [of "[]" node] by (simp add: visit_def leave_def)
qed

lemma visit_roots_reports:
  assumes "on_stack [] w" and "\<forall>chain \<in> set (wk_cycles w). is_cycle adj chain"
  shows "\<forall>chain \<in> set (wk_cycles (visit_roots adj nodes w)). is_cycle adj chain"
  using assms
proof (induction adj nodes w rule: visit_roots.induct)
  case (2 adj node nodes w)
  then show ?case using visit_reports [of w adj node] by (cases "wk_state w node") simp_all
qed simp

lemma visit_roots_complete:
  assumes "settled adj w" and "on_stack [] w" and "wk_cycles (visit_roots adj nodes w) = []"
  shows "settled adj (visit_roots adj nodes w) \<and> keeps_colours w (visit_roots adj nodes w)
    \<and> (\<forall>n \<in> set nodes. wk_state (visit_roots adj nodes w) n = Some Done)"
  using assms
proof (induction adj nodes w rule: visit_roots.induct)
  case (1 adj w)
  then show ?case by (simp add: keeps_colours_def)
next
  case (2 adj node nodes w)
  let ?w1 = "if wk_state w node = None then visit adj node w else w"
  have final: "wk_cycles (visit_roots adj nodes ?w1) = []" using "2.prems"(3) by simp
  then have quiet: "wk_cycles ?w1 = []" by (rule visit_roots_monotone)
  have "settled adj ?w1 \<and> keeps_colours w ?w1 \<and> wk_state ?w1 node = Some Done \<and> on_stack [] ?w1"
  proof (cases "wk_state w node")
    case None
    then have "wk_cycles (visit adj node w) = []" using quiet by simp
    with visit_complete [OF "2.prems"(1) None this] visit_reports [OF "2.prems"(2) _ None] show ?thesis
      using None by auto
  next
    case (Some c)
    then have "c = Done" using "2.prems"(2) by (cases c) (auto simp: on_stack_def)
    then show ?thesis using Some "2.prems"(1,2) by (simp add: keeps_colours_def)
  qed
  then show ?case using "2.IH" [OF _ _ final] by (auto simp: keeps_colours_def)
qed

section \<open>The edges are the declared ones\<close>

definition declared_edges :: "action_contract list \<Rightarrow> call_edge list \<Rightarrow> (js_string \<times> js_string) set" where
  "declared_edges cs callEdges = {(de_caller e, de_callee e) | e. e \<in> set callEdges}
     \<union> {(ac_name c, n) | c n. c \<in> set cs \<and> n \<in> set (ac_atomicCalls c)}"

lemma add_edge_keys: "distinct (map fst adj) \<Longrightarrow> distinct (map fst (add_edge a b adj))"
proof -
  have "map fst (map (\<lambda>(k, ts). if k = a then (k, ts @ [b]) else (k, ts)) adj) = map fst adj"
    by (induction adj) auto
  then show "distinct (map fst adj) \<Longrightarrow> distinct (map fst (add_edge a b adj))"
    by (auto simp: add_edge_def map_of_eq_None_iff simp del: map_map split: option.splits)
qed

lemma edge_add_edge: "edge (add_edge a b adj) x y \<longleftrightarrow> edge adj x y \<or> x = a \<and> y = b"
proof -
  have "map_of (map (\<lambda>(k, ts). if k = a then (k, ts @ [b]) else (k, ts)) adj) x
    = (if x = a then map_option (\<lambda>ts. ts @ [b]) (map_of adj a) else map_of adj x)"
    by (induction adj) auto
  then have "map_of (add_edge a b adj) x = (if x = a then Some (case map_of adj a of None \<Rightarrow> [b]
      | Some ts \<Rightarrow> if b \<in> set ts then ts else ts @ [b]) else map_of adj x)"
    by (cases "map_of adj a"; cases "x = a"; cases "map_of adj x") (simp_all add: add_edge_def map_add_def)
  then have "targets_of (add_edge a b adj) x = (if x = a then
      (if b \<in> set (targets_of adj a) then targets_of adj a else targets_of adj a @ [b]) else targets_of adj x)"
    by (cases "map_of adj a") (simp_all add: targets_of_def)
  then show ?thesis by (auto simp: edge_def split: if_splits)
qed

lemma edge_foldl: "edge (foldl (\<lambda>adj (a, b). add_edge a b adj) adj pairs) x y \<longleftrightarrow> edge adj x y \<or> (x, y) \<in> set pairs"
proof (induction pairs arbitrary: adj)
  case (Cons p pairs)
  then show ?case by (cases p) (auto simp: edge_add_edge)
qed simp

lemma edge_Nil: "\<not> edge [] a b"
  by (simp add: edge_def targets_of_def)

lemma edge_call_graph: "edge (call_graph cs callEdges) a b \<longleftrightarrow> (a, b) \<in> declared_edges cs callEdges"
  unfolding call_graph_def edge_foldl by (auto simp: declared_edges_def edge_Nil)

lemma cycle_in_trancl:
  assumes "is_cycle adj chain"
  shows "\<not> acyclic {(a, b). edge adj a b}"
proof -
  have path: "successively (edge adj) (x # xs) \<Longrightarrow> xs \<noteq> [] \<Longrightarrow> (x, last xs) \<in> {(a, b). edge adj a b}\<^sup>+" for x xs
  proof (induction xs arbitrary: x)
    case (Cons y ys)
    then have step: "(x, y) \<in> {(a, b). edge adj a b}" by simp
    show ?case
    proof (cases "ys = []")
      case True
      then show ?thesis using step by auto
    next
      case False
      then show ?thesis using Cons step by (auto intro: trancl_into_trancl2)
    qed
  qed simp
  obtain x xs where "chain = x # xs" "xs \<noteq> []" "last xs = x" "successively (edge adj) (x # xs)"
    using assms by (cases chain; cases "tl chain") (auto simp: is_cycle_def)
  then show ?thesis using path by (auto simp: acyclic_def)
qed

lemma call_graph_reports:
  "collectCallGraphCycleProblems cs callEdges = [] \<longleftrightarrow> acyclic (declared_edges cs callEdges)"
  "chain \<in> set (collectCallGraphCycleProblems cs callEdges) \<Longrightarrow> 2 \<le> length chain \<and> hd chain = last chain
        \<and> successively (\<lambda>a b. (a, b) \<in> declared_edges cs callEdges) chain"
proof -
  let ?adj = "call_graph cs callEdges"
  let ?start = "\<lparr>wk_state = Map.empty, wk_cycles = []\<rparr>"
  let ?final = "visit_roots ?adj (map fst ?adj) ?start"
  have edges: "{(a, b). edge ?adj a b} = declared_edges cs callEdges" "edge ?adj = (\<lambda>a b. (a, b) \<in> declared_edges cs callEdges)"
    by (auto simp: edge_call_graph fun_eq_iff)
  have reports: "\<forall>chain \<in> set (wk_cycles ?final). is_cycle ?adj chain"
    by (rule visit_roots_reports) (simp_all add: on_stack_def)
  have "acyclic (declared_edges cs callEdges)" if "wk_cycles ?final = []"
  proof -
    have complete: "settled ?adj ?final" "\<forall>n \<in> set (map fst ?adj). wk_state ?final n = Some Done"
      using visit_roots_complete [of ?adj ?start "map fst ?adj"] that
      by (simp_all add: settled_def finished_edges_def on_stack_def acyclic_def)
    have "a \<in> set (map fst ?adj)" if "edge ?adj a b" for a b
      using that by (cases "map_of ?adj a") (auto simp: edge_def targets_of_def dest!: map_of_SomeD intro: rev_image_eqI)
    then have "finished_edges ?adj ?final = {(a, b). edge ?adj a b}"
      using complete(2) unfolding finished_edges_def by blast
    then have "acyclic {(a, b). edge ?adj a b}" using complete(1) by (simp add: settled_def)
    then show ?thesis using edges(1) by simp
  qed
  moreover have "wk_cycles ?final = []" if "acyclic (declared_edges cs callEdges)"
    using reports cycle_in_trancl [of ?adj] that edges(1) by (cases "wk_cycles ?final") auto
  ultimately show "collectCallGraphCycleProblems cs callEdges = [] \<longleftrightarrow> acyclic (declared_edges cs callEdges)"
    unfolding collectCallGraphCycleProblems_def Let_def by blast
  show "chain \<in> set (collectCallGraphCycleProblems cs callEdges) \<Longrightarrow> 2 \<le> length chain \<and> hd chain = last chain
        \<and> successively (\<lambda>a b. (a, b) \<in> declared_edges cs callEdges) chain"
    using reports unfolding collectCallGraphCycleProblems_def Let_def is_cycle_def edges(2) by blast
qed

text \<open>
  C21: the walk over the call graph is exact. It reports nothing exactly when the graph of the declared
  \<open>ctx.call\<close> and \<open>ctx.callAtomic\<close> edges is acyclic, and every chain it reports is a cycle of declared edges.
\<close>

theorem call_graph_check_is_exact:
  "(collectCallGraphCycleProblems cs callEdges = [] \<longleftrightarrow> acyclic (declared_edges cs callEdges))
   \<and> (\<forall>chain \<in> set (collectCallGraphCycleProblems cs callEdges).
        2 \<le> length chain \<and> hd chain = last chain
        \<and> successively (\<lambda>a b. (a, b) \<in> declared_edges cs callEdges) chain)"
  using call_graph_reports by blast

theorem call_graph_check_is_exact_witness:
  "collectCallGraphCycleProblems [] [\<lparr>de_caller = ''orders.get'', de_callee = ''customers.get'', de_permissionGuarded = False\<rparr>,
     \<lparr>de_caller = ''customers.get'', de_callee = ''orders.get'', de_permissionGuarded = False\<rparr>] \<noteq> []"
proof -
  let ?edges = "[\<lparr>de_caller = ''orders.get'', de_callee = ''customers.get'', de_permissionGuarded = False\<rparr>,
     \<lparr>de_caller = ''customers.get'', de_callee = ''orders.get'', de_permissionGuarded = False\<rparr>]"
  have "(''orders.get'', ''customers.get'') \<in> declared_edges [] ?edges" "(''customers.get'', ''orders.get'') \<in> declared_edges [] ?edges"
    by (force simp: declared_edges_def)+
  then have "(''orders.get'', ''orders.get'') \<in> (declared_edges [] ?edges)\<^sup>+" by (meson trancl.simps)
  then have "\<not> acyclic (declared_edges [] ?edges)" by (auto simp: acyclic_def)
  then show ?thesis using call_graph_check_is_exact [of "[]" ?edges] by blast
qed

end
