(* ===== verification/Coverage_Check.thy ===== *)
theory Coverage_Check
  imports Call_Graph Jobs
begin

text \<open>
  Three of the whole-catalog checks: that every action and every atomic edge instantiates its
  inherited test suites (\<open>contract-check/suite-coverage.ts\<close>), that jobs and the actions around them
  fit together (\<open>contract-check/jobs.ts\<close>), and that an exposed write shows a card
  (\<open>contract-check/write-previews.ts\<close>). A check returns the list of what the code pushes on the
  shared array, a constructor per push. A JavaScript set is its list in insertion order.
\<close>

section \<open>Suite coverage\<close>

record suite_coverage =
  sv_isolation :: "js_string list"
  sv_publicProjection :: "js_string list"
  sv_consumerIsolation :: "js_string list"
  sv_accountIsolation :: "js_string list"
  sv_shareIsolation :: "js_string list"
  sv_idempotency :: "js_string list"
  sv_events :: "js_string list"
  sv_atomic :: "(js_string \<times> js_string) list"
  sv_jobIsolation :: "js_string list"

definition emptySuiteCoverage :: suite_coverage where
  "emptySuiteCoverage = \<lparr>sv_isolation = [], sv_publicProjection = [], sv_consumerIsolation = [],
     sv_accountIsolation = [], sv_shareIsolation = [], sv_idempotency = [], sv_events = [], sv_atomic = [],
     sv_jobIsolation = []\<rparr>"

datatype suite = CrossTenant | PublicProjection | ConsumerIsolation | AccountIsolation | ShareIsolation
  | IdempotencySuite | EventSuite | AtomicCallSuite | JobIsolation

datatype suite_problem =
    ListedTwice suite js_string
  | EdgeListedTwice js_string js_string
  | NotRegistered suite js_string
  | SuiteMissing suite js_string
  | SuiteNotApplicable suite js_string
  | EdgeSuiteMissing js_string js_string
  | EdgeNotDeclared js_string js_string

text \<open>The set of the values, and a problem for each that was there before.\<close>

fun unique_loop :: "('a \<Rightarrow> js_string) \<Rightarrow> ('a \<Rightarrow> 'p) \<Rightarrow> js_string list \<Rightarrow> 'a list \<Rightarrow> js_string list \<times> 'p list" where
  "unique_loop key problem unique [] = (unique, [])"
| "unique_loop key problem unique (v # values) =
     (if key v \<in> set unique
      then (case unique_loop key problem unique values of (u, ps) \<Rightarrow> (u, problem v # ps))
      else unique_loop key problem (unique @ [key v]) values)"

definition uniqueSet :: "suite \<Rightarrow> js_string list \<Rightarrow> js_string list \<times> suite_problem list" where
  "uniqueSet field values = unique_loop (\<lambda>v. v) (ListedTwice field) [] values"

definition edgeKey :: "js_string \<Rightarrow> js_string \<Rightarrow> js_string" where
  "edgeKey caller callee = caller @ CHR 0x00 # callee"

definition uniqueEdges :: "(js_string \<times> js_string) list \<Rightarrow> js_string list \<times> suite_problem list" where
  "uniqueEdges edges =
     unique_loop (\<lambda>(caller, callee). edgeKey caller callee) (\<lambda>(caller, callee). EdgeListedTwice caller callee) [] edges"

definition reportUnknownActions :: "js_string list \<Rightarrow> js_string list \<Rightarrow> suite \<Rightarrow> suite_problem list" where
  "reportUnknownActions listed registered field =
     map (NotRegistered field) (filter (\<lambda>name. name \<notin> set registered) listed)"

definition modulesNeedingEventSuite :: "action_contract list \<Rightarrow> js_string list \<Rightarrow> js_string list" where
  "modulesNeedingEventSuite cs subscriptionActions =
     remdups_first (map (\<lambda>c. moduleOf (ac_name c)) (filter (\<lambda>c. length (ac_emits c) > 0) cs)
       @ map moduleOf subscriptionActions)"

definition collectModeSuiteProblems ::
  "action_contract \<Rightarrow> suite \<Rightarrow> js_string list \<Rightarrow> bool \<Rightarrow> suite_problem list" where
  "collectModeSuiteProblems c field covered applies =
     push_if (applies \<and> ac_name c \<notin> set covered) (SuiteMissing field (ac_name c))
     @ push_if (\<not> applies \<and> ac_name c \<in> set covered) (SuiteNotApplicable field (ac_name c))"

definition needs_idempotency_suite :: "js_string list \<Rightarrow> action_contract \<Rightarrow> bool" where
  "needs_idempotency_suite subscriptionActions c =
     (ac_idempotent c \<and> ac_risk c \<noteq> RiskRead \<and> ac_name c \<notin> set subscriptionActions)"

text \<open>\<open>new Map(contracts.map(c => [c.name, c]))\<close>: the last contract of a name is found.\<close>

definition contracts_by_name :: "action_contract list \<Rightarrow> js_string \<Rightarrow> action_contract option" where
  "contracts_by_name cs = map_of (rev (map (\<lambda>c. (ac_name c, c)) cs))"

definition collectSuiteCoverageProblems ::
  "suite_coverage \<Rightarrow> action_contract list \<Rightarrow> js_string list \<Rightarrow> suite_problem list" where
  "collectSuiteCoverageProblems coverage cs subscriptionActions =
     (let names = map ac_name cs;
          isolation = uniqueSet CrossTenant (sv_isolation coverage);
          publicProjection = uniqueSet PublicProjection (sv_publicProjection coverage);
          consumerIsolation = uniqueSet ConsumerIsolation (sv_consumerIsolation coverage);
          accountIsolation = uniqueSet AccountIsolation (sv_accountIsolation coverage);
          shareIsolation = uniqueSet ShareIsolation (sv_shareIsolation coverage);
          idempotency = uniqueSet IdempotencySuite (sv_idempotency coverage);
          events = uniqueSet EventSuite (sv_events coverage);
          atomic = uniqueEdges (sv_atomic coverage);
          eventModules = modulesNeedingEventSuite cs subscriptionActions
      in snd isolation @ snd publicProjection @ snd consumerIsolation @ snd accountIsolation
         @ snd shareIsolation @ snd idempotency @ snd events @ snd atomic
         @ reportUnknownActions (fst isolation) names CrossTenant
         @ reportUnknownActions (fst publicProjection) names PublicProjection
         @ reportUnknownActions (fst consumerIsolation) names ConsumerIsolation
         @ reportUnknownActions (fst accountIsolation) names AccountIsolation
         @ reportUnknownActions (fst shareIsolation) names ShareIsolation
         @ reportUnknownActions (fst idempotency) names IdempotencySuite
         @ concat (map (\<lambda>c.
             push_if (ac_name c \<notin> set (fst isolation)) (SuiteMissing CrossTenant (ac_name c))
             @ collectModeSuiteProblems c PublicProjection (fst publicProjection)
                 (ac_principal c = Public \<and> ac_publicScope c = Some GlobalProjection)
             @ collectModeSuiteProblems c ConsumerIsolation (fst consumerIsolation) (ac_principal c = Consumer)
             @ collectModeSuiteProblems c AccountIsolation (fst accountIsolation) (ac_principal c = Account)
             @ collectModeSuiteProblems c ShareIsolation (fst shareIsolation) (ac_principal c = Share)
             @ push_if (needs_idempotency_suite subscriptionActions c \<and> ac_name c \<notin> set (fst idempotency))
                 (SuiteMissing IdempotencySuite (ac_name c))
             @ push_if (ac_name c \<in> set (fst idempotency) \<and> (ac_risk c = RiskRead \<or> \<not> ac_idempotent c))
                 (SuiteNotApplicable IdempotencySuite (ac_name c))) cs)
         @ map (SuiteMissing EventSuite) (filter (\<lambda>m. m \<notin> set (fst events)) eventModules)
         @ map (SuiteNotApplicable EventSuite) (filter (\<lambda>m. m \<notin> set eventModules) (fst events))
         @ concat (map (\<lambda>c. map (EdgeSuiteMissing (ac_name c))
             (filter (\<lambda>callee. edgeKey (ac_name c) callee \<notin> set (fst atomic)) (ac_atomicCalls c))) cs)
         @ concat (map (\<lambda>(caller, callee).
             push_if (case contracts_by_name cs caller of
                 None \<Rightarrow> True
               | Some c \<Rightarrow> callee \<notin> set (ac_atomicCalls c)) (EdgeNotDeclared caller callee))
             (sv_atomic coverage)))"

section \<open>Jobs\<close>

datatype job_check_problem =
    DuplicateJob js_string
  | EnqueuesForeignJob js_string js_string
  | EnqueuesPeriodicJob js_string js_string
  | OnExhaustedNotWrite js_string js_string
  | OnExhaustedOtherScope js_string js_string
  | JobSuiteTwice js_string
  | JobSuiteWithoutJob js_string
  | JobSuiteMissing js_string

text \<open>The first definition of a name stays, in the order of the definitions.\<close>

fun jobs_loop :: "job list \<Rightarrow> job list \<Rightarrow> job list \<times> job_check_problem list" where
  "jobs_loop known [] = (known, [])"
| "jobs_loop known (j # js) =
     (if jd_name j \<in> jd_name ` set known
      then (case jobs_loop known js of (k, ps) \<Rightarrow> (k, DuplicateJob (jd_name j) # ps))
      else jobs_loop (known @ [j]) js)"

definition job_named :: "job list \<Rightarrow> js_string \<Rightarrow> job option" where
  "job_named jobs' name = find (\<lambda>j. jd_name j = name) jobs'"

definition collectEnqueueProblems :: "action_contract \<Rightarrow> job option \<Rightarrow> js_string \<Rightarrow> job_check_problem list" where
  "collectEnqueueProblems c found jobName =
     (case found of
        None \<Rightarrow> [EnqueuesForeignJob (ac_name c) jobName]
      | Some j \<Rightarrow>
          if moduleOf (jd_name j) \<noteq> moduleOf (ac_name c) then [EnqueuesForeignJob (ac_name c) jobName]
          else push_if (jd_lifecycle j = Periodic) (EnqueuesPeriodicJob (ac_name c) jobName))"

definition collectOnExhaustedProblems ::
  "job \<Rightarrow> (js_string \<Rightarrow> action_contract option) \<Rightarrow> job_check_problem list" where
  "collectOnExhaustedProblems j contractsByName =
     (let actionName = (case jd_onExhausted j of None \<Rightarrow> [] | Some n \<Rightarrow> n) in
      case contractsByName actionName of
        None \<Rightarrow> [OnExhaustedNotWrite (jd_name j) actionName]
      | Some action \<Rightarrow>
          if moduleOf (ac_name action) \<noteq> moduleOf (jd_name j) \<or> ac_principal action \<noteq> System
            \<or> ac_risk action = RiskRead
          then [OnExhaustedNotWrite (jd_name j) actionName]
          else push_if (ac_systemScope action \<noteq> Some (jd_scope j)) (OnExhaustedOtherScope (jd_name j) actionName))"

definition collectJobIsolationCoverageProblems :: "job list \<Rightarrow> js_string list \<Rightarrow> job_check_problem list" where
  "collectJobIsolationCoverageProblems jobs' coverage =
     (let jobModules = remdups_first (map (\<lambda>j. moduleOf (jd_name j)) jobs') in
      concat (map (\<lambda>(i, m).
          if m \<in> set (take i coverage) then [JobSuiteTwice m]
          else push_if (m \<notin> set jobModules) (JobSuiteWithoutJob m)) (enumerate 0 coverage))
      @ map JobSuiteMissing (filter (\<lambda>m. m \<notin> set coverage) jobModules))"

definition collectJobProblems ::
  "job list \<Rightarrow> action_contract list \<Rightarrow> js_string list \<Rightarrow> job_check_problem list" where
  "collectJobProblems jobs' cs jobIsolationCoverage =
     (case jobs_loop [] jobs' of (known, duplicates) \<Rightarrow>
        duplicates
        @ concat (map (\<lambda>c. concat (map (\<lambda>jobName. collectEnqueueProblems c (job_named known jobName) jobName)
            (case ac_enqueues c of None \<Rightarrow> [] | Some names \<Rightarrow> names))) cs)
        @ concat (map (\<lambda>j. if jd_lifecycle j = Expires then collectOnExhaustedProblems j (contracts_by_name cs) else [])
            known)
        @ collectJobIsolationCoverageProblems known jobIsolationCoverage)"

section \<open>Write previews\<close>

definition collectWritePreviewProblems :: "implemented_action list \<Rightarrow> js_string list" where
  "collectWritePreviewProblems implementations =
     (let exposed = map ac_name (deriveAiToolSources (map (\<lambda>i. co_contract (ia_contract i)) implementations)) in
      map (\<lambda>i. ac_name (co_contract (ia_contract i)))
        (filter (\<lambda>i. ac_name (co_contract (ia_contract i)) \<in> set exposed
           \<and> isConfirmableRisk (ac_risk (co_contract (ia_contract i))) \<and> \<not> cb_preview (ia_callbacks i)) implementations))"

section \<open>What the checks accept\<close>

lemma unique_loop_fst: "set (fst (unique_loop key p u vs)) = set u \<union> key ` set vs"
  by (induction vs arbitrary: u) (simp_all add: case_prod_beta insert_absorb)

lemma unique_loop_snd: "snd (unique_loop key p u vs) = [] \<longleftrightarrow> distinct (map key vs) \<and> key ` set vs \<inter> set u = {}"
  by (induction vs arbitrary: u) (simp_all add: case_prod_beta, blast)

lemma jobs_loop_snd: "snd (jobs_loop known js) = [] \<longleftrightarrow>
    distinct (map jd_name js) \<and> jd_name ` set js \<inter> jd_name ` set known = {}"
  by (induction js arbitrary: known) (simp_all add: case_prod_beta, blast)

lemma jobs_loop_all: "snd (jobs_loop known js) = [] \<Longrightarrow> fst (jobs_loop known js) = known @ js"
  by (induction js arbitrary: known) (simp_all add: case_prod_beta split: if_splits)

end
