(* ===== verification/Surface_Check.thy ===== *)
theory Surface_Check
  imports Coverage_Check
begin

text \<open>
  The check of the bindings of the assistant's result surfaces (\<open>contract-check/assistant-surfaces.ts\<close>)
  with the edit distance that picks the name to suggest. The two arrays of the distance are lists;
  every cell that the code reads was written before, so its defaults for absent cells do not occur.
  The distance is proved to be the length of a shortest chain of one-character edits.
\<close>

section \<open>The edit distance\<close>

text \<open>The cells of a row after its first one: \<open>left\<close> is the cell to the left, \<open>p\<close> and \<open>q\<close> the ones above.\<close>

fun distance_cells :: "char \<Rightarrow> nat \<Rightarrow> nat list \<Rightarrow> js_string \<Rightarrow> nat list" where
  "distance_cells leftChar cell (p # q # previous) (c # right) =
     (let substitution = (if leftChar = c then 0 else 1);
          deletion = q + 1; insertion = cell + 1; swap = p + substitution;
          current = min deletion (min insertion swap)
      in current # distance_cells leftChar current (q # previous) right)"
| "distance_cells leftChar cell _ _ = []"

definition distance_row :: "js_string \<Rightarrow> nat \<times> nat list \<Rightarrow> char \<Rightarrow> nat \<times> nat list" where
  "distance_row right state leftChar =
     (case state of (row, previous) \<Rightarrow> (row + 1, row # distance_cells leftChar row previous right))"

definition levenshtein :: "js_string \<Rightarrow> js_string \<Rightarrow> nat" where
  "levenshtein left right =
     (if left = right then 0
      else if length left = 0 then length right
      else if length right = 0 then length left
      else snd (foldl (distance_row right) (1, [0..<length right + 1]) left) ! length right)"

section \<open>Names\<close>

definition nearest_step :: "js_string \<Rightarrow> (js_string \<times> nat) option \<Rightarrow> js_string \<Rightarrow> (js_string \<times> nat) option" where
  "nearest_step query best candidate =
     (let distance = levenshtein query candidate in
      case best of
        None \<Rightarrow> Some (candidate, distance)
      | Some (b, bestDistance) \<Rightarrow>
          if distance < bestDistance \<or> (distance = bestDistance \<and> candidate < b)
          then Some (candidate, distance) else best)"

definition nearestName :: "js_string \<Rightarrow> js_string list \<Rightarrow> js_string option" where
  "nearestName query candidates = map_option fst (foldl (nearest_step query) None candidates)"

definition toProviderToolName :: "js_string \<Rightarrow> js_string" where
  "toProviderToolName actionName = map (\<lambda>c. if c = CHR ''.'' then CHR ''_'' else c) actionName"

definition validToolNames :: "action_contract list \<Rightarrow> js_string list \<Rightarrow> js_string list" where
  "validToolNames exposed facadeToolNames =
     remdups_first (concat (map (\<lambda>c. [ac_name c, toProviderToolName (ac_name c)]) exposed) @ facadeToolNames)"

section \<open>The check\<close>

record surface_binding =
  sf_kind :: js_string
  sf_actionNames :: "js_string list"
  sf_toolNames :: "js_string list"

text \<open>A problem carries the name it suggests.\<close>

datatype surface_problem =
    UnknownAction js_string js_string "js_string option"
  | NotExposedAction js_string js_string ai_exposure "js_string option"
  | UnknownTool js_string js_string "js_string option"

definition unknownActionProblem :: "js_string \<Rightarrow> js_string \<Rightarrow> js_string list \<Rightarrow> surface_problem" where
  "unknownActionProblem kind actionName registeredNames =
     UnknownAction kind actionName (nearestName actionName registeredNames)"

definition notExposedActionProblem ::
  "js_string \<Rightarrow> js_string \<Rightarrow> action_contract \<Rightarrow> js_string list \<Rightarrow> surface_problem" where
  "notExposedActionProblem kind actionName contract exposedNames =
     NotExposedAction kind actionName (ac_aiExposure contract) (nearestName actionName exposedNames)"

definition unknownToolProblem :: "js_string \<Rightarrow> js_string \<Rightarrow> js_string list \<Rightarrow> surface_problem" where
  "unknownToolProblem kind toolName knownToolNames = UnknownTool kind toolName (nearestName toolName knownToolNames)"

definition collectAssistantSurfaceBindingProblems ::
  "action_contract list \<Rightarrow> surface_binding list \<Rightarrow> js_string list \<Rightarrow> surface_problem list" where
  "collectAssistantSurfaceBindingProblems cs surfaces facadeToolNames =
     (let exposed = deriveAiToolSources cs;
          exposedNames = map ac_name exposed;
          registeredNames = map ac_name cs;
          knownTools = validToolNames exposed facadeToolNames
      in concat (map (\<lambda>surface.
          concat (map (\<lambda>actionName.
            case contracts_by_name cs actionName of
              None \<Rightarrow> [unknownActionProblem (sf_kind surface) actionName registeredNames]
            | Some contract \<Rightarrow>
                push_if (actionName \<notin> set exposedNames)
                  (notExposedActionProblem (sf_kind surface) actionName contract exposedNames))
            (sf_actionNames surface))
          @ map (\<lambda>toolName. unknownToolProblem (sf_kind surface) toolName knownTools)
              (filter (\<lambda>toolName. toolName \<notin> set knownTools) (sf_toolNames surface))) surfaces))"

section \<open>The distance is the shortest chain of edits\<close>

text \<open>One edit inserts, deletes or replaces one character somewhere.\<close>

inductive edit1 :: "js_string \<Rightarrow> js_string \<Rightarrow> bool" where
  insertion: "edit1 (u @ v) (u @ c # v)"
| deletion: "edit1 (u @ c # v) (u @ v)"
| replacement: "edit1 (u @ c # v) (u @ d # v)"

text \<open>Alignments of two strings and their cost.\<close>

inductive align :: "nat \<Rightarrow> js_string \<Rightarrow> js_string \<Rightarrow> bool" where
  align_Nil: "align 0 [] []"
| align_keep: "align n xs ys \<Longrightarrow> align n (xs @ [c]) (ys @ [c])"
| align_replace: "align n xs ys \<Longrightarrow> align (Suc n) (xs @ [c]) (ys @ [d])"
| align_insert: "align n xs ys \<Longrightarrow> align (Suc n) xs (ys @ [d])"
| align_delete: "align n xs ys \<Longrightarrow> align (Suc n) (xs @ [c]) ys"

lemma align_append: "align m xs' ys' \<Longrightarrow> align n xs ys \<Longrightarrow> align (n + m) (xs @ xs') (ys @ ys')"
  by (induction rule: align.induct) (auto simp flip: append_assoc intro: align.intros)

lemma align_refl: "align 0 xs xs"
  by (induction xs rule: rev_induct) (auto intro: align.intros)

lemma align_single: "align 1 [c] [d]" "align 1 [] [d]" "align 1 [c] []"
  using align_replace [OF align_Nil] align_insert [OF align_Nil] align_delete [OF align_Nil] by simp_all

lemma edit1_align: "edit1 xs ys \<Longrightarrow> align 1 xs ys"
proof (induction rule: edit1.induct)
  case (insertion u v c)
  have "align (0 + (1 + 0)) (u @ [] @ v) (u @ [c] @ v)" by (intro align_append align_refl align_single)
  then show ?case by simp
next
  case (deletion u c v)
  have "align (0 + (1 + 0)) (u @ [c] @ v) (u @ [] @ v)" by (intro align_append align_refl align_single)
  then show ?case by simp
next
  case (replacement u c v d)
  have "align (0 + (1 + 0)) (u @ [c] @ v) (u @ [d] @ v)" by (intro align_append align_refl align_single)
  then show ?case by simp
qed

lemma align_deletes: "align (length xs) xs []"
  by (induction xs rule: rev_induct) (auto intro: align.intros)

lemma align_split:
  "align n xs ys \<Longrightarrow> ys = us @ vs \<Longrightarrow>
     \<exists>xs1 xs2 n1 n2. xs = xs1 @ xs2 \<and> n = n1 + n2 \<and> align n1 xs1 us \<and> align n2 xs2 vs"
proof (induction arbitrary: vs rule: align.induct)
  case align_Nil
  then show ?case using align.align_Nil by (metis add_0 append_is_Nil_conv self_append_conv)
next
  case (align_keep n xs ys c)
  show ?case
  proof (cases vs rule: rev_cases)
    case Nil
    then show ?thesis using align.align_keep [OF align_keep.hyps] align_keep.prems align.align_Nil
      by (metis add_0_right append_Nil2)
  next
    case (snoc vs' d)
    then obtain xs1 xs2 n1 n2 where "xs = xs1 @ xs2" "n = n1 + n2" "align n1 xs1 us" "align n2 xs2 vs'"
      using align_keep by auto
    then show ?thesis using snoc align_keep.prems align.align_keep [of n2 xs2 vs' c]
      by (intro exI [of _ xs1] exI [of _ "xs2 @ [c]"] exI [of _ n1] exI [of _ n2]) auto
  qed
next
  case (align_replace n xs ys c d)
  show ?case
  proof (cases vs rule: rev_cases)
    case Nil
    then show ?thesis using align.align_replace [OF align_replace.hyps] align_replace.prems align.align_Nil
      by (metis add_0_right append_Nil2)
  next
    case (snoc vs' e)
    then obtain xs1 xs2 n1 n2 where "xs = xs1 @ xs2" "n = n1 + n2" "align n1 xs1 us" "align n2 xs2 vs'"
      using align_replace by auto
    then show ?thesis using snoc align_replace.prems align.align_replace [of n2 xs2 vs' c d]
      by (intro exI [of _ xs1] exI [of _ "xs2 @ [c]"] exI [of _ n1] exI [of _ "Suc n2"]) auto
  qed
next
  case (align_insert n xs ys d)
  show ?case
  proof (cases vs rule: rev_cases)
    case Nil
    then show ?thesis using align.align_insert [OF align_insert.hyps] align_insert.prems align.align_Nil
      by (metis add_0_right append_Nil2)
  next
    case (snoc vs' e)
    then obtain xs1 xs2 n1 n2 where "xs = xs1 @ xs2" "n = n1 + n2" "align n1 xs1 us" "align n2 xs2 vs'"
      using align_insert by auto
    then show ?thesis using snoc align_insert.prems align.align_insert [of n2 xs2 vs' d]
      by (intro exI [of _ xs1] exI [of _ xs2] exI [of _ n1] exI [of _ "Suc n2"]) auto
  qed
next
  case (align_delete n xs ys c)
  then obtain xs1 xs2 n1 n2 where "xs = xs1 @ xs2" "n = n1 + n2" "align n1 xs1 us" "align n2 xs2 vs" by blast
  then show ?case using align.align_delete [of n2 xs2 vs c]
    by (intro exI [of _ xs1] exI [of _ "xs2 @ [c]"] exI [of _ n1] exI [of _ "Suc n2"]) auto
qed

lemma align_drop_last: "align n xs ys \<Longrightarrow> ys = us @ [c] \<Longrightarrow> \<exists>m \<le> Suc n. align m xs us"
proof (induction rule: align.induct)
  case (align_delete n xs ys d)
  then show ?case by (meson Suc_le_mono align.align_delete)
qed (auto intro: align.intros le_SucI)

lemma align_change_last: "align n xs ys \<Longrightarrow> ys = us @ [c] \<Longrightarrow> \<exists>m \<le> Suc n. align m xs (us @ [d])"
proof (induction rule: align.induct)
  case (align_delete n xs ys e)
  then show ?case by (meson Suc_le_mono align.align_delete)
qed (auto intro: align.intros le_SucI)

lemma align_edit1:
  assumes "align n xs ys" and "edit1 ys zs"
  shows "\<exists>m \<le> Suc n. align m xs zs"
proof -
  have step: "\<exists>m \<le> Suc n. align m xs (us' @ v)"
    if whole: "align n xs (us @ v)" and change: "\<And>n xs. align n xs us \<Longrightarrow> \<exists>m \<le> Suc n. align m xs us'" for us us' v
  proof -
    obtain xs1 xs2 n1 n2 where parts: "xs = xs1 @ xs2" "n = n1 + n2" "align n1 xs1 us" "align n2 xs2 v"
      using align_split [OF whole refl] by blast
    obtain m where "m \<le> Suc n1" "align m xs1 us'" using change [OF parts(3)] by blast
    then show ?thesis using align_append [OF parts(4)] parts(1,2) by (intro exI [of _ "m + n2"]) auto
  qed
  show ?thesis using assms(2,1)
  proof (induction rule: edit1.induct)
    case (insertion u v c)
    have "\<exists>m \<le> Suc n. align m xs (u @ [c])" if "align n xs u" for n xs using align_insert [OF that] by blast
    then show ?case using step [of u v "u @ [c]"] insertion by simp
  next
    case (deletion u c v)
    show ?case using step [of "u @ [c]" v u] align_drop_last [OF _ refl] deletion by auto
  next
    case (replacement u c v d)
    show ?case using step [of "u @ [c]" v "u @ [d]"] align_change_last [OF _ refl] replacement by auto
  qed
qed

lemma edits_align: "(edit1 ^^ n) xs ys \<Longrightarrow> \<exists>m \<le> n. align m xs ys"
proof (induction n arbitrary: ys)
  case 0
  then show ?case using align_refl by auto
next
  case (Suc n)
  then obtain zs where "(edit1 ^^ n) xs zs" "edit1 zs ys" by auto
  moreover obtain m where "m \<le> n" "align m xs zs" using Suc.IH calculation(1) by blast
  ultimately show ?case using align_edit1 [of m xs zs ys] by (meson Suc_le_mono le_trans)
qed

lemma edit1_snoc: "edit1 xs ys \<Longrightarrow> edit1 (xs @ [c]) (ys @ [c])"
  by (induction rule: edit1.induct) (use edit1.intros in \<open>auto simp: append_assoc\<close>)

lemma edits_snoc: "(edit1 ^^ n) xs ys \<Longrightarrow> (edit1 ^^ n) (xs @ [c]) (ys @ [c])"
  by (induction n arbitrary: ys) (auto dest: edit1_snoc)

lemma align_edits: "align n xs ys \<Longrightarrow> \<exists>m \<le> n. (edit1 ^^ m) xs ys"
proof (induction rule: align.induct)
  case align_Nil
  show ?case by (intro exI [of _ 0]) simp
next
  case (align_keep n xs ys c)
  then show ?case using edits_snoc by blast
next
  case (align_replace n xs ys c d)
  then obtain m where "m \<le> n" "(edit1 ^^ m) (xs @ [c]) (ys @ [c])" using edits_snoc by blast
  moreover have "edit1 (ys @ [c]) (ys @ [d])" using replacement [of ys c "[]" d] by simp
  ultimately show ?case by (intro exI [of _ "Suc m"]) auto
next
  case (align_insert n xs ys d)
  then obtain m where "m \<le> n" "(edit1 ^^ m) xs ys" by blast
  moreover have "edit1 ys (ys @ [d])" using insertion [of ys "[]" d] by simp
  ultimately show ?case by (intro exI [of _ "Suc m"]) auto
next
  case (align_delete n xs ys c)
  then obtain m where "m \<le> n" "(edit1 ^^ m) (xs @ [c]) (ys @ [c])" using edits_snoc by blast
  moreover have "edit1 (ys @ [c]) ys" using deletion [of ys c "[]"] by simp
  ultimately show ?case by (intro exI [of _ "Suc m"]) auto
qed

text \<open>The recurrence of the table, over reversed prefixes.\<close>

fun table :: "js_string \<Rightarrow> js_string \<Rightarrow> nat" where
  "table [] ys = length ys"
| "table xs [] = length xs"
| "table (x # xs) (y # ys) =
     min (table xs (y # ys) + 1) (min (table (x # xs) ys + 1) (table xs ys + (if x = y then 0 else 1)))"

lemma table_align: "align (table xs ys) (rev xs) (rev ys)"
proof (induction xs ys rule: table.induct)
  case (1 ys)
  show ?case by (induction ys) (auto intro: align.intros)
next
  case (2 x xs)
  show ?case using align_deletes [of "rev (x # xs)"] by simp
next
  case (3 x xs y ys)
  then show ?case using align_keep [of "table xs ys" "rev xs" "rev ys" x]
    by (auto simp: min_def intro: align_replace align_insert align_delete)
qed

lemma table_bounds:
  "table (x # xs) ys \<le> table xs ys + 1" "table xs (y # ys) \<le> table xs ys + 1"
  "table (x # xs) (x # ys) \<le> table xs ys" "table (x # xs) (y # ys) \<le> table xs ys + 1"
  by (cases ys; simp add: min_le_iff_disj) (cases xs; simp add: min_le_iff_disj)+

lemma table_least: "align n xs ys \<Longrightarrow> table (rev xs) (rev ys) \<le> n"
proof (induction rule: align.induct)
  case (align_keep n xs ys c)
  then show ?case using table_bounds(3) [of c "rev xs" "rev ys"] by (simp only: rev_append rev.simps append.simps)
next
  case (align_replace n xs ys c d)
  then show ?case using table_bounds(4) [of c "rev xs" d "rev ys"] by (simp del: table.simps)
next
  case (align_insert n xs ys d)
  then show ?case using table_bounds(2) [of "rev xs" d "rev ys"] by (simp del: table.simps)
next
  case (align_delete n xs ys c)
  then show ?case using table_bounds(1) [of c "rev xs" "rev ys"] by (simp del: table.simps)
qed simp

text \<open>The rows that the loop keeps are rows of the table.\<close>

fun table_row :: "js_string \<Rightarrow> js_string \<Rightarrow> js_string \<Rightarrow> nat list" where
  "table_row xs r [] = [table xs r]"
| "table_row xs r (y # ys) = table xs r # table_row xs (y # r) ys"

lemma table_row_Cons: "table_row xs r ys = table xs r # tl (table_row xs r ys)"
  by (cases ys) simp_all

lemma distance_cells_row: "distance_cells x (table (x # xs) r) (table_row xs r ys) ys = tl (table_row (x # xs) r ys)"
proof (induction ys arbitrary: r)
  case (Cons y ys)
  have "min (table xs (y # r) + 1) (min (table (x # xs) r + 1) (table xs r + (if x = y then 0 else 1))) = table (x # xs) (y # r)"
    by simp
  moreover have "table_row xs r (y # ys) = table xs r # table xs (y # r) # tl (table_row xs (y # r) ys)"
    using table_row_Cons [of xs "y # r" ys] by simp
  moreover have "distance_cells x (table (x # xs) (y # r)) (table xs (y # r) # tl (table_row xs (y # r) ys)) ys
      = tl (table_row (x # xs) (y # r) ys)"
    using Cons.IH [of "y # r"] table_row_Cons [of xs "y # r" ys] by simp
  ultimately show ?case using table_row_Cons [of "x # xs" "y # r" ys]
    by (simp only: distance_cells.simps Let_def table_row.simps list.sel)
qed simp

lemma distance_row_table: "distance_row right (length xs + 1, table_row xs [] right) x
    = (length (x # xs) + 1, table_row (x # xs) [] right)"
  using distance_cells_row [of x xs "[]" right] table_row_Cons [of "x # xs" "[]" right]
  by (simp add: distance_row_def)

lemma distance_rows_table: "foldl (distance_row right) (length xs + 1, table_row xs [] right) left
    = (length left + length xs + 1, table_row (rev left @ xs) [] right)"
proof (induction left arbitrary: xs)
  case (Cons c left)
  then show ?case using Cons.IH [of "c # xs"] distance_row_table [of right xs c] by simp
qed simp

lemma table_row_first: "table_row [] r ys = [length r..<length r + length ys + 1]"
proof (induction ys arbitrary: r)
  case (Cons y ys)
  have "[length r..<length r + length (y # ys) + 1] = length r # [length (y # r)..<length (y # r) + length ys + 1]"
    by (simp add: upt_rec [of "length r"] del: upt_Suc)
  then show ?case using Cons.IH [of "y # r"] by (simp only: table_row.simps table.simps)
qed simp

lemma table_row_last: "table_row xs r ys ! length ys = table xs (rev ys @ r)"
  by (induction ys arbitrary: r) simp_all

lemma levenshtein_table: "levenshtein left right = table (rev left) (rev right)"
proof -
  have "table (rev left) (rev left) = 0" using table_least [OF align_refl, of left] by simp
  moreover have "table xs [] = length xs" for xs by (cases xs) simp_all
  moreover have "snd (foldl (distance_row right) (1, [0..<length right + 1]) left) ! length right = table (rev left) (rev right)"
    using distance_rows_table [of right "[]" left] table_row_last [of "rev left" "[]" right] table_row_first [of "[]" right] by simp
  ultimately show ?thesis unfolding levenshtein_def by (cases "left = right") simp_all
qed

lemma levenshtein_least:
  "(edit1 ^^ levenshtein left right) left right" "(edit1 ^^ n) left right \<Longrightarrow> levenshtein left right \<le> n"
proof -
  have least: "levenshtein left right \<le> n" if "(edit1 ^^ n) left right" for n
    using edits_align [OF that] table_least [of _ left right] by (auto simp: levenshtein_table intro: le_trans)
  obtain m where "m \<le> levenshtein left right" "(edit1 ^^ m) left right"
    using align_edits [OF table_align [of "rev left" "rev right"]] by (auto simp: levenshtein_table)
  with least [of m] show "(edit1 ^^ levenshtein left right) left right" by (simp add: le_antisym)
  show "(edit1 ^^ n) left right \<Longrightarrow> levenshtein left right \<le> n" by (rule least)
qed

section \<open>The suggested name is the nearest\<close>

lemma nearest_fold:
  assumes "b0 = None \<longrightarrow> seen = {}"
    and "\<forall>b d. b0 = Some (b, d) \<longrightarrow> b \<in> seen \<and> d = levenshtein q b
      \<and> (\<forall>c \<in> seen. d < levenshtein q c \<or> d = levenshtein q c \<and> b \<le> c)"
  shows "(foldl (nearest_step q) b0 cs = None \<longleftrightarrow> seen \<union> set cs = {})
    \<and> (\<forall>b d. foldl (nearest_step q) b0 cs = Some (b, d) \<longrightarrow> b \<in> seen \<union> set cs \<and> d = levenshtein q b
      \<and> (\<forall>c \<in> seen \<union> set cs. d < levenshtein q c \<or> d = levenshtein q c \<and> b \<le> c))"
  using assms
proof (induction cs arbitrary: b0 seen)
  case Nil
  then show ?case by (cases b0) auto
next
  case (Cons c cs)
  let ?b1 = "nearest_step q b0 c"
  have "(?b1 = None \<longrightarrow> insert c seen = {})
    \<and> (\<forall>b d. ?b1 = Some (b, d) \<longrightarrow> b \<in> insert c seen \<and> d = levenshtein q b
      \<and> (\<forall>x \<in> insert c seen. d < levenshtein q x \<or> d = levenshtein q x \<and> b \<le> x))"
  proof (cases b0)
    case None
    then show ?thesis using Cons.prems(1) by (simp add: nearest_step_def Let_def)
  next
    case (Some p)
    obtain b d where p: "p = (b, d)" by (cases p)
    have best: "b \<in> seen" "d = levenshtein q b" "\<forall>x \<in> seen. d < levenshtein q x \<or> d = levenshtein q x \<and> b \<le> x"
      using Cons.prems(2) Some p by auto
    show ?thesis
    proof (cases "levenshtein q c < d \<or> levenshtein q c = d \<and> c < b")
      case True
      then have "?b1 = Some (c, levenshtein q c)" using Some p by (simp add: nearest_step_def Let_def)
      moreover have "levenshtein q c < levenshtein q x \<or> levenshtein q c = levenshtein q x \<and> c \<le> x" if "x \<in> seen" for x
        using best(3) that True by fastforce
      ultimately show ?thesis by simp
    next
      case False
      then have "?b1 = Some (b, d)" using Some p by (auto simp: nearest_step_def Let_def)
      moreover have "d < levenshtein q c \<or> d = levenshtein q c \<and> b \<le> c" using False by (metis not_less linorder_neqE_nat)
      ultimately show ?thesis using best by auto
    qed
  qed
  from Cons.IH [OF conjunct1 [OF this] conjunct2 [OF this]] show ?case by simp
qed

text \<open>
  C24: the suggestion is the nearest name. The table-filling distance is the length of a shortest chain
  of one-character insertions, deletions and replacements; a name is suggested whenever there is a
  candidate, no candidate is nearer, and among the nearest ones it is the first in the order of strings.
\<close>

theorem suggestion_is_nearest:
  "(edit1 ^^ levenshtein left right) left right \<and> (\<forall>n < levenshtein left right. \<not> (edit1 ^^ n) left right)
   \<and> (nearestName query candidates = None \<longleftrightarrow> candidates = [])
   \<and> (\<forall>best. nearestName query candidates = Some best \<longrightarrow> best \<in> set candidates
        \<and> (\<forall>c \<in> set candidates. levenshtein query best < levenshtein query c
              \<or> levenshtein query best = levenshtein query c \<and> best \<le> c))"
proof (intro conjI)
  show "(edit1 ^^ levenshtein left right) left right" by (rule levenshtein_least(1))
  show "\<forall>n < levenshtein left right. \<not> (edit1 ^^ n) left right" using levenshtein_least(2) by (meson not_less)
  note nearest = nearest_fold [of None "{}" query candidates, simplified]
  show "nearestName query candidates = None \<longleftrightarrow> candidates = []"
    using nearest by (simp add: nearestName_def)
  show "\<forall>best. nearestName query candidates = Some best \<longrightarrow> best \<in> set candidates
        \<and> (\<forall>c \<in> set candidates. levenshtein query best < levenshtein query c
              \<or> levenshtein query best = levenshtein query c \<and> best \<le> c)"
    using nearest unfolding nearestName_def by (auto simp: map_option_case split: option.splits)
qed

theorem suggestion_is_nearest_witness:
  "\<exists>best. nearestName ''orders.confrim'' [''orders.create'', ''orders.confirm''] = Some best
     \<and> best \<in> {''orders.create'', ''orders.confirm''}
     \<and> levenshtein ''orders.confrim'' best \<le> levenshtein ''orders.confrim'' ''orders.confirm''"
proof -
  let ?cs = "[''orders.create'', ''orders.confirm'']"
  note nearest = suggestion_is_nearest [of "[]" "[]" "''orders.confrim''" ?cs]
  have "nearestName ''orders.confrim'' ?cs \<noteq> None" using nearest by blast
  then obtain best where best: "nearestName ''orders.confrim'' ?cs = Some best" by blast
  then have "best \<in> set ?cs" "\<forall>c \<in> set ?cs. levenshtein ''orders.confrim'' best < levenshtein ''orders.confrim'' c
      \<or> levenshtein ''orders.confrim'' best = levenshtein ''orders.confrim'' c \<and> best \<le> c"
    using nearest by blast+
  then have "best \<in> {''orders.create'', ''orders.confirm''}"
    "levenshtein ''orders.confrim'' best \<le> levenshtein ''orders.confrim'' ''orders.confirm''" by force+
  then show ?thesis using best by blast
qed

end
