(* ===== verification/Provenance_Check.thy ===== *)
theory Provenance_Check
  imports Surface_Check
begin

text \<open>
  The check that an exposed create writes a table with provenance columns
  (\<open>contract-check/record-provenance.ts\<close>): the entity stem of an action name, the resolution of its
  table in the schema catalog, and the gaps of that table. The operator \<open>in\<close> also finds the keys that
  every object inherits, so an excluded module and an alias have an inherited case.
\<close>

section \<open>Tables of names\<close>

definition RECORD_PROVENANCE_CREATE_EXCLUSIONS :: "js_string list" where
  "RECORD_PROVENANCE_CREATE_EXCLUSIONS = [''companies'', ''files'']"

definition RECORD_PROVENANCE_PHYSICAL_TABLE_ALIASES :: "(js_string \<times> js_string) list" where
  "RECORD_PROVENANCE_PHYSICAL_TABLE_ALIASES =
     [(''customers'', ''company_customers''), (''invites'', ''company_customer_invites'')]"

definition CREATE_FROM_PREFIX :: js_string where
  "CREATE_FROM_PREFIX = ''createFrom''"

definition REQUIRED_COLUMNS :: "js_string list" where
  "REQUIRED_COLUMNS = [''created_via'', ''vouched_by'', ''vouched_at'']"

definition RECORD_CREATED_VIA_CHANNELS :: "js_string list" where
  "RECORD_CREATED_VIA_CHANNELS = [''ui'', ''ai'', ''system'', ''webhook'', ''sho-ai'']"

text \<open>The keys of \<open>Object.prototype\<close>.\<close>

definition inherited_keys :: "js_string list" where
  "inherited_keys = [''constructor'', ''__defineGetter__'', ''__defineSetter__'', ''hasOwnProperty'',
     ''__lookupGetter__'', ''__lookupSetter__'', ''isPrototypeOf'', ''propertyIsEnumerable'', ''toString'',
     ''valueOf'', ''__proto__'', ''toLocaleString'']"

text \<open>The value under a key: an own string, or something inherited that is no string.\<close>

datatype table_name = Named js_string | Inherited js_string

definition js_get :: "(js_string \<times> js_string) list \<Rightarrow> js_string \<Rightarrow> table_name option" where
  "js_get obj key =
     (case map_of obj key of
        Some v \<Rightarrow> Some (Named v)
      | None \<Rightarrow> if key \<in> set inherited_keys then Some (Inherited key) else None)"

section \<open>Schema catalog\<close>

record schema_table =
  tb_name :: js_string
  tb_owner :: js_string
  tb_columns :: "(js_string \<times> bool) list"
  tb_checks :: "(js_string \<times> js_string) list"

section \<open>Stems\<close>

definition starts_with :: "js_string \<Rightarrow> js_string \<Rightarrow> bool" where
  "starts_with p s = (take (length p) s = p)"

definition ends_with :: "js_string \<Rightarrow> js_string \<Rightarrow> bool" where
  "ends_with e s = starts_with (rev e) (rev s)"

definition js_includes :: "js_string \<Rightarrow> js_string \<Rightarrow> bool" where
  "js_includes p s = list_ex (\<lambda>k. starts_with p (drop k s)) [0..<length s + 1]"

definition actionVerb :: "js_string \<Rightarrow> js_string" where
  "actionVerb name =
     (if CHR ''.'' \<in> set name then drop (Suc (length (takeWhile (\<lambda>c. c \<noteq> CHR ''.'') name))) name else name)"

definition isCreateVerb :: "js_string \<Rightarrow> bool" where
  "isCreateVerb verb =
     (verb = ''create''
      \<or> (starts_with ''create'' verb \<and> (case drop 6 verb of [] \<Rightarrow> False | c # _ \<Rightarrow> is_upper c)))"

definition isWriteRisk :: "action_contract \<Rightarrow> bool" where
  "isWriteRisk c = (ac_risk c = RiskWrite \<or> ac_risk c = RiskHigh)"

definition isExcludedModule :: "js_string \<Rightarrow> bool" where
  "isExcludedModule moduleName =
     (moduleName \<in> set RECORD_PROVENANCE_CREATE_EXCLUSIONS \<or> moduleName \<in> set inherited_keys)"

definition camelToSnake :: "js_string \<Rightarrow> js_string" where
  "camelToSnake value' = concat (map (\<lambda>c. if is_upper c then [CHR ''_'', to_lower c] else [c]) value')"

definition vowel :: "char \<Rightarrow> bool" where
  "vowel c = (to_lower c \<in> set ''aeiou'')"

definition pluralize :: "js_string \<Rightarrow> js_string" where
  "pluralize stem =
     (if ends_with ''s'' stem then stem
      else if ends_with ''y'' stem \<and> \<not> (case rev stem of _ # c # _ \<Rightarrow> vowel c | _ \<Rightarrow> False)
      then butlast stem @ ''ies''
      else stem @ ''s'')"

definition entityStemForCreateAction :: "js_string \<Rightarrow> js_string option" where
  "entityStemForCreateAction actionName =
     (let verb = actionVerb actionName in
      if \<not> isCreateVerb verb then None
      else if verb = ''create'' then Some (moduleOf actionName)
      else if starts_with CREATE_FROM_PREFIX verb
        \<and> (case drop (length CREATE_FROM_PREFIX) verb of [] \<Rightarrow> False | c # _ \<Rightarrow> is_upper c)
      then Some (moduleOf actionName)
      else case drop 6 verb of
        [] \<Rightarrow> Some (moduleOf actionName)
      | first # rest \<Rightarrow> Some (camelToSnake (to_lower first # rest)))"

section \<open>Resolution\<close>

datatype table_resolution =
    FoundTable schema_table
  | MissingTable
  | AmbiguousTables "schema_table list"

definition aliasedTableName :: "js_string \<Rightarrow> (js_string \<times> js_string) list \<Rightarrow> table_name option" where
  "aliasedTableName stem aliases =
     (case js_get aliases stem of
        Some n \<Rightarrow> Some n
      | None \<Rightarrow> js_get aliases (pluralize stem))"

definition expectedTableName :: "js_string \<Rightarrow> (js_string \<times> js_string) list \<Rightarrow> table_name" where
  "expectedTableName stem aliases =
     (case aliasedTableName stem aliases of Some n \<Rightarrow> n | None \<Rightarrow> Named (pluralize stem))"

definition resolveTable ::
  "js_string \<Rightarrow> js_string \<Rightarrow> schema_table list \<Rightarrow> (js_string \<times> js_string) list \<Rightarrow> table_resolution" where
  "resolveTable stem moduleName tables aliases =
     (let owned = filter (\<lambda>t. tb_owner t = moduleName) tables;
          search = (if length owned > 0 then owned else tables);
          preferred = expectedTableName stem aliases;
          plural = pluralize stem
      in case find (\<lambda>t. Named (tb_name t) = preferred) search of
           Some t \<Rightarrow> FoundTable t
         | None \<Rightarrow>
             (case filter (\<lambda>t. tb_name t = stem \<or> tb_name t = plural \<or> ends_with (CHR ''_'' # stem) (tb_name t)
                  \<or> ends_with (CHR ''_'' # plural) (tb_name t) \<or> ends_with plural (tb_name t)) search of
                [] \<Rightarrow> MissingTable
              | [t] \<Rightarrow> FoundTable t
              | candidates \<Rightarrow> AmbiguousTables candidates))"

section \<open>Gaps\<close>

datatype provenance_gap =
    ColumnMissing js_string
  | ColumnNotNullable js_string
  | CheckMissing js_string
  | CheckTooNarrow js_string

definition createdViaCheckSqlIsValid :: "js_string \<Rightarrow> bool" where
  "createdViaCheckSqlIsValid sql =
     list_all (\<lambda>channel. js_includes ([CHR 0x27] @ channel @ [CHR 0x27]) sql) RECORD_CREATED_VIA_CHANNELS"

definition provenanceGaps :: "schema_table \<Rightarrow> provenance_gap list" where
  "provenanceGaps t =
     (let byName = map_of (rev (tb_columns t)); checkName = tb_name t @ ''_created_via_check'' in
      concat (map (\<lambda>name.
          case byName name of
            None \<Rightarrow> [ColumnMissing name]
          | Some notNull \<Rightarrow> push_if notNull (ColumnNotNullable name)) REQUIRED_COLUMNS)
      @ (case map_of (tb_checks t) checkName of
           None \<Rightarrow> [CheckMissing checkName]
         | Some sql \<Rightarrow> push_if (\<not> createdViaCheckSqlIsValid sql) (CheckTooNarrow checkName)))"

section \<open>The check\<close>

record provenance_requirement =
  pq_action :: js_string
  pq_module :: js_string
  pq_table :: table_name
  pq_stem :: js_string
  pq_resolution :: table_resolution

definition deriveRecordProvenanceRequirements ::
  "action_contract list \<Rightarrow> schema_table list \<Rightarrow> (js_string \<times> js_string) list \<Rightarrow> provenance_requirement list" where
  "deriveRecordProvenanceRequirements cs schemaTables aliases =
     concat (map (\<lambda>c.
       let moduleName = moduleOf (ac_name c) in
       if \<not> isWriteRisk c \<or> isExcludedModule moduleName then []
       else case entityStemForCreateAction (ac_name c) of
         None \<Rightarrow> []
       | Some stem \<Rightarrow>
           (let resolved = resolveTable stem moduleName schemaTables aliases in
            [\<lparr>pq_action = ac_name c, pq_module = moduleName,
              pq_table = (case resolved of FoundTable t \<Rightarrow> Named (tb_name t) | _ \<Rightarrow> expectedTableName stem aliases),
              pq_stem = stem, pq_resolution = resolved\<rparr>])) (deriveAiToolSources cs))"

datatype provenance_problem =
    ProvenanceGaps js_string table_name "provenance_gap list"
  | NoTable js_string js_string table_name
  | SeveralTables js_string js_string "js_string list"

definition problemForRequirement :: "provenance_requirement \<Rightarrow> provenance_problem option" where
  "problemForRequirement r =
     (case pq_resolution r of
        MissingTable \<Rightarrow> Some (NoTable (pq_action r) (pq_module r) (pq_table r))
      | AmbiguousTables candidates \<Rightarrow>
          Some (SeveralTables (pq_action r) (pq_stem r) (sort (map tb_name candidates)))
      | FoundTable t \<Rightarrow>
          (let missing = provenanceGaps t in
           if length missing = 0 then None else Some (ProvenanceGaps (pq_action r) (Named (tb_name t)) missing)))"

definition collectRecordProvenanceProblems ::
  "action_contract list \<Rightarrow> schema_table list \<Rightarrow> provenance_problem list" where
  "collectRecordProvenanceProblems cs schemaTables =
     concat (map (\<lambda>r. case problemForRequirement r of None \<Rightarrow> [] | Some p \<Rightarrow> [p])
       (deriveRecordProvenanceRequirements cs schemaTables RECORD_PROVENANCE_PHYSICAL_TABLE_ALIASES))"

section \<open>What a clean check guarantees\<close>

lemma provenanceGaps_ok:
  "provenanceGaps t = [] \<longleftrightarrow> (\<forall>name \<in> set REQUIRED_COLUMNS. map_of (rev (tb_columns t)) name = Some False)
     \<and> (\<exists>sql. map_of (tb_checks t) (tb_name t @ ''_created_via_check'') = Some sql \<and> createdViaCheckSqlIsValid sql)"
  by (auto simp: provenanceGaps_def Let_def split: option.splits)

lemma resolveTable_found:
  assumes "resolveTable stem moduleName tables aliases = FoundTable t"
  shows "t \<in> set tables \<and> (moduleName \<in> tb_owner ` set tables \<longrightarrow> tb_owner t = moduleName)"
proof -
  let ?owned = "filter (\<lambda>t. tb_owner t = moduleName) tables"
  have "t \<in> set (if length ?owned > 0 then ?owned else tables)"
    using assms unfolding resolveTable_def Let_def
    by (auto split: option.splits list.splits if_splits dest!: find_Some_iff [THEN iffD1] filter_eq_ConsD nth_mem)
  then show ?thesis by (auto split: if_splits simp: filter_empty_conv)
qed

lemma create_stem: "isCreateVerb (actionVerb name) \<Longrightarrow> \<exists>stem. entityStemForCreateAction name = Some stem"
  by (auto simp: entityStemForCreateAction_def Let_def split: list.splits)


definition sample_create :: action_contract where
  "sample_create = sample_contract\<lparr>ac_name := ''orders.create''\<rparr>"

definition sample_table :: schema_table where
  "sample_table = \<lparr>tb_name = ''orders'', tb_owner = ''orders'',
     tb_columns = [(''id'', True), (''created_via'', False), (''vouched_by'', False), (''vouched_at'', False)],
     tb_checks = [(''orders_created_via_check'',
       concat (map (\<lambda>channel. [CHR 0x27] @ channel @ [CHR 0x27]) RECORD_CREATED_VIA_CHANNELS))]\<rparr>"


end
