(* ===== verification/Contract_Check.thy ===== *)
theory Contract_Check
  imports Provenance_Check Delivery
begin

text \<open>
  The whole-catalog check of the contracts (\<open>contract-check/contract-check.ts\<close>) over the registry and
  the manifests: one collector per rule class, composed in the order of \<open>runContractCheck\<close>. A
  problem is a constructor per push. The keys that the code joins with a NUL are joined here too.
\<close>

section \<open>The input\<close>

record subscription_ref =
  sb_event :: js_string
  sb_consumer :: js_string
  sb_action :: js_string

record contract_check_input =
  ck_registry :: registry
  ck_events :: "event_definition list"
  ck_subscriptions :: "subscription_ref list"
  ck_callEdges :: "call_edge list"
  ck_projectionGrants :: "js_string list"
  ck_readModelGrants :: "(js_string \<times> js_string) list"
  ck_schemaImports :: "(js_string \<times> js_string) list"
  ck_suiteCoverage :: suite_coverage
  ck_schemaTables :: "schema_table list"
  ck_assistantSurfaces :: "surface_binding list"
  ck_assistantFacadeToolNames :: "js_string list"
  ck_jobs :: "job list"

datatype consumer_rule = MustBeSystem | MustBeInternal | MustBeInternalToAi | MustWrite | MustBeIdempotent
  | MustMatchScope

datatype check_problem =
    PairingProblem registry_problem
  | DuplicateEvent js_string
  | GrantNotDeclared js_string js_string
  | EmitNotDefined js_string js_string
  | EmitScopeMismatch js_string js_string event_scope system_scope
  | DuplicateBinding js_string js_string
  | EventNotDefined js_string js_string
  | ConsumerNotRegistered js_string js_string js_string
  | ConsumerRule js_string js_string js_string consumer_rule
  | CallerNotRegistered js_string js_string
  | CalleeNotRegistered js_string js_string
  | CallRuleViolated js_string js_string call_problem
  | PermissionNotCovered js_string js_string js_string
  | AtomicCalleeNotRegistered js_string js_string
  | AtomicRuleViolated js_string js_string atomic_call_problem
  | AtomicCallerNotRegistered js_string js_string
  | AtomicNotMutual js_string js_string
  | ErrorNotDeclared js_string js_string js_string
  | CallGraphCycle "js_string list"
  | GranteeNotProjection js_string js_string
  | ImportWithoutGrant js_string js_string
  | SuiteProblem suite_problem
  | ProvenanceProblem provenance_problem
  | PreviewMissing js_string
  | SurfaceProblem surface_problem
  | JobProblem job_check_problem

section \<open>Pairing, events and grants\<close>

definition collectPairingProblems :: "registry \<Rightarrow> check_problem list" where
  "collectPairingProblems rg =
     (case assertPaired rg of Inl problems \<Rightarrow> map PairingProblem problems | Inr _ \<Rightarrow> [])"

text \<open>The first definition of a name stays in the map.\<close>

definition events_by_name :: "event_definition list \<Rightarrow> js_string \<Rightarrow> event_definition option" where
  "events_by_name events = map_of (map (\<lambda>e. (ed_name e, e)) events)"

definition collectEventDefinitionProblems :: "event_definition list \<Rightarrow> check_problem list" where
  "collectEventDefinitionProblems events =
     concat (map (\<lambda>(i, e). push_if (ed_name e \<in> ed_name ` set (take i events)) (DuplicateEvent (ed_name e)))
       (enumerate 0 events))"

definition collectProjectionGrantProblems :: "action_contract \<Rightarrow> js_string list \<Rightarrow> check_problem list" where
  "collectProjectionGrantProblems c projectionGrants =
     (if ac_publicScope c = Some GlobalProjection
      then (case ac_projectionGrant c of
          None \<Rightarrow> []
        | Some grant \<Rightarrow> push_if (grant \<notin> set projectionGrants) (GrantNotDeclared (ac_name c) grant))
      else [])"

definition emitterEventScope :: "action_contract \<Rightarrow> system_scope option" where
  "emitterEventScope c =
     (case ac_principal c of
        Staff \<Rightarrow> Some Tenant
      | Customer \<Rightarrow> Some Tenant
      | Share \<Rightarrow> Some Tenant
      | System \<Rightarrow> ac_systemScope c
      | Account \<Rightarrow> Some GlobalScope
      | _ \<Rightarrow> None)"

definition collectEmitProblems ::
  "action_contract \<Rightarrow> (js_string \<Rightarrow> event_definition option) \<Rightarrow> check_problem list" where
  "collectEmitProblems c eventsByName =
     (let requiredScope = emitterEventScope c in
      concat (map (\<lambda>name.
        case eventsByName name of
          None \<Rightarrow> [EmitNotDefined (ac_name c) name]
        | Some definition' \<Rightarrow>
            (case requiredScope of
               None \<Rightarrow> []
             | Some scope \<Rightarrow> push_if (event_system_scope (ed_scope definition') \<noteq> scope)
                 (EmitScopeMismatch (ac_name c) name (ed_scope definition') scope))) (ac_emits c)))"

section \<open>Subscriptions\<close>

definition binding_key :: "subscription_ref \<Rightarrow> js_string" where
  "binding_key s = sb_consumer s @ CHR 0x00 # sb_event s"

definition consumer_rules :: "event_definition option \<Rightarrow> action_contract \<Rightarrow> consumer_rule list" where
  "consumer_rules event target =
     push_if (ac_principal target \<noteq> System) MustBeSystem
     @ push_if (ac_transport target \<noteq> Internal) MustBeInternal
     @ push_if (ac_aiExposure target \<noteq> NotExposed) MustBeInternalToAi
     @ push_if (ac_risk target \<noteq> RiskWrite) MustWrite
     @ push_if (\<not> ac_idempotent target) MustBeIdempotent
     @ (case event of
          None \<Rightarrow> []
        | Some e \<Rightarrow> push_if (ac_principal target = System
            \<and> ac_systemScope target \<noteq> Some (event_system_scope (ed_scope e))) MustMatchScope)"

definition collectSubscriptionProblems ::
  "subscription_ref list \<Rightarrow> (js_string \<Rightarrow> event_definition option) \<Rightarrow> (js_string \<Rightarrow> action_contract option) \<Rightarrow>
     check_problem list" where
  "collectSubscriptionProblems subscriptions eventsByName contractsByName =
     concat (map (\<lambda>(i, s).
       push_if (binding_key s \<in> binding_key ` set (take i subscriptions)) (DuplicateBinding (sb_consumer s) (sb_event s))
       @ push_if (eventsByName (sb_event s) = None) (EventNotDefined (sb_consumer s) (sb_event s))
       @ (case contractsByName (sb_action s) of
            None \<Rightarrow> [ConsumerNotRegistered (sb_consumer s) (sb_event s) (sb_action s)]
          | Some target \<Rightarrow> map (ConsumerRule (sb_consumer s) (sb_event s) (ac_name target))
              (consumer_rules (eventsByName (sb_event s)) target))) (enumerate 0 subscriptions))"

section \<open>Call edges\<close>

definition collectCallPermissionCoverageProblems :: "action_contract \<Rightarrow> action_contract \<Rightarrow> check_problem list" where
  "collectCallPermissionCoverageProblems caller callee =
     (if ac_principal caller \<noteq> Staff then []
      else let covered = expandPermissionPrerequisites (ac_permissions caller) in
        map (PermissionNotCovered (ac_name caller) (ac_name callee))
          (filter (\<lambda>permission. permission \<notin> set covered) (ac_permissions callee)))"

definition collectCallEdgeProblems ::
  "call_edge list \<Rightarrow> (js_string \<Rightarrow> action_contract option) \<Rightarrow> check_problem list" where
  "collectCallEdgeProblems callEdges contractsByName =
     concat (map (\<lambda>e.
       push_if (contractsByName (de_caller e) = None) (CallerNotRegistered (de_caller e) (de_callee e))
       @ push_if (contractsByName (de_callee e) = None) (CalleeNotRegistered (de_caller e) (de_callee e))
       @ (case (contractsByName (de_caller e), contractsByName (de_callee e)) of
            (Some caller, Some callee) \<Rightarrow>
              map (CallRuleViolated (de_caller e) (de_callee e)) (callTargetProblems caller callee)
              @ (if \<not> de_permissionGuarded e then collectCallPermissionCoverageProblems caller callee else [])
          | _ \<Rightarrow> [])) callEdges)"

definition collectAtomicEdgeProblems ::
  "action_contract list \<Rightarrow> (js_string \<Rightarrow> action_contract option) \<Rightarrow> check_problem list" where
  "collectAtomicEdgeProblems cs contractsByName =
     concat (map (\<lambda>c.
       concat (map (\<lambda>calleeName.
         case contractsByName calleeName of
           None \<Rightarrow> [AtomicCalleeNotRegistered (ac_name c) calleeName]
         | Some callee \<Rightarrow>
             map (AtomicRuleViolated (ac_name c) calleeName) (atomicCallTargetProblems c callee)
             @ collectCallPermissionCoverageProblems c callee) (ac_atomicCalls c))
       @ concat (map (\<lambda>callerName.
         case contractsByName callerName of
           None \<Rightarrow> [AtomicCallerNotRegistered callerName (ac_name c)]
         | Some caller \<Rightarrow>
             push_if (ac_name c \<notin> set (ac_atomicCalls caller)) (AtomicNotMutual callerName (ac_name c)))
           (ac_atomicCallers c))) cs)"

definition missing_errors :: "action_contract \<Rightarrow> action_contract \<Rightarrow> check_problem list" where
  "missing_errors caller callee =
     map (ErrorNotDeclared (ac_name caller) (ac_name callee))
       (filter (\<lambda>code. code \<notin> set (ac_errors caller)) (ac_errors callee))"

definition collectDeclaredErrorSupersetProblems ::
  "action_contract list \<Rightarrow> call_edge list \<Rightarrow> (js_string \<Rightarrow> action_contract option) \<Rightarrow> check_problem list" where
  "collectDeclaredErrorSupersetProblems cs callEdges contractsByName =
     concat (map (\<lambda>e. case (contractsByName (de_caller e), contractsByName (de_callee e)) of
         (Some caller, Some callee) \<Rightarrow> missing_errors caller callee
       | _ \<Rightarrow> []) callEdges)
     @ concat (map (\<lambda>caller. concat (map (\<lambda>calleeName.
         case contractsByName calleeName of
           None \<Rightarrow> []
         | Some callee \<Rightarrow> missing_errors caller callee) (ac_atomicCalls caller))) cs)"

section \<open>Schema ownership\<close>

definition PROJECTION_MODULES :: "js_string list" where
  "PROJECTION_MODULES = [''search'', ''analytics'']"

definition collectSchemaOwnershipProblems ::
  "(js_string \<times> js_string) list \<Rightarrow> (js_string \<times> js_string) list \<Rightarrow> check_problem list" where
  "collectSchemaOwnershipProblems readModelGrants schemaImports =
     (let grantedEdges = map (\<lambda>(owner, grantee). edgeKey owner grantee) readModelGrants in
      concat (map (\<lambda>(owner, grantee). push_if (grantee \<notin> set PROJECTION_MODULES) (GranteeNotProjection owner grantee))
        readModelGrants)
      @ concat (map (\<lambda>(importer, schemaOwner).
          push_if (importer \<noteq> schemaOwner \<and> edgeKey schemaOwner importer \<notin> set grantedEdges)
            (ImportWithoutGrant importer schemaOwner)) schemaImports))"

section \<open>The check\<close>

definition registered_contracts :: "registry \<Rightarrow> action_contract list" where
  "registered_contracts rg = map co_contract (contracts rg)"

definition runContractCheck :: "contract_check_input \<Rightarrow> check_problem list" where
  "runContractCheck input =
     (let cs = registered_contracts (ck_registry input);
          contractsByName = contracts_by_name cs;
          eventsByName = events_by_name (ck_events input)
      in collectPairingProblems (ck_registry input)
         @ collectEventDefinitionProblems (ck_events input)
         @ concat (map (\<lambda>c. collectProjectionGrantProblems c (ck_projectionGrants input)
             @ collectEmitProblems c eventsByName) cs)
         @ collectSubscriptionProblems (ck_subscriptions input) eventsByName contractsByName
         @ collectCallEdgeProblems (ck_callEdges input) contractsByName
         @ collectAtomicEdgeProblems cs contractsByName
         @ collectDeclaredErrorSupersetProblems cs (ck_callEdges input) contractsByName
         @ map CallGraphCycle (collectCallGraphCycleProblems cs (ck_callEdges input))
         @ collectSchemaOwnershipProblems (ck_readModelGrants input) (ck_schemaImports input)
         @ map SuiteProblem (collectSuiteCoverageProblems (ck_suiteCoverage input) cs (map sb_action (ck_subscriptions input)))
         @ map ProvenanceProblem (collectRecordProvenanceProblems cs (ck_schemaTables input))
         @ map PreviewMissing (collectWritePreviewProblems (map snd (rg_implementations (ck_registry input))))
         @ map SurfaceProblem (collectAssistantSurfaceBindingProblems cs (ck_assistantSurfaces input)
             (ck_assistantFacadeToolNames input))
         @ map JobProblem (collectJobProblems (ck_jobs input) cs (sv_jobIsolation (ck_suiteCoverage input))))"

definition assertContractCheck :: "contract_check_input \<Rightarrow> check_problem list + unit" where
  "assertContractCheck input =
     (let problems = runContractCheck input in if length problems = 0 then Inr () else Inl problems)"

end
