(* ===== verification/Contract_Check_Promises.thy ===== *)
theory Contract_Check_Promises
  imports Contract_Check Nested_Promises
begin

text \<open>
  What a clean contract check is worth at run time: a declared call is refused for no other reason
  than the depth limit and the deadline, it never lacks a permission that its caller's staff member
  was checked for, and the parts of the catalog fit together.
\<close>

section \<open>The parts of a clean check\<close>

lemma clean_parts:
  assumes "assertContractCheck input = Inr ()" and "cs = registered_contracts (ck_registry input)"
  shows "assertPaired (ck_registry input) = Inr ()" and "collectEventDefinitionProblems (ck_events input) = []"
    and "\<And>c. c \<in> set cs \<Longrightarrow> collectEmitProblems c (events_by_name (ck_events input)) = []"
    and "collectSubscriptionProblems (ck_subscriptions input) (events_by_name (ck_events input)) (contracts_by_name cs) = []"
    and "collectCallEdgeProblems (ck_callEdges input) (contracts_by_name cs) = []"
    and "collectAtomicEdgeProblems cs (contracts_by_name cs) = []"
    and "collectDeclaredErrorSupersetProblems cs (ck_callEdges input) (contracts_by_name cs) = []"
    and "collectCallGraphCycleProblems cs (ck_callEdges input) = []"
proof -
  have clean: "runContractCheck input = []"
    using assms(1) by (simp add: assertContractCheck_def Let_def split: if_splits)
  show "assertPaired (ck_registry input) = Inr ()"
    using clean by (auto simp: runContractCheck_def Let_def collectPairingProblems_def assertPaired_def split: if_splits)
  show "collectEventDefinitionProblems (ck_events input) = []"
    "\<And>c. c \<in> set cs \<Longrightarrow> collectEmitProblems c (events_by_name (ck_events input)) = []"
    "collectSubscriptionProblems (ck_subscriptions input) (events_by_name (ck_events input)) (contracts_by_name cs) = []"
    "collectCallEdgeProblems (ck_callEdges input) (contracts_by_name cs) = []"
    "collectAtomicEdgeProblems cs (contracts_by_name cs) = []"
    "collectDeclaredErrorSupersetProblems cs (ck_callEdges input) (contracts_by_name cs) = []"
    "collectCallGraphCycleProblems cs (ck_callEdges input) = []"
    using clean by (simp_all add: runContractCheck_def Let_def assms(2))
qed

lemma clean_edge:
  assumes "collectCallEdgeProblems edges byName = []" and "e \<in> set edges"
  shows "\<exists>caller callee. byName (de_caller e) = Some caller \<and> byName (de_callee e) = Some callee
    \<and> callTargetProblems caller callee = []
    \<and> (de_permissionGuarded e \<or> collectCallPermissionCoverageProblems caller callee = [])"
proof -
  have "push_if (byName (de_caller e) = None) (CallerNotRegistered (de_caller e) (de_callee e))
       @ push_if (byName (de_callee e) = None) (CalleeNotRegistered (de_caller e) (de_callee e))
       @ (case (byName (de_caller e), byName (de_callee e)) of
            (Some caller, Some callee) \<Rightarrow>
              map (CallRuleViolated (de_caller e) (de_callee e)) (callTargetProblems caller callee)
              @ (if \<not> de_permissionGuarded e then collectCallPermissionCoverageProblems caller callee else [])
          | _ \<Rightarrow> []) = []"
    using assms unfolding collectCallEdgeProblems_def concat_map_Nil_iff by (rule bspec)
  then show ?thesis by (cases "byName (de_caller e)"; cases "byName (de_callee e)") (auto split: if_splits)
qed

lemma clean_atomic_edge:
  assumes "collectAtomicEdgeProblems cs byName = []" and "c \<in> set cs" and "name \<in> set (ac_atomicCalls c)"
  shows "\<exists>callee. byName name = Some callee \<and> atomicCallTargetProblems c callee = []"
proof -
  have "\<forall>name \<in> set (ac_atomicCalls c). (case byName name of
      None \<Rightarrow> [AtomicCalleeNotRegistered (ac_name c) name]
    | Some callee \<Rightarrow> map (AtomicRuleViolated (ac_name c) name) (atomicCallTargetProblems c callee)
        @ collectCallPermissionCoverageProblems c callee) = []"
    using assms(1,2) unfolding collectAtomicEdgeProblems_def concat_map_Nil_iff append_is_Nil_conv by simp
  with assms(3) show ?thesis by (cases "byName name") auto
qed

lemma clean_atomic_errors:
  assumes "collectDeclaredErrorSupersetProblems cs edges byName = []" and "c \<in> set cs"
    and "name \<in> set (ac_atomicCalls c)" and "byName name = Some callee"
  shows "missing_errors c callee = []"
  using assms by (fastforce simp: collectDeclaredErrorSupersetProblems_def split: option.splits)

lemma clean_emission:
  assumes "collectEmitProblems c (events_by_name events) = []" and "name \<in> set (ac_emits c)"
  shows "\<exists>event \<in> set events. ed_name event = name
    \<and> (\<forall>scope. emitterEventScope c = Some scope \<longrightarrow> event_system_scope (ed_scope event) = scope)"
proof -
  have "(case events_by_name events name of
      None \<Rightarrow> [EmitNotDefined (ac_name c) name]
    | Some event \<Rightarrow> (case emitterEventScope c of
          None \<Rightarrow> []
        | Some scope \<Rightarrow> push_if (event_system_scope (ed_scope event) \<noteq> scope)
            (EmitScopeMismatch (ac_name c) name (ed_scope event) scope))) = []"
    using assms by (auto simp: collectEmitProblems_def Let_def)
  then obtain event where event: "events_by_name events name = Some event"
    "\<forall>scope. emitterEventScope c = Some scope \<longrightarrow> event_system_scope (ed_scope event) = scope"
    by (cases "events_by_name events name"; cases "emitterEventScope c") (auto split: if_splits)
  moreover have "event \<in> set events \<and> ed_name event = name"
    using map_of_SomeD [OF event(1) [unfolded events_by_name_def]] by auto
  ultimately show ?thesis by blast
qed

lemma contracts_by_name_unique:
  assumes "distinct (map ac_name cs)" and "c \<in> set cs"
  shows "contracts_by_name cs (ac_name c) = Some c"
proof -
  have "distinct (map fst (rev (map (\<lambda>c. (ac_name c, c)) cs)))"
    using assms(1) by (simp add: rev_map [symmetric] comp_def)
  then show ?thesis unfolding contracts_by_name_def using assms(2) by (intro map_of_is_SomeI) auto
qed

lemma booted_by_name:
  assumes "boot registrations empty_registry = Inr rg" and "cs = registered_contracts rg"
  shows "c \<in> set cs \<Longrightarrow> contracts_by_name cs (ac_name c) = Some c"
    and "contracts_by_name cs n = Some c \<Longrightarrow> c \<in> set cs \<and> ac_name c = n"
proof -
  have inv: "registry_inv rg" using boot_inv [OF empty_registry_inv assms(1)] by blast
  have "map ac_name cs = map fst (rg_contracts rg)"
    using inv by (auto simp: assms(2) registered_contracts_def contracts_def registry_inv_def)
  then have "distinct (map ac_name cs)" using inv by (simp add: registry_inv_def)
  then show "c \<in> set cs \<Longrightarrow> contracts_by_name cs (ac_name c) = Some c" by (rule contracts_by_name_unique)
  show "contracts_by_name cs n = Some c \<Longrightarrow> c \<in> set cs \<and> ac_name c = n"
    unfolding contracts_by_name_def by (drule map_of_SomeD) auto
qed

lemma acyclic_path:
  assumes "acyclic r" and "successively (\<lambda>a b. (a, b) \<in> r) (path @ [x])" and "y \<in> set path"
  shows "y \<noteq> x"
proof
  assume "y = x"
  obtain us vs where path: "path = us @ x # vs" using assms(3) \<open>y = x\<close> by (meson split_list)
  then have chain: "successively (\<lambda>a b. (a, b) \<in> r) (x # vs @ [x])"
    using assms(2) by (simp add: successively_append_iff)
  have "successively (\<lambda>a b. (a, b) \<in> r) (a # vs @ [z]) \<Longrightarrow> (a, z) \<in> r\<^sup>+" for a z
  proof (induction vs arbitrary: a)
    case (Cons v vs)
    then show ?case by (auto intro: trancl_into_trancl2)
  qed auto
  from this [OF chain] show False using assms(1) by (simp add: acyclic_def)
qed

section \<open>Declared calls at run time\<close>

text \<open>
  C19: in a catalog that passes the check a declared read call is refused for two reasons only. When
  the actions on the path have called each other along declared edges, the runtime guard of a declared
  call from the last of them finds no violated rule and no cycle: it admits the call, unless the path
  is already longer than the depth limit or the shared deadline has passed.
\<close>

theorem declared_calls_meet_only_limits:
  assumes "assertContractCheck input = Inr ()" and "cs = registered_contracts (ck_registry input)"
    and "boot registrations empty_registry = Inr (ck_registry input)" and "ce_caller env \<in> set cs" and "callee \<in> set cs"
    and "\<exists>e \<in> set (ck_callEdges input). de_caller e = ac_name (ce_caller env) \<and> de_callee e = ac_name callee"
    and "ce_path env = ps @ [ac_name (ce_caller env)]"
    and "successively (\<lambda>a b. (a, b) \<in> declared_edges cs (ck_callEdges input)) (ce_path env)"
    and "ce_execution env = Some ctx"
  shows "call_guard env callee nowMs =
    (if length (ce_path env) > CALL_DEPTH_LIMIT then Inl (call_error CallDepthExceeded)
     else if ce_deadline env \<le> nowMs then Inl timeout_error else Inr ctx)"
proof -
  note clean = clean_parts [OF assms(1,2)]
  obtain e where e: "e \<in> set (ck_callEdges input)" "de_caller e = ac_name (ce_caller env)" "de_callee e = ac_name callee"
    using assms(6) by blast
  have rules: "callTargetProblems (ce_caller env) callee = []"
    using clean_edge [OF clean(5) e(1)] e booted_by_name [OF assms(3,2)] assms(4,5) by auto
  have "(ac_name (ce_caller env), ac_name callee) \<in> declared_edges cs (ck_callEdges input)"
    using e by (force simp: declared_edges_def)
  then have "successively (\<lambda>a b. (a, b) \<in> declared_edges cs (ck_callEdges input)) (ce_path env @ [ac_name callee])"
    using assms(7,8) by (simp add: successively_append_iff)
  moreover have "acyclic (declared_edges cs (ck_callEdges input))"
    using call_graph_reports(1) clean(8) by blast
  ultimately have "y \<noteq> ac_name callee" if "y \<in> set (ce_path env)" for y using that by (intro acyclic_path)
  then have "ac_name callee \<notin> set (ce_path env)" by metis
  then show ?thesis using rules assms(9) by (simp add: call_guard_def assertNestedDeadline_def)
qed

section \<open>Permissions\<close>

lemma staff_ctx_any:
  assumes "createStaffContext tn rq rt s sel = Inr (StaffCtx b u c m)"
  shows "\<exists>b'. createStaffContext tn rq' rt' s sel = Inr (StaffCtx b' u c m)"
  using assms by (auto simp: createStaffContext_def requireSession_def Let_def
      split: option.splits sum.splits if_splits list.splits)

lemma staff_ctx_resolved:
  assumes "createStaffContext tn request runtime session selector = Inr ctx"
  shows "\<exists>b u c m overrides defaults. session = Some u \<and> selector = Some c \<and> ctx = StaffCtx b u c m
    \<and> mb_permissions m = resolveEffectivePermissions overrides defaults"
proof -
  obtain u c b m where ctx: "ctx = StaffCtx b u c m" "session = Some u" "selector = Some c"
    using assms by (cases session; cases selector)
      (auto simp: createStaffContext_def requireSession_def Let_def split: if_splits list.splits)
  obtain r p d rest where rows: "membership_rows tn c u = (r, p, d) # rest"
    using assms ctx by (cases "membership_rows tn c u") (auto simp: createStaffContext_def requireSession_def split: if_splits)
  have "mb_permissions m = resolveEffectivePermissions p
    (concat (map (\<lambda>(_, _, d). case d of None \<Rightarrow> [] | Some p \<Rightarrow> [p]) (membership_rows tn c u)))"
    using assms ctx rows by (auto simp: createStaffContext_def requireSession_def Let_def split: if_splits)
  with ctx show ?thesis by metis
qed

lemma covered_permissions:
  assumes "collectCallPermissionCoverageProblems caller callee = []" and "ac_principal caller = Staff"
    and "mb_permissions m = resolveEffectivePermissions overrides defaults"
    and "\<forall>p \<in> set (ac_permissions caller). staffHasPermission m p"
  shows "\<forall>p \<in> set (ac_permissions callee). staffHasPermission m p"
proof
  fix p assume "p \<in> set (ac_permissions callee)"
  then have "p \<in> set (expandPermissionPrerequisites (ac_permissions caller))"
    using assms(1,2) by (auto simp: collectCallPermissionCoverageProblems_def Let_def filter_empty_conv)
  then obtain q where "q \<in> set (ac_permissions caller)" "requires q p" by (auto simp: set_expand)
  then show "staffHasPermission m p"
    using assms(3,4) requires_trans by (auto simp: staffHasPermission_def set_resolveEffectivePermissions split: if_splits) blast
qed

text \<open>
  C20: a declared staff call never lacks a permission. In a catalog that passes the check, a staff member
  who was admitted to the caller gets, in the same transaction, the context of every callee that the
  caller declares without marking the edge as permission-guarded.
\<close>

theorem declared_staff_calls_are_permitted:
  assumes "assertContractCheck input = Inr ()" and "cs = registered_contracts (ck_registry input)"
    and "boot registrations empty_registry = Inr (ck_registry input)" and "caller \<in> set cs" and "nx_contract action \<in> set cs"
    and "ac_principal caller = Staff"
    and "\<exists>e \<in> set (ck_callEdges input). de_caller e = ac_name caller \<and> de_callee e = ac_name (nx_contract action)
      \<and> \<not> de_permissionGuarded e"
    and "createStaffContext tn request runtime session selector = Inr callerCtx"
    and "checkPermissions caller callerCtx = Inr callerCtx"
  shows "\<exists>ctx. constructCalleeContext action v request' runtime' tn callerCtx = Inr ctx
    \<and> ctx_membership ctx = ctx_membership callerCtx \<and> effectiveCompanyId ctx = effectiveCompanyId callerCtx"
proof -
  note clean = clean_parts [OF assms(1,2)]
  obtain e where e: "e \<in> set (ck_callEdges input)" "de_caller e = ac_name caller"
    "de_callee e = ac_name (nx_contract action)" "\<not> de_permissionGuarded e"
    using assms(7) by blast
  have covered: "collectCallPermissionCoverageProblems caller (nx_contract action) = []"
    using clean_edge [OF clean(5) e(1)] e booted_by_name [OF assms(3,2)] assms(4,5) by auto
  obtain b u c m overrides defaults where staff: "session = Some u" "selector = Some c"
    "callerCtx = StaffCtx b u c m" "mb_permissions m = resolveEffectivePermissions overrides defaults"
    using staff_ctx_resolved [OF assms(8)] by metis
  have "createStaffContext tn request runtime (Some u) (Some c) = Inr (StaffCtx b u c m)"
    using assms(8) by (simp only: staff(1-3))
  from staff_ctx_any [OF this] have "\<exists>b'. createStaffContext tn request' runtime' (Some u) (Some c) = Inr (StaffCtx b' u c m)" .
  then obtain b' where callee: "createStaffContext tn request' runtime' (Some u) (Some c) = Inr (StaffCtx b' u c m)" by blast
  have "\<forall>p \<in> set (ac_permissions (nx_contract action)). staffHasPermission m p"
    using covered_permissions [OF covered assms(6) staff(4)] staff(3) assms(9) by (auto simp: checkPermissions_Inr)
  then have "constructCalleeContext action v request' runtime' tn callerCtx = Inr (StaffCtx b' u c m)"
    using callee staff(3) by (simp add: checkPermissions_Inr)
  then show ?thesis using staff(3) by simp
qed

section \<open>Atomic calls and events\<close>

text \<open>
  C22: in a catalog that passes the check the declared atomic calls and emissions of an action fit the
  rest of the catalog. Every declared atomic callee is registered, names the action as its caller, has
  its error codes declared by the action and is admitted as its first atomic call; and every event that
  the action may emit is defined, so that for a caller whose company agrees with the scope of the action
  the flush finds the company of the event.
\<close>

theorem clean_catalog_is_composed:
  assumes "assertContractCheck input = Inr ()" and "cs = registered_contracts (ck_registry input)"
    and "boot registrations empty_registry = Inr (ck_registry input)" and "c \<in> set cs"
  shows "(\<forall>name \<in> set (ac_atomicCalls c). \<exists>callee \<in> set cs. ac_name callee = name
      \<and> ac_name c \<in> set (ac_atomicCallers callee) \<and> set (ac_errors callee) \<subseteq> set (ac_errors c)
      \<and> (ce_caller env = c \<and> ce_execution env = Some ctx \<longrightarrow> atomic_guard env callee False = Inr ctx))
    \<and> (\<forall>name \<in> set (ac_emits c). \<exists>event \<in> set (ck_events input). ed_name event = name
      \<and> (emitterEventScope c = Some Tenant \<and> effectiveCompanyId ctx \<noteq> None \<longrightarrow>
          resolveEventCompanyId event ctx = Inr (effectiveCompanyId ctx))
      \<and> (emitterEventScope c = Some GlobalScope \<longrightarrow> resolveEventCompanyId event ctx = Inr None))"
proof (intro conjI ballI)
  note clean = clean_parts [OF assms(1,2)]
  fix name assume name: "name \<in> set (ac_atomicCalls c)"
  obtain callee where callee: "contracts_by_name cs name = Some callee" "atomicCallTargetProblems c callee = []"
    using clean_atomic_edge [OF clean(6) assms(4) name] by blast
  have "missing_errors c callee = []"
    using clean_atomic_errors [OF clean(7) assms(4) name callee(1)] .
  then have "set (ac_errors callee) \<subseteq> set (ac_errors c)"
    by (auto simp: missing_errors_def filter_empty_conv)
  moreover have "callee \<in> set cs \<and> ac_name callee = name" using booted_by_name(2) [OF assms(3,2) callee(1)] .
  moreover have "ac_name c \<in> set (ac_atomicCallers callee)"
    using callee(2) by (auto simp: atomicCallTargetProblems_def)
  ultimately show "\<exists>callee \<in> set cs. ac_name callee = name
      \<and> ac_name c \<in> set (ac_atomicCallers callee) \<and> set (ac_errors callee) \<subseteq> set (ac_errors c)
      \<and> (ce_caller env = c \<and> ce_execution env = Some ctx \<longrightarrow> atomic_guard env callee False = Inr ctx)"
    using callee(2) by (intro bexI [of _ callee]) (auto simp: atomic_guard_def)
next
  note clean = clean_parts [OF assms(1,2)]
  fix name assume name: "name \<in> set (ac_emits c)"
  obtain event where event: "event \<in> set (ck_events input)" "ed_name event = name"
    "\<forall>scope. emitterEventScope c = Some scope \<longrightarrow> event_system_scope (ed_scope event) = scope"
    using clean_emission [OF clean(3) [OF assms(4)] name] by blast
  then show "\<exists>event \<in> set (ck_events input). ed_name event = name
      \<and> (emitterEventScope c = Some Tenant \<and> effectiveCompanyId ctx \<noteq> None \<longrightarrow>
          resolveEventCompanyId event ctx = Inr (effectiveCompanyId ctx))
      \<and> (emitterEventScope c = Some GlobalScope \<longrightarrow> resolveEventCompanyId event ctx = Inr None)"
    by (intro bexI [of _ event]) (auto simp: resolveEventCompanyId_def event_system_scope_def split: event_scope.splits)
qed

section \<open>A catalog\<close>

definition sample_get_order :: action_contract where
  "sample_get_order = sample_read_callee\<lparr>ac_permissions := [''orders:view'']\<rparr>"

definition sample_registrations :: "registration list" where
  "sample_registrations = concat (map (\<lambda>(i, c).
     let contract = \<lparr>co_id = i, co_contract = c\<rparr> in
     [Contract contract, Implementation \<lparr>ia_contract = contract,
        ia_callbacks = ia_callbacks sample_implementation\<rparr>])
     [(1, sample_contract), (2, sample_atomic_callee), (3, sample_get_order)])"

definition sample_registry :: registry where
  "sample_registry = (case boot sample_registrations empty_registry of Inr rg \<Rightarrow> rg | Inl _ \<Rightarrow> empty_registry)"

definition sample_catalog :: contract_check_input where
  "sample_catalog = \<lparr>ck_registry = sample_registry, ck_events = [sample_event], ck_subscriptions = [],
     ck_callEdges = [\<lparr>de_caller = ''orders.confirm'', de_callee = ''customers.get'', de_permissionGuarded = False\<rparr>],
     ck_projectionGrants = [], ck_readModelGrants = [], ck_schemaImports = [],
     ck_suiteCoverage = emptySuiteCoverage\<lparr>
       sv_isolation := [''orders.confirm'', ''inventory.reserve'', ''customers.get''],
       sv_idempotency := [''orders.confirm'', ''inventory.reserve''], sv_events := [''orders''],
       sv_atomic := [(''orders.confirm'', ''inventory.reserve'')]\<rparr>,
     ck_schemaTables = [], ck_assistantSurfaces = [], ck_assistantFacadeToolNames = [], ck_jobs = []\<rparr>"

lemma sample_catalog_boots: "boot sample_registrations empty_registry = Inr (ck_registry sample_catalog)"
  by code_simp

lemma sample_catalog_clean: "assertContractCheck sample_catalog = Inr ()"
  by code_simp

lemma sample_catalog_contracts:
  "registered_contracts (ck_registry sample_catalog) = [sample_contract, sample_atomic_callee, sample_get_order]"
  by code_simp

theorem declared_calls_meet_only_limits_witness:
  "call_guard ((sample_env_of (Return JNull))\<lparr>ce_caller := sample_contract, ce_path := [''orders.confirm''],
     ce_deadline := 1000\<rparr>) sample_get_order 0 = Inr sample_ctx"
proof -
  let ?env = "(sample_env_of (Return JNull))\<lparr>ce_caller := sample_contract, ce_path := [''orders.confirm''],
     ce_deadline := 1000\<rparr>"
  have "call_guard ?env sample_get_order 0 =
    (if length (ce_path ?env) > CALL_DEPTH_LIMIT then Inl (call_error CallDepthExceeded)
     else if ce_deadline ?env \<le> 0 then Inl timeout_error else Inr sample_ctx)"
    by (rule declared_calls_meet_only_limits [OF sample_catalog_clean sample_catalog_contracts [symmetric]
          sample_catalog_boots, where ps = "[]"])
      (simp_all add: sample_catalog_def sample_contract_def sample_get_order_def sample_read_callee_def
        sample_env_of_def root_env_def)
  then show ?thesis by (simp add: CALL_DEPTH_LIMIT_def)
qed

definition sample_staff_ctx :: action_ctx where
  "sample_staff_ctx = StaffCtx (buildBase sample_request sample_runtime WritableTx (UserActor ''u1'') (Some sample_company))
     ''u1'' sample_company \<lparr>mb_role = Manager, mb_permissions = resolveEffectivePermissions \<lparr>granted = [''orders:edit''], denied = []\<rparr> []\<rparr>"

lemma sample_staff_ctx_created:
  "createStaffContext sample_tenancy sample_request sample_runtime (Some ''u1'') (Some sample_company) = Inr sample_staff_ctx"
  by code_simp

lemma sample_staff_ctx_permitted: "checkPermissions sample_contract sample_staff_ctx = Inr sample_staff_ctx"
  by code_simp

theorem declared_staff_calls_are_permitted_witness:
  "\<exists>ctx. constructCalleeContext (sample_action sample_get_order (Return JNull)) JNull sample_hook_request
     sample_runtime sample_tenancy sample_staff_ctx = Inr ctx \<and> effectiveCompanyId ctx = Some sample_company"
proof -
  have edge: "\<exists>e \<in> set (ck_callEdges sample_catalog). de_caller e = ac_name sample_contract
      \<and> de_callee e = ac_name (nx_contract (sample_action sample_get_order (Return JNull))) \<and> \<not> de_permissionGuarded e"
    by (simp add: sample_catalog_def sample_contract_def sample_get_order_def sample_read_callee_def sample_action_def)
  have "effectiveCompanyId sample_staff_ctx = Some sample_company" by (simp add: sample_staff_ctx_def)
  then show ?thesis
    using declared_staff_calls_are_permitted [OF sample_catalog_clean sample_catalog_contracts [symmetric]
        sample_catalog_boots _ _ _ edge sample_staff_ctx_created sample_staff_ctx_permitted,
        where request' = sample_hook_request and runtime' = sample_runtime and v = JNull]
    by (auto simp: sample_action_def sample_contract_def)
qed

theorem clean_catalog_is_composed_witness:
  "\<exists>callee \<in> set (registered_contracts (ck_registry sample_catalog)). ac_name callee = ''inventory.reserve''
     \<and> set (ac_errors callee) \<subseteq> {''NOT_FOUND''}"
proof -
  have "sample_contract \<in> set [sample_contract, sample_atomic_callee, sample_get_order]" by simp
  from clean_catalog_is_composed [OF sample_catalog_clean sample_catalog_contracts [symmetric] sample_catalog_boots this]
  show ?thesis unfolding sample_catalog_contracts by (auto simp: sample_contract_def)
qed

end
