(* ===== verification/Spec2Isabelle.thy ===== *)
theory Spec2Isabelle
  imports Prelude Core_Errors Permissions Contract Define_Contract Call_Rules Implementation
    Json Json_Unique Contexts Authorization Process Idempotency Idempotency_Proofs
    Confirmation Confirmation_Proofs Rate_Limit Uuid7 Outbox Outbox_Proofs
    Delivery Delivery_Execute Delivery_Proofs Delivery_Promises Jobs Job_Proofs Audit_Hook Pipeline Pipeline_Proofs Pipeline_Promises
    Pipeline_Retry Pipeline_Delivery Nested Nested_Proofs Nested_Promises
    Call_Graph Coverage_Check Surface_Check Provenance_Check Contract_Check Contract_Check_Promises
begin

text \<open>
  A model of the action runtime of shozee, the package \<open>packages/core\<close>, with the theorems that
  make it correct. Paths below are relative to \<open>src/packages/core/src\<close>.

  \<^bold>\<open>The program.\<close> Everything a user, a model, a share link or a worker does to the data of a
  company is an \<^emph>\<open>action\<close>: a contract (name, principal mode, transport, risk, permissions, schemas,
  declared events, errors, calls and jobs) with a handler. One function, \<open>executeAction\<close>, runs
  every action through the same steps: validate the input, check the shape of the caller and the
  composed hooks, take a token from the rate limiter, prove the authority of the caller, show or
  redeem a confirmation card, reserve the idempotency key, and then, in one database transaction,
  build the verified context, run the handler under its deadline, validate the output, flush the
  emitted events and the enqueued jobs, write the audit row and complete the reservation. Events
  in the outbox are delivered to consumers that are actions again, with the delivery row in the
  place of the idempotency row; jobs run system actions under the company recorded in them.

  \<^bold>\<open>Theories and code.\<close>
  \<^item> \<open>Prelude\<close>: results as sums, effects as state-passing functions with \<open>eff_bind\<close>, JavaScript
    numbers and strings, list and map lemmas that the components share.
  \<^item> \<open>Core_Errors\<close>: \<open>errors/index.ts\<close>. An internal error carries a tag that names the violated
    invariant in the place of its message. \<open>thrown\<close> is what code may throw: a typed error or any
    other value.
  \<^item> \<open>Permissions\<close>: \<open>runtime/context/permission-prerequisites.ts\<close>, \<open>permissions.ts\<close>. The worklist
    computes the closure of the prerequisite table; a deny wins over every grant.
  \<^item> \<open>Contract\<close>, \<open>Define_Contract\<close>: \<open>contract/*.ts\<close>. The record \<open>action_contract\<close> has the fields of
    the descriptor, \<open>collectDefinitionProblems\<close> one problem per push of the source; what it accepts
    is proved equal to a rule matrix.
  \<^item> \<open>Call_Rules\<close>: \<open>contract-check/call-rules.ts\<close>. Which contracts may call which.
  \<^item> \<open>Implementation\<close>: \<open>runtime/implement-action.ts\<close>, \<open>runtime/action-registry.ts\<close>. Registered
    contract objects carry an identity, because the registry compares by reference.
  \<^item> \<open>Json\<close>, \<open>Json_Unique\<close>: \<open>runtime/audit/canonical-json.ts\<close>; the canonical text is equal exactly
    for values that are equal up to the order of members.
  \<^item> \<open>Contexts\<close>, \<open>Authorization\<close>: \<open>runtime/context/types.ts\<close>, \<open>factories.ts\<close>, and the checks of step
    2, the preflight and the context construction of \<open>runtime/pipeline/execute-action.ts\<close>. The
    tables they read are the record \<open>tenancy\<close>.
  \<^item> \<open>Process\<close>: clock, identifiers and the interference of other processes; the locale
    \<open>lease_fencing\<close> with its facts on superseded owners, interpreted by the idempotency rows
    (\<open>Idempotency_Proofs\<close>) and by the delivery rows (\<open>Delivery_Proofs\<close>).
  \<^item> \<open>Idempotency\<close>, \<open>Idempotency_Proofs\<close>: \<open>runtime/idempotency/*.ts\<close> over the table
    \<open>idempotency_keys\<close>.
  \<^item> \<open>Confirmation\<close>, \<open>Confirmation_Proofs\<close>: \<open>runtime/confirmation/*.ts\<close>; the locale
    \<open>challenge_store\<close> says what the gate needs of a store and is interpreted by the in-memory one.
  \<^item> \<open>Rate_Limit\<close>: \<open>runtime/rate-limit/*.ts\<close>, buckets with rational token counts.
  \<^item> \<open>Uuid7\<close>, \<open>Outbox\<close>, \<open>Outbox_Proofs\<close>: \<open>runtime/events/uuidv7.ts\<close>, \<open>define-event.ts\<close>, \<open>emit.ts\<close>.
    Bytes are \<open>8 word\<close>s, the bit operations of the source are those of \<open>32 word\<close>.
  \<^item> \<open>Delivery\<close>, \<open>Delivery_Execute\<close>, \<open>Delivery_Proofs\<close>, \<open>Delivery_Promises\<close>: \<open>runtime/events/delivery-*.ts\<close>,
    \<open>define-event-handler.ts\<close>, \<open>envelope.ts\<close>. Histories are the inductive relation \<open>delivery_run\<close>,
    in which dispatchers, executors, failures and replays follow each other in any order.
  \<^item> \<open>Jobs\<close>, \<open>Job_Proofs\<close>: \<open>jobs/*.ts\<close>, \<open>runtime/jobs/*.ts\<close>.
  \<^item> \<open>Audit_Hook\<close>: \<open>runtime/audit/create-audit-hook.ts\<close>, \<open>audit-target-box.ts\<close>.
  \<^item> \<open>Pipeline\<close>: \<open>runtime/pipeline/execute-action.ts\<close>, \<open>types.ts\<close> and the composition
    \<open>apps/worker/src/pipeline.ts\<close>.
  \<^item> \<open>Pipeline_Proofs\<close>, \<open>Pipeline_Promises\<close>, \<open>Pipeline_Retry\<close>, \<open>Pipeline_Delivery\<close>: its theorems. The
    locale \<open>quiet_hooks\<close> is the contract between the pipeline and its hooks; it is interpreted by
    the hooks of the server on the memory stores and by the hooks of a delivery.
  \<^item> \<open>Nested\<close>, \<open>Nested_Proofs\<close>, \<open>Nested_Promises\<close>: \<open>runtime/pipeline/ctx-call.ts\<close>,
    \<open>ctx-call-atomic.ts\<close>, \<open>nested-invocation.ts\<close>. A handler that makes nested calls is a \<open>program\<close>, a
    tree of the calls on its context; \<open>program_handler\<close> makes it a handler of the pipeline. The
    recursion of \<open>createCtxCall\<close> ends because a path of more than three calls is refused. The locale
    \<open>frame_order\<close> is the induction over the calls of a program; it is interpreted by the trails of
    call lines and by what a read may change.
  \<^item> \<open>Call_Graph\<close>, \<open>Coverage_Check\<close>, \<open>Surface_Check\<close>, \<open>Provenance_Check\<close>, \<open>Contract_Check\<close>:
    \<open>contract-check/*.ts\<close>, the check of the whole catalog in CI, one collector per rule class with
    one problem constructor per push. \<open>Contract_Check_Promises\<close> ties it to the run time.

  \<^bold>\<open>State.\<close> The world is one record that grows from theory to theory: clock and identifiers
  (\<open>process\<close>), idempotency rows, challenges, buckets, outbox and sequences, deliveries, audit rows
  and tenancy (\<open>app_world\<close>); its \<open>more\<close> part stands for the tables of the modules. An asynchronous
  function is an effect on it. Each statement or locking transaction is one atomic step; between
  two steps the function \<open>between k\<close> is what other processes do, and \<open>alone\<close> is nobody. A
  transaction that throws restores the tables (\<open>rollback_to\<close>) but neither the clock nor the
  identifiers drawn nor the stores outside the database.

  \<^bold>\<open>What is shown.\<close> For the whole pipeline: an answered request is answered the same again and
  never executed twice; a commit is complete; a failure leaves no trace but its audit row;
  a handler sees nothing but verified authority; nothing runs unconfirmed; a consumer takes effect
  once. For the protocols below it: leases fence superseded attempts, grants confirm what
  was shown and only once, buckets bound the traffic, identifiers are ordered by time, sequences
  are dense, deliveries keep the order of an aggregate and are never lost to a failure, job ids
  identify sends. For contracts and authority: the accepted contracts are the rule
  matrix, exposed writes stay under human control, a context is what the tables say, and one tenant
  cannot observe another. Nested calls end, stay within their bounds, widen no authority and, when
  they are reads, write nothing; an atomic call settles in the transaction of its root. For a
  catalog that passes the contract check: declared calls are refused for nothing but the depth limit
  and the deadline, staff callers hold the permissions of their callees, atomic edges and events fit
  together, exposed creates record who made them; the cycle check and the suggestions are exact.

  \<^bold>\<open>Assumptions.\<close> SHA-256, HMAC, Zod parsing, random bytes and \<open>randomUUID\<close>, the job port, the
  callbacks of actions and the stores are parameters; where a theorem needs more of them (an
  injective supply, a non-empty digest), it says so. Code units are below 256. Clocks are integer
  milliseconds. A uuid column stores lower case. A commit does not fail. Sequences are unbounded.
  A handler that settles at or after its deadline may win or lose the race (\<open>pd_expiryWins\<close>). The
  retry loop of \<open>reserve\<close> has the two rounds of the source; the worklist of the permissions
  terminates by a measure on the permissions not yet seen.

  \<^bold>\<open>Not modelled.\<close> Log lines and telemetry (but the fields of the finish line), the abort signal,
  the pg-boss and Redis adapters, HTTP, the database schema beyond these tables, the drizzle
  objects behind the schema input of the contract check, the modules of the domain, the assistant, the
  on-device runtime and the user interfaces.
\<close>

end
